(* ===== verification/Bpf_Prelude.thy ===== *)
theory Bpf_Prelude
  imports Main "HOL-Library.Word" "HOL-Library.Monad_Syntax"
begin

text \<open>
  The shared vocabulary of the development: the integer types of the C sources, a packet as the
  list of the bytes in \<open>[data, data_end)\<close>, bounds-checked loads and stores on it, byte order
  conversion, and the weakest-precondition rules the component proofs use.

  A load or store outside the packet is the value \<open>None\<close>, so ``the program never touches memory
  outside the packet'' is the statement that its model is never \<open>None\<close>.  All machines the
  sources are built for are little endian (the constants \<open>BE_ETH_P_IP\<close> of the sources are the
  byte-swapped values), so a multi-byte load reads the first byte as the least significant one.
\<close>

unbundle bit_operations_syntax

section \<open>Types\<close>

type_synonym u8 = "8 word"
type_synonym u16 = "16 word"
type_synonym u32 = "32 word"
type_synonym u64 = "64 word"
type_synonym packet = "u8 list"

named_theorems wp_simps "rewrite rules that push a postcondition through a program"
named_theorems safe_intros "a component's operation never faults"
named_theorems wp_ctrl "the rules of wp-simps for control flow only"
named_theorems len_elim "memory operations, abstracted to what they do to the length of the packet"

section \<open>Weakest preconditions in the option monad\<close>

text \<open>
  \<open>wp m Q\<close>: the computation \<open>m\<close> does not fault and its result satisfies \<open>Q\<close>.
\<close>

definition wp :: "'a option \<Rightarrow> ('a \<Rightarrow> bool) \<Rightarrow> bool" where
  "wp m Q \<longleftrightarrow> (\<exists>x. m = Some x \<and> Q x)"

lemma wp_Some [wp_simps, wp_ctrl]: "wp (Some x) Q = Q x"
  by (simp add: wp_def)

lemma wp_None [wp_simps, wp_ctrl]: "wp None Q = False"
  by (simp add: wp_def)

lemma wp_bind [wp_simps, wp_ctrl]: "wp (Option.bind m f) Q = wp m (\<lambda>x. wp (f x) Q)"
  by (cases m) (simp_all add: wp_def)

lemma wp_if [wp_simps, wp_ctrl]:
  "wp (if c then a else b) Q = ((c \<longrightarrow> wp a Q) \<and> (\<not> c \<longrightarrow> wp b Q))"
  by simp

lemma wp_map_option [wp_simps, wp_ctrl]: "wp (map_option f m) Q = wp m (\<lambda>x. Q (f x))"
  by (cases m) (simp_all add: wp_def)

lemma wp_case_option [wp_simps, wp_ctrl]:
  "wp (case x of None \<Rightarrow> a | Some y \<Rightarrow> f y) Q =
     ((x = None \<longrightarrow> wp a Q) \<and> (\<forall>y. x = Some y \<longrightarrow> wp (f y) Q))"
  by (cases x) simp_all

lemma wp_case_prod [wp_simps, wp_ctrl]:
  "wp (case x of (a, b) \<Rightarrow> f a b) Q = (\<forall>a b. x = (a, b) \<longrightarrow> wp (f a b) Q)"
  by (cases x) simp

lemma wp_case_sum [wp_simps, wp_ctrl]:
  "wp (case x of Inl a \<Rightarrow> f a | Inr b \<Rightarrow> g b) Q =
     ((\<forall>a. x = Inl a \<longrightarrow> wp (f a) Q) \<and> (\<forall>b. x = Inr b \<longrightarrow> wp (g b) Q))"
  by (cases x) simp_all

lemma wp_Let [wp_simps, wp_ctrl]: "wp (let x = e in f x) Q = wp (f e) Q"
  by simp

lemma wp_mono: "wp m P \<Longrightarrow> (\<And>x. P x \<Longrightarrow> Q x) \<Longrightarrow> wp m Q"
  by (auto simp: wp_def)

lemma wp_conj: "wp m P \<Longrightarrow> wp m Q \<Longrightarrow> wp m (\<lambda>x. P x \<and> Q x)"
  by (auto simp: wp_def)

lemma wpI: "m \<noteq> None \<Longrightarrow> (\<And>x. m = Some x \<Longrightarrow> Q x) \<Longrightarrow> wp m Q"
  by (cases m) (auto simp: wp_def)

lemma wp_total: "m \<noteq> None \<longleftrightarrow> wp m (\<lambda>_. True)"
  by (auto simp: wp_def)

lemma wpD: "wp m Q \<Longrightarrow> m = Some x \<Longrightarrow> Q x"
  by (auto simp: wp_def)

lemma bind_total:
  "m \<noteq> None \<Longrightarrow> (\<And>x. m = Some x \<Longrightarrow> f x \<noteq> None) \<Longrightarrow> Option.bind m f \<noteq> None"
  by (cases m) auto

section \<open>Words as natural numbers\<close>

lemma unat_drop: "unat (drop_bit n w) = unat (w :: 'a::len word) div 2 ^ n"
  by (rule trans [OF unat_drop_bit_eq drop_bit_eq_div])

lemma unat_and_mask: "unat (w AND mask n) = unat (w :: 'a::len word) mod 2 ^ n"
  unfolding take_bit_eq_mask [symmetric]
  by (rule trans [OF unsigned_take_bit_eq take_bit_eq_mod])

lemma unat_and_ffff: "unat (w AND 0xffff) = unat (w :: 'a::len word) mod 65536"
  using unat_and_mask [of w 16] by (simp add: mask_eq_exp_minus_1)

lemma unat_not: "unat (NOT w) = 2 ^ LENGTH('a) - 1 - unat (w :: 'a::len word)"
proof -
  have "NOT w = - 1 - w" by (simp add: not_eq_complement)
  moreover have "w \<le> - 1" by (rule word_order.extremum)
  ultimately show ?thesis by (simp add: unat_sub unsigned_minus_1_eq_mask mask_eq_exp_minus_1)
qed

lemma unat_u16_less: "unat (w :: u16) < 65536"
  using unsigned_less [of w, where 'a = nat] by simp

lemma unat_u64_less: "unat (w :: u64) < 2 ^ 64"
  using unsigned_less [of w, where 'a = nat] by simp

lemma funpow4: "(f ^^ 4) x = f (f (f (f x)))"
  by (simp add: numeral_eq_Suc)

lemma unat_ucast_mod:
  "unat (ucast w :: 'b::len word) = unat (w :: 'a::len word) mod 2 ^ LENGTH('b)"
  by (simp add: unsigned_ucast_eq take_bit_eq_mod)

section \<open>Little-endian values\<close>

fun le_val :: "u8 list \<Rightarrow> nat" where
  "le_val [] = 0"
| "le_val (b # bs) = unat b + 256 * le_val bs"

fun le_enc :: "nat \<Rightarrow> nat \<Rightarrow> u8 list" where
  "le_enc 0 v = []"
| "le_enc (Suc n) v = of_nat (v mod 256) # le_enc n (v div 256)"

definition le_word :: "u8 list \<Rightarrow> 'a::len word" where
  "le_word bs = of_nat (le_val bs)"

definition le_bytes :: "nat \<Rightarrow> 'a::len word \<Rightarrow> u8 list" where
  "le_bytes n w = le_enc n (unat w)"

lemma unat_u8_less [simp]: "unat (b :: u8) < 256"
  using unsigned_less [of b] by simp

lemma le_val_less: "le_val bs < 256 ^ length bs"
proof (induction bs)
  case (Cons b bs)
  have "unat b + 256 * le_val bs < 256 + 256 * le_val bs" by simp
  also have "\<dots> \<le> 256 * 256 ^ length bs" using Cons.IH by simp
  finally show ?case by simp
qed simp

lemma length_le_enc [simp]: "length (le_enc n v) = n"
  by (induction n arbitrary: v) simp_all

lemma length_le_bytes [simp]: "length (le_bytes n w) = n"
  by (simp add: le_bytes_def)

lemma unat_of_nat_mod256 [simp]: "unat (of_nat (v mod 256) :: u8) = v mod 256"
  by (simp add: unat_of_nat)

lemma le_val_enc: "le_val (le_enc n v) = v mod 256 ^ n"
  by (induction n arbitrary: v) (simp_all add: mod_mult2_eq)

lemma le_enc_val: "le_enc (length bs) (le_val bs) = bs"
  by (induction bs) (simp_all add: div_mult_self2)

lemma le_word_bytes:
  assumes "LENGTH('a::len) \<le> 8 * n"
  shows "le_word (le_bytes n w) = (w :: 'a word)"
proof -
  have "unat w < 2 ^ LENGTH('a)" by (rule unsigned_less)
  also have "(2::nat) ^ LENGTH('a) \<le> 2 ^ (8 * n)" using assms by (simp add: power_increasing)
  also have "\<dots> = 256 ^ n" by (simp add: power_mult)
  finally show ?thesis by (simp add: le_word_def le_bytes_def le_val_enc)
qed

lemma le_bytes_word:
  assumes "256 ^ length bs \<le> (2::nat) ^ LENGTH('a::len)" and "n = length bs"
  shows "le_bytes n (le_word bs :: 'a word) = bs"
proof -
  have "le_val bs < 2 ^ LENGTH('a)" using le_val_less [of bs] assms(1) by linarith
  then show ?thesis using assms(2)
    by (simp add: le_bytes_def le_word_def unat_of_nat le_enc_val)
qed

section \<open>Bounds-checked access to the packet\<close>

definition rd :: "packet \<Rightarrow> nat \<Rightarrow> nat \<Rightarrow> u8 list option" where
  "rd p i n = (if i + n \<le> length p then Some (take n (drop i p)) else None)"

definition patch :: "packet \<Rightarrow> nat \<Rightarrow> u8 list \<Rightarrow> packet" where
  "patch p i bs = take i p @ bs @ drop (i + length bs) p"

definition wr :: "packet \<Rightarrow> nat \<Rightarrow> u8 list \<Rightarrow> packet option" where
  "wr p i bs = (if i + length bs \<le> length p then Some (patch p i bs) else None)"

definition ld8 :: "packet \<Rightarrow> nat \<Rightarrow> u8 option" where
  "ld8 p i = map_option le_word (rd p i 1)"

definition ld16 :: "packet \<Rightarrow> nat \<Rightarrow> u16 option" where
  "ld16 p i = map_option le_word (rd p i 2)"

definition ld32 :: "packet \<Rightarrow> nat \<Rightarrow> u32 option" where
  "ld32 p i = map_option le_word (rd p i 4)"

definition st8 :: "packet \<Rightarrow> nat \<Rightarrow> u8 \<Rightarrow> packet option" where
  "st8 p i v = wr p i [v]"

definition st16 :: "packet \<Rightarrow> nat \<Rightarrow> u16 \<Rightarrow> packet option" where
  "st16 p i v = wr p i (le_bytes 2 v)"

definition st32 :: "packet \<Rightarrow> nat \<Rightarrow> u32 \<Rightarrow> packet option" where
  "st32 p i v = wr p i (le_bytes 4 v)"

text \<open>The total reading functions that a load returns when it is in bounds.\<close>

abbreviation bytes_at :: "packet \<Rightarrow> nat \<Rightarrow> nat \<Rightarrow> u8 list" where
  "bytes_at p i n \<equiv> take n (drop i p)"

abbreviation u16_at :: "packet \<Rightarrow> nat \<Rightarrow> u16" where
  "u16_at p i \<equiv> le_word (bytes_at p i 2)"

abbreviation u32_at :: "packet \<Rightarrow> nat \<Rightarrow> u32" where
  "u32_at p i \<equiv> le_word (bytes_at p i 4)"

lemma bytes_at_split: "bytes_at p i (m + n) = bytes_at p i m @ bytes_at p (i + m) n"
  by (simp add: take_add add.commute)

lemma le_word_single [simp]: "le_word [b] = (b :: u8)"
  by (simp add: le_word_def)

lemma take1_drop: "i < length p \<Longrightarrow> take (Suc 0) (drop i p) = [p ! i]"
  by (simp add: take_Suc_conv_app_nth)

lemma wp_rd [wp_simps]: "wp (rd p i n) Q = (i + n \<le> length p \<and> Q (bytes_at p i n))"
  by (auto simp: rd_def wp_simps)

lemma wp_wr [wp_simps]: "wp (wr p i bs) Q = (i + length bs \<le> length p \<and> Q (patch p i bs))"
  by (auto simp: wr_def wp_simps)

lemma wp_ld8 [wp_simps]: "wp (ld8 p i) Q = (i < length p \<and> Q (p ! i))"
  by (auto simp: ld8_def wp_simps take1_drop Suc_le_eq)

lemma wp_ld16 [wp_simps]: "wp (ld16 p i) Q = (i + 2 \<le> length p \<and> Q (u16_at p i))"
  by (simp add: ld16_def wp_simps)

lemma wp_ld32 [wp_simps]: "wp (ld32 p i) Q = (i + 4 \<le> length p \<and> Q (u32_at p i))"
  by (simp add: ld32_def wp_simps)

lemma ld8_at: "i < length p \<Longrightarrow> ld8 p i = Some (p ! i)"
  using wp_ld8 [of p i "\<lambda>x. x = p ! i"] by (simp add: wp_def)

lemma ld16_at: "i + 2 \<le> length p \<Longrightarrow> ld16 p i = Some (u16_at p i)"
  using wp_ld16 [of p i "\<lambda>x. x = u16_at p i"] by (simp add: wp_def)

lemma ld32_at: "i + 4 \<le> length p \<Longrightarrow> ld32 p i = Some (u32_at p i)"
  using wp_ld32 [of p i "\<lambda>x. x = u32_at p i"] by (simp add: wp_def)

lemma wp_st8 [wp_simps]: "wp (st8 p i v) Q = (i < length p \<and> Q (patch p i [v]))"
  by (simp add: st8_def wp_simps Suc_le_eq)

lemma wp_st16 [wp_simps]:
  "wp (st16 p i v) Q = (i + 2 \<le> length p \<and> Q (patch p i (le_bytes 2 v)))"
  by (simp add: st16_def wp_simps)

lemma wp_st32 [wp_simps]:
  "wp (st32 p i v) Q = (i + 4 \<le> length p \<and> Q (patch p i (le_bytes 4 v)))"
  by (simp add: st32_def wp_simps)

lemma length_patch [simp]: "i + length bs \<le> length p \<Longrightarrow> length (patch p i bs) = length p"
  by (simp add: patch_def)

lemma nth_patch:
  assumes "i + length bs \<le> length p"
  shows "patch p i bs ! j =
    (if i \<le> j \<and> j < i + length bs then bs ! (j - i) else p ! j)"
proof -
  from assms have "min (length p) i = i" by simp
  then show ?thesis using assms by (auto simp: patch_def nth_append)
qed

text \<open>
  The same rules with the contents of the packet abstracted away.  Used as elimination rules they
  replace what is known of the old packet, its length \<open>N\<close>, by the same fact of the new one, so
  that a proof about a long sequence of stores stays small: it alternates \<open>wp_bindI\<close>, one of
  \<open>len_elim\<close> and \<open>simp\<close> for the bound.
\<close>

lemma wp_bindI: "wp m (\<lambda>x. wp (f x) Q) \<Longrightarrow> wp (Option.bind m f) Q"
  by (simp add: wp_bind)

lemma wp_SomeI: "Q x \<Longrightarrow> wp (Some x) Q"
  by (simp add: wp_Some)

lemma rd_el [len_elim]:
  "length p = N \<Longrightarrow> i + n \<le> N \<Longrightarrow> (\<And>b. length p = N \<Longrightarrow> length b = n \<Longrightarrow> Q b) \<Longrightarrow> wp (rd p i n) Q"
  by (simp add: wp_rd)

lemma ld_el [len_elim]:
  "length p = N \<Longrightarrow> i < N \<Longrightarrow> (\<And>b. length p = N \<Longrightarrow> Q8 b) \<Longrightarrow> wp (ld8 p i) Q8"
  "length p = N \<Longrightarrow> i + 2 \<le> N \<Longrightarrow> (\<And>b. length p = N \<Longrightarrow> Q16 b) \<Longrightarrow> wp (ld16 p i) Q16"
  "length p = N \<Longrightarrow> i + 4 \<le> N \<Longrightarrow> (\<And>b. length p = N \<Longrightarrow> Q32 b) \<Longrightarrow> wp (ld32 p i) Q32"
  by (simp_all add: wp_ld8 wp_ld16 wp_ld32)

lemma st_el [len_elim]:
  "length p = N \<Longrightarrow> i < N \<Longrightarrow> (\<And>p'. length p' = N \<Longrightarrow> Q p') \<Longrightarrow> wp (st8 p i b) Q"
  "length p = N \<Longrightarrow> i + 2 \<le> N \<Longrightarrow> (\<And>p'. length p' = N \<Longrightarrow> Q p') \<Longrightarrow> wp (st16 p i h) Q"
  "length p = N \<Longrightarrow> i + 4 \<le> N \<Longrightarrow> (\<And>p'. length p' = N \<Longrightarrow> Q p') \<Longrightarrow> wp (st32 p i w) Q"
  by (auto simp: wp_st8 wp_st16 wp_st32)

lemma wr_el [len_elim]:
  "length p = N \<Longrightarrow> i + length bs \<le> N \<Longrightarrow> (\<And>p'. length p' = N \<Longrightarrow> Q p') \<Longrightarrow> wp (wr p i bs) Q"
  by (auto simp: wp_wr)

text \<open>Reading back what a store wrote, and reading beside it.\<close>

lemma bytes_at_patch_same:
  "i + length bs \<le> length p \<Longrightarrow> n = length bs \<Longrightarrow> bytes_at (patch p i bs) i n = bs"
  by (simp add: patch_def)

lemma bytes_at_patch_other:
  assumes "i + length bs \<le> length p" and "j + n \<le> i \<or> i + length bs \<le> j"
  shows "bytes_at (patch p i bs) j n = bytes_at p j n"
proof (rule nth_equalityI)
  show "length (bytes_at (patch p i bs) j n) = length (bytes_at p j n)"
    using assms(1) by simp
next
  fix k assume "k < length (bytes_at (patch p i bs) j n)"
  then have "k < n" "j + k < length p" using assms(1) by auto
  then show "bytes_at (patch p i bs) j n ! k = bytes_at p j n ! k"
    using assms by (auto simp: nth_patch)
qed

section \<open>Byte order\<close>

text \<open>\<open>__builtin_bswap16\<close> and \<open>__builtin_bswap32\<close>, the \<open>bpf_htons\<close>, \<open>bpf_ntohs\<close>,
  \<open>bpf_htonl\<close>, \<open>bpf_ntohl\<close> of a little-endian build.\<close>

definition bswap16 :: "u16 \<Rightarrow> u16" where
  "bswap16 x = (push_bit 8 x) OR (drop_bit 8 x)"

definition bswap32 :: "u32 \<Rightarrow> u32" where
  "bswap32 x = push_bit 24 x OR push_bit 8 (x AND 0xff00) OR drop_bit 8 (x AND 0xff0000)
     OR drop_bit 24 x"

lemma bswap16_bit: "bit (bswap16 x) n \<longleftrightarrow> n < 16 \<and> bit x (if n < 8 then n + 8 else n - 8)"
  by (auto simp: bswap16_def bit_simps add.commute dest: bit_imp_le_length)

lemma bswap16_bswap16 [simp]: "bswap16 (bswap16 x) = x"
  by (rule bit_word_eqI) (auto simp: bswap16_bit)

lemma bswap16_eq: "bswap16 x = y \<longleftrightarrow> x = bswap16 y"
  by (metis bswap16_bswap16)

lemma unat_bswap16: "unat (bswap16 x) = 256 * (unat x mod 256) + unat x div 256"
proof -
  have "bswap16 x = push_bit 8 x + drop_bit 8 x"
    unfolding bswap16_def by (rule disjunctive_add [symmetric]) (auto simp: bit_simps dest: bit_imp_le_length)
  moreover have "unat (push_bit 8 x) = 256 * (unat x mod 256)"
  proof -
    have "unat (push_bit 8 x) = (256 * unat x) mod (256 * 256)" by (simp add: push_bit_eq_mult unat_word_ariths mult.commute)
    then show ?thesis by (simp add: mult_mod_right)
  qed
  moreover have "unat (drop_bit 8 x) = unat x div 256" by (simp add: unat_drop)
  moreover have "256 * (unat x mod 256) + unat x div 256 < 65536"
  proof -
    have "unat x div 256 < 256" using unat_u16_less [of x] by (simp add: div_less_iff_less_mult)
    moreover have "unat x mod 256 < 256" by simp
    ultimately show ?thesis by linarith
  qed
  ultimately show ?thesis by (simp add: unat_word_ariths)
qed

lemma unat_u16_at:
  assumes "i + 2 \<le> length p"
  shows "unat (u16_at p i) = unat (p ! i) + 256 * unat (p ! (i + 1))"
proof -
  have b: "bytes_at p i 2 = [p ! i, p ! (i + 1)]"
    using assms by (simp add: take_Suc_conv_app_nth numeral_2_eq_2)
  have "unat (p ! i) + 256 * unat (p ! (i + 1)) < 65536"
    using unat_u8_less [of "p ! i"] unat_u8_less [of "p ! (i + 1)"] by linarith
  then show ?thesis by (simp add: b le_word_def unat_of_nat del: of_nat_add of_nat_mult)
qed

lemma unat_bswap_u16_at:
  assumes "i + 2 \<le> length p"
  shows "unat (bswap16 (u16_at p i)) = 256 * unat (p ! i) + unat (p ! (i + 1))"
  by (simp add: unat_bswap16 unat_u16_at [OF assms])

section \<open>Numbers of the protocol headers\<close>

text \<open>Protocol numbers, Ethernet types in network byte order and ICMP types of the system headers.\<close>

definition IPPROTO_ICMP :: u8 where "IPPROTO_ICMP = 1"
definition IPPROTO_IPIP :: u8 where "IPPROTO_IPIP = 4"
definition IPPROTO_TCP :: u8 where "IPPROTO_TCP = 6"
definition IPPROTO_UDP :: u8 where "IPPROTO_UDP = 17"
definition IPPROTO_IPV6 :: u8 where "IPPROTO_IPV6 = 41"
definition IPPROTO_FRAGMENT :: u8 where "IPPROTO_FRAGMENT = 44"
definition IPPROTO_ICMPV6 :: u8 where "IPPROTO_ICMPV6 = 58"
definition IPPROTO_SCTP :: u8 where "IPPROTO_SCTP = 132"

lemmas proto_defs = IPPROTO_ICMP_def IPPROTO_IPIP_def IPPROTO_TCP_def IPPROTO_UDP_def
  IPPROTO_IPV6_def IPPROTO_FRAGMENT_def IPPROTO_ICMPV6_def IPPROTO_SCTP_def

definition ETH_P_IP :: u16 where "ETH_P_IP = 0x0800"
definition ETH_P_IPV6 :: u16 where "ETH_P_IPV6 = 0x86DD"
definition ETH_P_ARP :: u16 where "ETH_P_ARP = 0x0806"
definition ETH_P_8021Q :: u16 where "ETH_P_8021Q = 0x8100"
definition ETH_P_8021AD :: u16 where "ETH_P_8021AD = 0x88A8"

definition ICMP_ECHOREPLY :: u8 where "ICMP_ECHOREPLY = 0"
definition ICMP_DEST_UNREACH :: u8 where "ICMP_DEST_UNREACH = 3"
definition ICMP_REDIRECT :: u8 where "ICMP_REDIRECT = 5"
definition ICMP_ECHO :: u8 where "ICMP_ECHO = 8"
definition ICMP_TIME_EXCEEDED :: u8 where "ICMP_TIME_EXCEEDED = 11"
definition ICMP_FRAG_NEEDED :: u8 where "ICMP_FRAG_NEEDED = 4"
definition ICMPV6_DEST_UNREACH :: u8 where "ICMPV6_DEST_UNREACH = 1"
definition ICMPV6_PKT_TOOBIG :: u8 where "ICMPV6_PKT_TOOBIG = 2"
definition ICMPV6_TIME_EXCEED :: u8 where "ICMPV6_TIME_EXCEED = 3"
definition ICMPV6_ECHO_REQUEST :: u8 where "ICMPV6_ECHO_REQUEST = 128"
definition ICMPV6_ECHO_REPLY :: u8 where "ICMPV6_ECHO_REPLY = 129"

lemmas icmp_defs = ICMP_ECHOREPLY_def ICMP_DEST_UNREACH_def ICMP_REDIRECT_def ICMP_ECHO_def
  ICMP_TIME_EXCEEDED_def ICMP_FRAG_NEEDED_def ICMPV6_DEST_UNREACH_def ICMPV6_PKT_TOOBIG_def
  ICMPV6_TIME_EXCEED_def ICMPV6_ECHO_REQUEST_def ICMPV6_ECHO_REPLY_def

section \<open>XDP and TC verdicts\<close>

definition XDP_ABORTED :: int where "XDP_ABORTED = 0"
definition XDP_DROP :: int where "XDP_DROP = 1"
definition XDP_PASS :: int where "XDP_PASS = 2"
definition XDP_TX :: int where "XDP_TX = 3"
definition XDP_REDIRECT :: int where "XDP_REDIRECT = 4"

lemmas xdp_defs = XDP_ABORTED_def XDP_DROP_def XDP_PASS_def XDP_TX_def XDP_REDIRECT_def

text \<open>
  What a program run leaves behind: a return code, or a successful \<open>bpf_tail_call\<close>, which does
  not return to its caller (the new program takes over with the packet and maps as they are).
\<close>

datatype ret = Ret int | TailCall u32

end
