(* ===== verification/Bpf_Env.thy ===== *)
theory Bpf_Env
  imports Bpf_Prelude
begin

text \<open>
  The kernel side of a program run.  The BPF helpers are code of the kernel, not of the programs:
  they are the fields of a record the models take as an argument.  What the programs rely on is
  stated as separate laws, with the documented behaviour of the helper (the comments of
  \<open>bpf.h\<close> beside the sources), and \<open>kernel_env\<close> is one concrete kernel that satisfies them.
\<close>

section \<open>Helpers as a record\<close>

text \<open>
  \<open>bpf_ktime_get_ns n\<close> is the clock value the \<open>n\<close>-th call returns; a state keeps the number of
  calls made so far.  \<open>bpf_xdp_adjust_head\<close> and \<open>bpf_xdp_adjust_tail\<close> give the new packet, or
  \<open>None\<close> for a non-zero return code.  \<open>bpf_csum_diff\<close> takes the bytes of \<open>from\<close> and \<open>to\<close> and
  the seed; a negative result is an error code.
\<close>

record bpf_env =
  bpf_ktime_get_ns :: "nat \<Rightarrow> u64"
  bpf_get_smp_processor_id :: u32
  bpf_xdp_adjust_head :: "packet \<Rightarrow> int \<Rightarrow> packet option"
  bpf_xdp_adjust_tail :: "packet \<Rightarrow> int \<Rightarrow> packet option"
  bpf_csum_diff :: "u8 list \<Rightarrow> u8 list \<Rightarrow> u32 \<Rightarrow> int"

section \<open>Internet checksum arithmetic\<close>

text \<open>The sum of the 16-bit little-endian words of a buffer.\<close>

fun sum16 :: "u8 list \<Rightarrow> nat" where
  "sum16 [] = 0"
| "sum16 [a] = unat a"
| "sum16 (a # b # bs) = unat a + 256 * unat b + sum16 bs"

section \<open>Laws of the helpers\<close>

text \<open>
  A successful \<open>bpf_xdp_adjust_head\<close> with a negative delta puts that many bytes, of unspecified
  contents, in front of the packet; with a positive delta it removes bytes at the front.
  \<open>bpf_xdp_adjust_tail\<close> with a negative delta removes bytes at the end.
\<close>

definition adjust_head_ok :: "(packet \<Rightarrow> int \<Rightarrow> packet option) \<Rightarrow> bool" where
  "adjust_head_ok f \<longleftrightarrow> (\<forall>p d p'. f p d = Some p' \<longrightarrow>
     (if d < 0 then length p' = nat (- d) + length p \<and> drop (nat (- d)) p' = p
      else nat d \<le> length p \<and> p' = drop (nat d) p))"

definition adjust_tail_ok :: "(packet \<Rightarrow> int \<Rightarrow> packet option) \<Rightarrow> bool" where
  "adjust_tail_ok f \<longleftrightarrow> (\<forall>p d p'. f p d = Some p' \<longrightarrow> d \<le> 0 \<longrightarrow>
     nat (- d) \<le> length p \<and> p' = take (length p - nat (- d)) p)"

text \<open>
  A checksum difference that is not an error is a 32-bit value congruent, in one's complement
  arithmetic, to the seed plus the sum of \<open>to\<close> minus the sum of \<open>from\<close>.
\<close>

definition csum_diff_ok :: "(u8 list \<Rightarrow> u8 list \<Rightarrow> u32 \<Rightarrow> int) \<Rightarrow> bool" where
  "csum_diff_ok f \<longleftrightarrow> (\<forall>a b seed. 0 \<le> f a b seed \<longrightarrow>
     f a b seed < 2 ^ 32 \<and>
     f a b seed mod 65535 = (uint seed + int (sum16 b) - int (sum16 a)) mod 65535)"

definition env_ok :: "('e) bpf_env_scheme \<Rightarrow> bool" where
  "env_ok e \<longleftrightarrow> adjust_head_ok (bpf_xdp_adjust_head e) \<and> adjust_tail_ok (bpf_xdp_adjust_tail e)"

lemma adjust_head_grow:
  assumes "env_ok e" and "bpf_xdp_adjust_head e p d = Some p'" and "d < 0"
  shows "length p' = nat (- d) + length p" and "drop (nat (- d)) p' = p"
  using assms by (auto simp: env_ok_def adjust_head_ok_def dest: spec split: if_splits)

lemma adjust_head_shrink:
  assumes "env_ok e" and "bpf_xdp_adjust_head e p d = Some p'" and "0 \<le> d"
  shows "nat d \<le> length p" and "p' = drop (nat d) p"
  using assms by (auto simp: env_ok_def adjust_head_ok_def dest: spec split: if_splits)

lemma adjust_tail_shrink:
  assumes "env_ok e" and "bpf_xdp_adjust_tail e p d = Some p'" and "d \<le> 0"
  shows "nat (- d) \<le> length p" and "p' = take (length p - nat (- d)) p"
  using assms by (auto simp: env_ok_def adjust_tail_ok_def)

section \<open>A concrete kernel\<close>

text \<open>
  256 bytes of headroom in front of every packet, zeroed; at least an Ethernet header must
  remain; a clock that stands at one second; CPU 0; checksum differences computed exactly.
\<close>

definition kernel_adjust_head :: "packet \<Rightarrow> int \<Rightarrow> packet option" where
  "kernel_adjust_head p d =
     (if d < 0 then (if - d \<le> 256 then Some (replicate (nat (- d)) 0 @ p) else None)
      else if nat d + 14 \<le> length p then Some (drop (nat d) p) else None)"

definition kernel_adjust_tail :: "packet \<Rightarrow> int \<Rightarrow> packet option" where
  "kernel_adjust_tail p d =
     (if d \<le> 0 \<and> nat (- d) + 14 \<le> length p then Some (take (length p - nat (- d)) p) else None)"

definition kernel_csum_diff :: "u8 list \<Rightarrow> u8 list \<Rightarrow> u32 \<Rightarrow> int" where
  "kernel_csum_diff a b seed =
     (if length a mod 4 = 0 \<and> length b mod 4 = 0
      then (uint seed + int (sum16 b) - int (sum16 a)) mod 65535 else - 22)"

definition kernel_env :: bpf_env where
  "kernel_env = \<lparr> bpf_ktime_get_ns = (\<lambda>_. 1000000000), bpf_get_smp_processor_id = 0,
     bpf_xdp_adjust_head = kernel_adjust_head, bpf_xdp_adjust_tail = kernel_adjust_tail,
     bpf_csum_diff = kernel_csum_diff \<rparr>"

lemma kernel_adjust_head_ok: "adjust_head_ok kernel_adjust_head"
  by (auto simp: adjust_head_ok_def kernel_adjust_head_def split: if_splits)

lemma kernel_adjust_tail_ok: "adjust_tail_ok kernel_adjust_tail"
  by (auto simp: adjust_tail_ok_def kernel_adjust_tail_def split: if_splits)

lemma kernel_csum_diff_ok: "csum_diff_ok kernel_csum_diff"
proof -
  have "(x :: int) mod 65535 < 2 ^ 32" for x
    by (rule less_trans [OF pos_mod_bound]) simp_all
  then show ?thesis by (simp add: csum_diff_ok_def kernel_csum_diff_def)
qed

lemma kernel_env_ok: "env_ok kernel_env"
  by (simp add: env_ok_def kernel_env_def kernel_adjust_head_ok kernel_adjust_tail_ok)

section \<open>Programs as packet processors\<close>

text \<open>
  The contract every attached program has with the kernel: under the invariant of its state the
  program finishes without a fault on every packet and keeps the invariant.  What follows from it
  once is that no sequence of packets makes the program fault.
\<close>

locale packet_program =
  fixes step :: "'s \<Rightarrow> packet \<Rightarrow> ('r \<times> packet \<times> 's) option"
    and inv :: "'s \<Rightarrow> bool"
  assumes step_total: "inv s \<Longrightarrow> step s p \<noteq> None"
    and step_inv: "inv s \<Longrightarrow> step s p = Some (r, p', s') \<Longrightarrow> inv s'"
begin

fun run :: "'s \<Rightarrow> packet list \<Rightarrow> (('r \<times> packet) list \<times> 's) option" where
  "run s [] = Some ([], s)"
| "run s (p # ps) = do {
     (r, p', s') \<leftarrow> step s p;
     (out, s'') \<leftarrow> run s' ps;
     Some ((r, p') # out, s'')
   }"

lemma run_total:
  assumes "inv s"
  shows "\<exists>out s'. run s ps = Some (out, s') \<and> length out = length ps \<and> inv s'"
  using assms
proof (induction ps arbitrary: s)
  case (Cons p ps)
  obtain r p' s1 where st: "step s p = Some (r, p', s1)"
    using step_total [OF Cons.prems, of p] by auto
  with Cons.prems have "inv s1" by (rule step_inv)
  then show ?case using Cons.IH [of s1] st by auto
qed simp

lemma run_append:
  "run s (ps @ qs) = do {
     (a, s1) \<leftarrow> run s ps; (b, s2) \<leftarrow> run s1 qs; Some (a @ b, s2) }"
proof (induction ps arbitrary: s)
  case Nil
  then show ?case by (cases "run s qs") auto
next
  case (Cons p ps)
  then show ?case by (auto split: Option.bind_splits)
qed

end

end
