(* ===== verification/Katran_State.thy ===== *)
theory Katran_State
  imports Bpf_Env
begin

text \<open>
  Data of the katran load balancer: the constants of \<open>balancer_consts.h\<close>, the structs of
  \<open>balancer_structs.h\<close>, the maps of \<open>balancer_maps.h\<close> and \<open>control_data_maps.h\<close> as the fields
  of one state record, and the event pipe of \<open>introspection.h\<close>.
\<close>

section \<open>Constants\<close>

definition BE_ETH_P_IP :: u16 where "BE_ETH_P_IP = 8"
definition BE_ETH_P_IPV6 :: u16 where "BE_ETH_P_IPV6 = 56710"
definition GUEV1_IPV6MASK :: u8 where "GUEV1_IPV6MASK = 0x30"
definition FURTHER_PROCESSING :: int where "FURTHER_PROCESSING = -1"
definition PCKT_FRAGMENTED :: u16 where "PCKT_FRAGMENTED = 65343"
definition RING_SIZE :: u32 where "RING_SIZE = 65537"
definition MAX_VIPS :: u32 where "MAX_VIPS = 512"
definition MAX_REALS :: u32 where "MAX_REALS = 4096"
definition MAX_QUIC_REALS :: u32 where "MAX_QUIC_REALS = 0x00fffffe"
definition CTL_MAP_SIZE :: u32 where "CTL_MAP_SIZE = 16"
definition RECIRCULATION_INDEX :: u32 where "RECIRCULATION_INDEX = 0"
definition CH_RINGS_SIZE :: u32 where "CH_RINGS_SIZE = MAX_VIPS * RING_SIZE"
definition STATS_MAP_SIZE :: u32 where "STATS_MAP_SIZE = MAX_VIPS * 2"
definition ONE_SEC :: u64 where "ONE_SEC = 1000000000"
definition LRU_UDP_TIMEOUT :: u64 where "LRU_UDP_TIMEOUT = 30000000000"

text \<open>Flags of reals, of VIPs and of packet descriptions.\<close>

definition F_IPV6 :: u8 where "F_IPV6 = 1"
definition F_LOCAL_REAL :: u8 where "F_LOCAL_REAL = 2"
definition F_HASH_NO_SRC_PORT :: u32 where "F_HASH_NO_SRC_PORT = 1"
definition F_LRU_BYPASS :: u32 where "F_LRU_BYPASS = 2"
definition F_QUIC_VIP :: u32 where "F_QUIC_VIP = 4"
definition F_HASH_DPORT_ONLY :: u32 where "F_HASH_DPORT_ONLY = 8"
definition F_SRC_ROUTING :: u32 where "F_SRC_ROUTING = 16"
definition F_LOCAL_VIP :: u32 where "F_LOCAL_VIP = 32"
definition F_GLOBAL_LRU :: u32 where "F_GLOBAL_LRU = 64"
definition F_ICMP :: u8 where "F_ICMP = 1"
definition F_SYN_SET :: u8 where "F_SYN_SET = 2"

definition DEFAULT_TTL :: u8 where "DEFAULT_TTL = 64"
definition DEFAULT_TOS :: u8 where "DEFAULT_TOS = 0"
definition QUIC_LONG_HEADER :: u8 where "QUIC_LONG_HEADER = 0x80"
definition QUIC_HANDSHAKE :: u8 where "QUIC_HANDSHAKE = 0x20"
definition QUIC_PACKET_TYPE_MASK :: u8 where "QUIC_PACKET_TYPE_MASK = 0x30"
definition QUIC_MIN_CONNID_LEN :: u8 where "QUIC_MIN_CONNID_LEN = 8"
definition QUIC_CONNID_VERSION_V1 :: u8 where "QUIC_CONNID_VERSION_V1 = 1"
definition QUIC_CONNID_VERSION_V2 :: u8 where "QUIC_CONNID_VERSION_V2 = 2"
definition QUIC_CONNID_VERSION_V1_MAX_VAL :: int where "QUIC_CONNID_VERSION_V1_MAX_VAL = 0xFFFF"
definition TCP_HDR_OPT_KIND_TPR :: u8 where "TCP_HDR_OPT_KIND_TPR = 0xB7"
definition TCP_HDR_OPT_LEN_TPR :: u8 where "TCP_HDR_OPT_LEN_TPR = 6"
definition TCP_HDR_OPT_MAX_OPT_CHECKS :: nat where "TCP_HDR_OPT_MAX_OPT_CHECKS = 15"
definition TCP_OPT_EOL :: u8 where "TCP_OPT_EOL = 0"
definition TCP_OPT_NOP :: u8 where "TCP_OPT_NOP = 1"
definition MAX_PCKT_SIZE :: nat where "MAX_PCKT_SIZE = 1514"
definition ICMP_TOOBIG_SIZE :: nat where "ICMP_TOOBIG_SIZE = 98"
definition ICMP6_TOOBIG_SIZE :: nat where "ICMP6_TOOBIG_SIZE = 262"
definition ICMP6_TOOBIG_PAYLOAD_SIZE :: nat where
  "ICMP6_TOOBIG_PAYLOAD_SIZE = ICMP6_TOOBIG_SIZE - 6"
definition ICMP_TOOBIG_PAYLOAD_SIZE :: nat where
  "ICMP_TOOBIG_PAYLOAD_SIZE = ICMP_TOOBIG_SIZE - 6"

text \<open>Offsets of the global counters behind the per-VIP ones in the \<open>stats\<close> array.\<close>

definition LRU_CNTRS :: u32 where "LRU_CNTRS = 0"
definition LRU_MISS_CNTR :: u32 where "LRU_MISS_CNTR = 1"
definition NEW_CONN_RATE_CNTR :: u32 where "NEW_CONN_RATE_CNTR = 2"
definition FALLBACK_LRU_CNTR :: u32 where "FALLBACK_LRU_CNTR = 3"
definition ICMP_TOOBIG_CNTRS :: u32 where "ICMP_TOOBIG_CNTRS = 4"
definition LPM_SRC_CNTRS :: u32 where "LPM_SRC_CNTRS = 5"
definition REMOTE_ENCAP_CNTRS :: u32 where "REMOTE_ENCAP_CNTRS = 6"
definition QUIC_ROUTE_STATS :: u32 where "QUIC_ROUTE_STATS = 7"
definition QUIC_CID_VERSION_STATS :: u32 where "QUIC_CID_VERSION_STATS = 8"
definition QUIC_CID_DROP_STATS :: u32 where "QUIC_CID_DROP_STATS = 9"
definition TCP_SERVER_ID_ROUTE_STATS :: u32 where "TCP_SERVER_ID_ROUTE_STATS = 10"
definition GLOBAL_LRU_CNTR :: u32 where "GLOBAL_LRU_CNTR = 11"
definition GLOBAL_LRU_MISMATCH_CNTR :: u32 where "GLOBAL_LRU_MISMATCH_CNTR = 12"

definition MAX_CONN_RATE :: u64 where "MAX_CONN_RATE = 125000"
definition IPIP_V4_PREFIX :: u32 where "IPIP_V4_PREFIX = 4268"
definition IPIP_V6_PREFIX1 :: u32 where "IPIP_V6_PREFIX1 = 1"
definition IPIP_V6_PREFIX2 :: u32 where "IPIP_V6_PREFIX2 = 0"
definition IPIP_V6_PREFIX3 :: u32 where "IPIP_V6_PREFIX3 = 0"
definition GUE_DPORT :: u16 where "GUE_DPORT = 6080"
definition GUE_CSUM :: u16 where "GUE_CSUM = 0"
definition INIT_JHASH_SEED :: u32 where "INIT_JHASH_SEED = CH_RINGS_SIZE"
definition INIT_JHASH_SEED_V6 :: u32 where "INIT_JHASH_SEED_V6 = MAX_VIPS"
definition V4_SRC_INDEX :: u32 where "V4_SRC_INDEX = 0"
definition V6_SRC_INDEX :: u32 where "V6_SRC_INDEX = 1"
definition MAX_EVENT_SIZE :: int where "MAX_EVENT_SIZE = 128"
definition TCP_NONSYN_LRUMISS :: u32 where "TCP_NONSYN_LRUMISS = 0"
definition PACKET_TOOBIG :: u32 where "PACKET_TOOBIG = 1"
definition QUIC_PACKET_DROP_NO_REAL :: u32 where "QUIC_PACKET_DROP_NO_REAL = 2"

lemmas flag_defs = F_IPV6_def F_LOCAL_REAL_def F_HASH_NO_SRC_PORT_def F_LRU_BYPASS_def
  F_QUIC_VIP_def F_HASH_DPORT_ONLY_def F_SRC_ROUTING_def F_LOCAL_VIP_def F_GLOBAL_LRU_def
  F_ICMP_def F_SYN_SET_def

lemmas cntr_defs = MAX_VIPS_def LRU_CNTRS_def LRU_MISS_CNTR_def NEW_CONN_RATE_CNTR_def
  FALLBACK_LRU_CNTR_def ICMP_TOOBIG_CNTRS_def LPM_SRC_CNTRS_def REMOTE_ENCAP_CNTRS_def
  QUIC_ROUTE_STATS_def QUIC_CID_VERSION_STATS_def QUIC_CID_DROP_STATS_def
  TCP_SERVER_ID_ROUTE_STATS_def GLOBAL_LRU_CNTR_def GLOBAL_LRU_MISMATCH_CNTR_def

section \<open>Structs\<close>

text \<open>
  A 16-byte address \<open>__be32 x[4]\<close>; the \<open>__be32\<close> that shares a union with it is word 0.
\<close>

record addr4 =
  w0 :: u32
  w1 :: u32
  w2 :: u32
  w3 :: u32

definition addr0 :: addr4 where
  "addr0 = \<lparr>w0 = 0, w1 = 0, w2 = 0, w3 = 0\<rparr>"

record flow_key =
  srcv6 :: addr4
  dstv6 :: addr4
  sport :: u16 \<comment> \<open>\<open>port16[0]\<close>\<close>
  dport :: u16 \<comment> \<open>\<open>port16[1]\<close>\<close>
  proto :: u8

text \<open>The union member \<open>ports\<close> of the same four bytes.\<close>

definition ports :: "flow_key \<Rightarrow> u32" where
  "ports f = (ucast (sport f) :: u32) OR push_bit 16 (ucast (dport f))"

record packet_description =
  flow :: flow_key
  real_index :: u32
  flags :: u8
  tos :: u8

definition pckt0 :: packet_description where
  "pckt0 = \<lparr>flow = \<lparr>srcv6 = addr0, dstv6 = addr0, sport = 0, dport = 0, proto = 0\<rparr>,
     real_index = 0, flags = 0, tos = 0\<rparr>"

text \<open>Eight bytes; \<open>mac\<close> is the first six of them.\<close>

record ctl_value =
  ctl_u64 :: u64

definition ctl_mac :: "ctl_value \<Rightarrow> u8 list" where
  "ctl_mac c = take 6 (le_bytes 8 (ctl_u64 c))"

record vip_definition =
  vip :: addr4
  vip_port :: u16
  vip_proto :: u8

record vip_meta =
  vip_flags :: u32
  vip_num :: u32

record real_pos_lru =
  pos :: u32
  atime :: u64

record real_definition =
  real_dst :: addr4
  real_flags :: u8

record lb_stats =
  v1 :: u64
  v2 :: u64

record v4_lpm_key =
  prefixlen4 :: u32
  lpm_addr4 :: u32

record v6_lpm_key =
  prefixlen6 :: u32
  lpm_addr6 :: addr4

record event_metadata =
  event :: u32
  pkt_size :: u32
  data_len :: u32

section \<open>Build options\<close>

text \<open>The \<open>-D\<close> switches the sources test with \<open>#ifdef\<close>.\<close>

record build =
  LPM_SRC_LOOKUP :: bool
  INLINE_DECAP_IPIP :: bool
  INLINE_DECAP_GUE :: bool
  GUE_ENCAP :: bool
  ICMP_TOOBIG_GENERATION :: bool
  GLOBAL_LRU_LOOKUP :: bool
  TCP_SERVER_ID_ROUTING :: bool
  LOCAL_DELIVERY_OPTIMIZATION :: bool
  KATRAN_INTROSPECTION :: bool

definition default_build :: build where
  "default_build = \<lparr>LPM_SRC_LOOKUP = False, INLINE_DECAP_IPIP = False, INLINE_DECAP_GUE = False,
     GUE_ENCAP = False, ICMP_TOOBIG_GENERATION = False, GLOBAL_LRU_LOOKUP = False,
     TCP_SERVER_ID_ROUTING = False, LOCAL_DELIVERY_OPTIMIZATION = False,
     KATRAN_INTROSPECTION = False\<rparr>"

section \<open>Maps\<close>

type_synonym lru_map = "flow_key \<rightharpoonup> real_pos_lru"

text \<open>
  All maps as one CPU sees them while it handles a packet.  Lookups in the longest-prefix maps
  are the kernel's: \<open>lpm_src_v4 k\<close> is what the lookup with key \<open>k\<close> finds.  \<open>event_pipe\<close> lists
  the events sent to user space, \<open>clk\<close> counts the clock readings.
\<close>

record katran =
  vip_map :: "vip_definition \<rightharpoonup> vip_meta"
  lru_mapping :: "u32 \<rightharpoonup> lru_map"
  fallback_cache :: lru_map
  ch_rings :: "u32 \<rightharpoonup> u32"
  reals :: "u32 \<rightharpoonup> real_definition"
  reals_stats :: "u32 \<rightharpoonup> lb_stats"
  stats :: "u32 \<rightharpoonup> lb_stats"
  server_id_map :: "u32 \<rightharpoonup> u32"
  lpm_src_v4 :: "v4_lpm_key \<rightharpoonup> u32"
  lpm_src_v6 :: "v6_lpm_key \<rightharpoonup> u32"
  global_lru_maps :: "u32 \<rightharpoonup> (flow_key \<rightharpoonup> u32)"
  fallback_glru :: "flow_key \<rightharpoonup> u32"
  ctl_array :: "u32 \<rightharpoonup> ctl_value"
  decap_dst :: "addr4 \<rightharpoonup> u32"
  subprograms :: "u32 \<rightharpoonup> u32"
  pckt_srcs :: "u32 \<rightharpoonup> real_definition"
  event_pipe :: "(event_metadata \<times> u64) list"
  clk :: nat

text \<open>
  The kernel's \<open>bpf_map_update_elem\<close> on an LRU hash map: the new entry is there, and other
  entries may have been evicted to make room for it.
\<close>

record katran_env = bpf_env +
  lru_update :: "lru_map \<Rightarrow> flow_key \<Rightarrow> real_pos_lru \<Rightarrow> lru_map"

definition lru_update_ok :: "(lru_map \<Rightarrow> flow_key \<Rightarrow> real_pos_lru \<Rightarrow> lru_map) \<Rightarrow> bool" where
  "lru_update_ok f \<longleftrightarrow> (\<forall>m k v. f m k v k = Some v \<and>
     (\<forall>k'. k' \<noteq> k \<longrightarrow> f m k v k' = None \<or> f m k v k' = m k'))"

definition katran_kernel :: katran_env where
  "katran_kernel = bpf_env.extend kernel_env \<lparr>lru_update = (\<lambda>m k v. m(k \<mapsto> v))\<rparr>"

lemma katran_kernel_ok: "env_ok katran_kernel" "lru_update_ok (lru_update katran_kernel)"
  using kernel_env_ok
  by (simp_all add: env_ok_def lru_update_ok_def katran_kernel_def kernel_env_def bpf_env.defs)

text \<open>Pointers to LRU maps: \<open>lru_mapping\<close> and \<open>global_lru_maps\<close> are arrays of maps.\<close>

datatype lru_ref = Lru_cpu u32 | Lru_fallback | Glru_cpu u32 | Glru_fallback

text \<open>
  The values of the global maps are four bytes wide and the code reads only \<open>pos\<close>, the first
  four bytes, through the pointer it casts them to.
\<close>

fun lru_lookup :: "katran \<Rightarrow> lru_ref \<Rightarrow> flow_key \<Rightarrow> real_pos_lru option" where
  "lru_lookup s (Lru_cpu c) k = Option.bind (lru_mapping s c) (\<lambda>m. m k)"
| "lru_lookup s Lru_fallback k = fallback_cache s k"
| "lru_lookup s (Glru_cpu c) k =
     map_option (\<lambda>p. \<lparr>pos = p, atime = 0\<rparr>) (Option.bind (global_lru_maps s c) (\<lambda>m. m k))"
| "lru_lookup s Glru_fallback k = map_option (\<lambda>p. \<lparr>pos = p, atime = 0\<rparr>) (fallback_glru s k)"

text \<open>\<open>lru_set upd s r k v\<close> stores through the update function \<open>upd\<close>: the kernel's for
  \<open>bpf_map_update_elem\<close>, a plain overwrite for a write through a value pointer.\<close>

fun lru_set :: "(lru_map \<Rightarrow> flow_key \<Rightarrow> real_pos_lru \<Rightarrow> lru_map) \<Rightarrow> katran \<Rightarrow> lru_ref \<Rightarrow> flow_key
    \<Rightarrow> real_pos_lru \<Rightarrow> katran" where
  "lru_set upd s (Lru_cpu c) k v =
     s\<lparr>lru_mapping := (lru_mapping s)(c := map_option (\<lambda>m. upd m k v) (lru_mapping s c))\<rparr>"
| "lru_set upd s Lru_fallback k v = s\<lparr>fallback_cache := upd (fallback_cache s) k v\<rparr>"
| "lru_set upd s (Glru_cpu c) k v = s\<lparr>global_lru_maps := (global_lru_maps s)
     (c := map_option (\<lambda>m. m(k \<mapsto> pos v)) (global_lru_maps s c))\<rparr>"
| "lru_set upd s Glru_fallback k v = s\<lparr>fallback_glru := (fallback_glru s)(k \<mapsto> pos v)\<rparr>"

abbreviation lru_put :: "katran_env \<Rightarrow> katran \<Rightarrow> lru_ref \<Rightarrow> flow_key \<Rightarrow> real_pos_lru \<Rightarrow> katran" where
  "lru_put env \<equiv> lru_set (lru_update env)"

abbreviation lru_poke :: "katran \<Rightarrow> lru_ref \<Rightarrow> flow_key \<Rightarrow> real_pos_lru \<Rightarrow> katran" where
  "lru_poke \<equiv> lru_set (\<lambda>m k v. m(k \<mapsto> v))"

text \<open>Whether a pointer to a per-CPU or fallback LRU map of flows is one the code can hold.\<close>

fun lru_valid :: "katran \<Rightarrow> lru_ref \<Rightarrow> bool" where
  "lru_valid s (Lru_cpu c) \<longleftrightarrow> lru_mapping s c \<noteq> None"
| "lru_valid s Lru_fallback \<longleftrightarrow> True"
| "lru_valid s _ \<longleftrightarrow> False"

text \<open>Counters: \<open>p->v1 += n\<close> and \<open>p->v2 += n\<close> for a pointer into the \<open>stats\<close> array.\<close>

definition add_v1 :: "u32 \<Rightarrow> u64 \<Rightarrow> katran \<Rightarrow> katran" where
  "add_v1 k n s = s\<lparr>stats := (stats s)(k := map_option (\<lambda>x. x\<lparr>v1 := v1 x + n\<rparr>) (stats s k))\<rparr>"

definition add_v2 :: "u32 \<Rightarrow> u64 \<Rightarrow> katran \<Rightarrow> katran" where
  "add_v2 k n s = s\<lparr>stats := (stats s)(k := map_option (\<lambda>x. x\<lparr>v2 := v2 x + n\<rparr>) (stats s k))\<rparr>"

definition add_real_stats :: "u32 \<Rightarrow> u64 \<Rightarrow> u64 \<Rightarrow> katran \<Rightarrow> katran" where
  "add_real_stats k n m s = s\<lparr>reals_stats := (reals_stats s)
     (k := map_option (\<lambda>x. x\<lparr>v1 := v1 x + n, v2 := v2 x + m\<rparr>) (reals_stats s k))\<rparr>"

text \<open>A map of type array: every index below its size is present, no other.\<close>

definition array_map :: "u32 \<Rightarrow> (u32 \<rightharpoonup> 'v) \<Rightarrow> bool" where
  "array_map n m \<longleftrightarrow> (\<forall>k. m k \<noteq> None \<longleftrightarrow> k < n)"

text \<open>The state the loader creates: the arrays of the sources with their sizes.\<close>

definition maps_ok :: "katran \<Rightarrow> bool" where
  "maps_ok s \<longleftrightarrow> array_map STATS_MAP_SIZE (stats s) \<and> array_map MAX_REALS (reals_stats s) \<and>
     array_map MAX_REALS (reals s) \<and> array_map CH_RINGS_SIZE (ch_rings s) \<and>
     array_map MAX_QUIC_REALS (server_id_map s) \<and> array_map CTL_MAP_SIZE (ctl_array s)"

section \<open>A loaded balancer\<close>

text \<open>
  The maps after the loader has created them, the ring of every VIP filled with real 1, every real
  the server 10.0.0.1 (its bytes as the word they are read as) and a connection table for CPU 0.
\<close>

definition real1 :: real_definition where
  "real1 = \<lparr>real_dst = addr0\<lparr>w0 := 0x0100000A\<rparr>, real_flags = 0\<rparr>"

definition array_of :: "u32 \<Rightarrow> 'v \<Rightarrow> (u32 \<rightharpoonup> 'v)" where
  "array_of n v = (\<lambda>k. if k < n then Some v else None)"

definition loaded_maps :: katran where
  "loaded_maps = \<lparr>vip_map = (\<lambda>_. Some \<lparr>vip_flags = 0, vip_num = 3\<rparr>),
     lru_mapping = [0 \<mapsto> Map.empty], fallback_cache = Map.empty,
     ch_rings = array_of CH_RINGS_SIZE 1, reals = array_of MAX_REALS real1,
     reals_stats = array_of MAX_REALS \<lparr>v1 = 0, v2 = 0\<rparr>,
     stats = array_of STATS_MAP_SIZE \<lparr>v1 = 0, v2 = 0\<rparr>,
     server_id_map = array_of MAX_QUIC_REALS 1,
     lpm_src_v4 = Map.empty, lpm_src_v6 = Map.empty, global_lru_maps = Map.empty,
     fallback_glru = Map.empty, ctl_array = array_of CTL_MAP_SIZE \<lparr>ctl_u64 = 0\<rparr>,
     decap_dst = Map.empty, subprograms = Map.empty, pckt_srcs = Map.empty,
     event_pipe = [], clk = 0\<rparr>"

lemma array_map_array_of [simp]: "array_map n (array_of n v)"
  by (simp add: array_map_def array_of_def)

lemma loaded_maps_ok: "maps_ok loaded_maps"
  by (simp add: maps_ok_def loaded_maps_def)

section \<open>Laws of the connection tables\<close>

text \<open>
  The interface of a connection table: what a lookup finds after a store.  An eviction may lose
  an entry but never changes where it points.
\<close>

locale flow_table =
  fixes look :: "'s \<Rightarrow> 'k \<Rightarrow> 'v option"
    and put :: "'s \<Rightarrow> 'k \<Rightarrow> 'v \<Rightarrow> 's"
    and ok :: "'s \<Rightarrow> bool"
  assumes look_put_same: "ok s \<Longrightarrow> look (put s k v) k = Some v"
    and look_put_other: "ok s \<Longrightarrow> k' \<noteq> k \<Longrightarrow>
      look (put s k v) k' = None \<or> look (put s k v) k' = look s k'"
    and put_ok: "ok s \<Longrightarrow> ok (put s k v)"
begin

text \<open>After any sequence of stores an entry is missing, untouched, or one of those stored.\<close>

fun puts :: "'s \<Rightarrow> ('k \<times> 'v) list \<Rightarrow> 's" where
  "puts s [] = s"
| "puts s (kv # kvs) = puts (put s (fst kv) (snd kv)) kvs"

lemma puts_origin:
  assumes "ok s" and "look (puts s kvs) k = Some v"
  shows "look s k = Some v \<or> (k, v) \<in> set kvs"
  using assms
proof (induction kvs arbitrary: s)
  case (Cons kv kvs)
  let ?s = "put s (fst kv) (snd kv)"
  from Cons.prems have "look ?s k = Some v \<or> (k, v) \<in> set kvs"
    using Cons.IH [of ?s] by (simp add: put_ok)
  moreover have "look ?s k = Some v \<Longrightarrow> look s k = Some v \<or> (k, v) = kv"
    using Cons.prems(1) look_put_same [of s "fst kv" "snd kv"]
      look_put_other [of s k "fst kv" "snd kv"]
    by (cases "k = fst kv") auto
  ultimately show ?case by auto
qed simp

end

lemma lru_set_mapping_dom [simp]:
  "lru_mapping (lru_set f s r k v) c = None \<longleftrightarrow> lru_mapping s c = None"
  by (cases r) simp_all

lemma lru_valid_set [simp]: "lru_valid (lru_set f s r k v) r' = lru_valid s r'"
  by (cases r') simp_all

lemma lru_lookup_set_same:
  assumes "lru_update_ok f" and "lru_valid s r"
  shows "lru_lookup (lru_set f s r k v) r k = Some v"
  using assms by (cases r) (auto simp: lru_update_ok_def)

lemma lru_lookup_set_other:
  assumes "lru_update_ok f" and "lru_valid s r" and "k' \<noteq> k"
  shows "lru_lookup (lru_set f s r k v) r k' = None \<or>
     lru_lookup (lru_set f s r k v) r k' = lru_lookup s r k'"
proof -
  have u: "f m k v k' = None \<or> f m k v k' = m k'" for m
    using assms(1,3) by (simp add: lru_update_ok_def)
  show ?thesis
  proof (cases r)
    case (Lru_cpu c)
    with assms(2) obtain m where "lru_mapping s c = Some m" by auto
    with Lru_cpu show ?thesis using u [of m] by simp
  next
    case Lru_fallback
    then show ?thesis using u [of "fallback_cache s"] by simp
  qed (use assms(2) in simp_all)
qed

text \<open>The connection tables of the balancer, with the kernel and the pointer in the state.\<close>

interpretation lru: flow_table
  "\<lambda>(env, r, s). lru_lookup s r" "\<lambda>(env, r, s) k v. (env, r, lru_put env s r k v)"
  "\<lambda>(env, r, s). lru_update_ok (lru_update env) \<and> lru_valid s r"
  by unfold_locales (auto simp: lru_lookup_set_same, metis lru_lookup_set_other)

end
