(* ===== verification/Katran_Csum.thy ===== *)
theory Katran_Csum
  imports Katran_State
begin

text \<open>
  The checksum routines of \<open>csum_helpers.h\<close>, over the packet and offsets into it, and the
  one's complement arithmetic that makes them correct.
\<close>

section \<open>Definitions\<close>

definition fold_step :: "u64 \<Rightarrow> u64" where
  "fold_step csum =
     (if drop_bit 16 csum \<noteq> 0 then (csum AND 0xffff) + drop_bit 16 csum else csum)"

definition csum_fold_helper :: "u64 \<Rightarrow> u16" where
  "csum_fold_helper csum = ucast (NOT ((fold_step ^^ 4) csum))"

definition min_helper :: "int \<Rightarrow> int \<Rightarrow> int" where
  "min_helper a b = (if a < b then a else b)"

text \<open>A call of \<open>bpf_csum_diff\<close> with a 64-bit seed that the prototype narrows to 32 bits.\<close>

definition diff_into :: "'e bpf_env_scheme \<Rightarrow> u8 list \<Rightarrow> u8 list \<Rightarrow> u64 \<Rightarrow> u64" where
  "diff_into env from_buf to_buf csum = of_int (bpf_csum_diff env from_buf to_buf (ucast csum))"

definition ipv4_csum :: "'e bpf_env_scheme \<Rightarrow> packet \<Rightarrow> nat \<Rightarrow> nat \<Rightarrow> u64 \<Rightarrow> u64 option" where
  "ipv4_csum env p data_start data_size csum = do {
     b \<leftarrow> rd p data_start data_size;
     Some (ucast (csum_fold_helper (diff_into env [] b csum)))
   }"

text \<open>The ten 16-bit words of an IPv4 header without options.\<close>

fun sum_words :: "packet \<Rightarrow> nat \<Rightarrow> nat \<Rightarrow> u64 \<Rightarrow> u64 option" where
  "sum_words p i 0 csum = Some csum"
| "sum_words p i (Suc n) csum = do {
     w \<leftarrow> ld16 p i;
     sum_words p (i + 2) n (csum + ucast w)
   }"

definition ipv4_csum_inline :: "packet \<Rightarrow> nat \<Rightarrow> u64 \<Rightarrow> u64 option" where
  "ipv4_csum_inline p iph csum = do {
     c \<leftarrow> sum_words p iph 10 csum;
     Some (ucast (csum_fold_helper c))
   }"

definition ipv4_l4_csum :: "'e bpf_env_scheme \<Rightarrow> packet \<Rightarrow> nat \<Rightarrow> nat \<Rightarrow> u64 \<Rightarrow> nat \<Rightarrow> u64 option" where
  "ipv4_l4_csum env p data_start data_size csum iph = do {
     saddr \<leftarrow> rd p (iph + 12) 4;
     let csum = diff_into env [] saddr csum;
     daddr \<leftarrow> rd p (iph + 16) 4;
     let csum = diff_into env [] daddr csum;
     protocol \<leftarrow> ld8 p (iph + 9);
     let csum = diff_into env [] (le_bytes 4 (bswap32 (ucast protocol))) csum;
     let csum = diff_into env [] (le_bytes 4 (bswap32 (of_nat data_size))) csum;
     b \<leftarrow> rd p data_start data_size;
     let csum = diff_into env [] b csum;
     Some (ucast (csum_fold_helper csum))
   }"

definition ipv6_csum :: "'e bpf_env_scheme \<Rightarrow> packet \<Rightarrow> nat \<Rightarrow> nat \<Rightarrow> u64 \<Rightarrow> nat \<Rightarrow> u64 option" where
  "ipv6_csum env p data_start data_size csum ip6h = do {
     saddr \<leftarrow> rd p (ip6h + 8) 16;
     let csum = diff_into env [] saddr csum;
     daddr \<leftarrow> rd p (ip6h + 24) 16;
     let csum = diff_into env [] daddr csum;
     let csum = diff_into env [] (le_bytes 4 (bswap32 (of_nat data_size))) csum;
     nexthdr \<leftarrow> ld8 p (ip6h + 6);
     let csum = diff_into env [] (le_bytes 4 (bswap32 (ucast nexthdr))) csum;
     b \<leftarrow> rd p data_start data_size;
     let csum = diff_into env [] b csum;
     Some (ucast (csum_fold_helper csum))
   }"

subsection \<open>Pseudo headers (\<open>GUE_ENCAP\<close>)\<close>

text \<open>
  A checksum step that stops at an error code: \<open>Inl\<close> is the negative return value, \<open>Inr\<close> the
  new checksum.  \<open>chain\<close> goes on unless an earlier step has returned its error.
\<close>

definition csum_step :: "'e bpf_env_scheme \<Rightarrow> u8 list \<Rightarrow> u8 list \<Rightarrow> u64 \<Rightarrow> int + u64" where
  "csum_step env from_buf to_buf csum =
     (let ret = bpf_csum_diff env from_buf to_buf (ucast csum)
      in if ret < 0 then Inl ret else Inr (of_int ret))"

definition chain :: "int + u64 \<Rightarrow> (u64 \<Rightarrow> (int + u64) option) \<Rightarrow> (int + u64) option" where
  "chain r f = (case r of Inl e \<Rightarrow> Some (Inl e) | Inr c \<Rightarrow> f c)"

definition add_range :: "'e bpf_env_scheme \<Rightarrow> packet \<Rightarrow> nat \<Rightarrow> nat \<Rightarrow> u64 \<Rightarrow> (int + u64) option" where
  "add_range env p i n csum = do { b \<leftarrow> rd p i n; Some (csum_step env [] b csum) }"

definition rem_range :: "'e bpf_env_scheme \<Rightarrow> packet \<Rightarrow> nat \<Rightarrow> nat \<Rightarrow> u64 \<Rightarrow> (int + u64) option" where
  "rem_range env p i n csum = do { b \<leftarrow> rd p i n; Some (csum_step env b [] csum) }"

definition add_pseudo_ipv6_header :: "'e bpf_env_scheme \<Rightarrow> packet \<Rightarrow> nat \<Rightarrow> u64 \<Rightarrow> (int + u64) option" where
  "add_pseudo_ipv6_header env p ip6h csum = do {
     r \<leftarrow> add_range env p (ip6h + 8) 16 csum;
     r \<leftarrow> chain r (add_range env p (ip6h + 24) 16);
     r \<leftarrow> chain r (\<lambda>c. do {
            payload_len \<leftarrow> ld16 p (ip6h + 4);
            Some (csum_step env [] (le_bytes 4 (bswap32 (ucast (bswap16 payload_len)))) c) });
     chain r (\<lambda>c. do {
            nexthdr \<leftarrow> ld8 p (ip6h + 6);
            Some (csum_step env [] (le_bytes 4 (bswap32 (ucast nexthdr))) c) })
   }"

definition rem_pseudo_ipv6_header :: "'e bpf_env_scheme \<Rightarrow> packet \<Rightarrow> nat \<Rightarrow> u64 \<Rightarrow> (int + u64) option" where
  "rem_pseudo_ipv6_header env p ip6h csum = do {
     r \<leftarrow> rem_range env p (ip6h + 8) 16 csum;
     r \<leftarrow> chain r (rem_range env p (ip6h + 24) 16);
     r \<leftarrow> chain r (\<lambda>c. do {
            payload_len \<leftarrow> ld16 p (ip6h + 4);
            Some (csum_step env (le_bytes 4 (bswap32 (ucast (bswap16 payload_len)))) [] c) });
     chain r (\<lambda>c. do {
            nexthdr \<leftarrow> ld8 p (ip6h + 6);
            Some (csum_step env (le_bytes 4 (bswap32 (ucast nexthdr))) [] c) })
   }"

definition add_pseudo_ipv4_header :: "'e bpf_env_scheme \<Rightarrow> packet \<Rightarrow> nat \<Rightarrow> u64 \<Rightarrow> (int + u64) option" where
  "add_pseudo_ipv4_header env p iph csum = do {
     r \<leftarrow> add_range env p (iph + 12) 4 csum;
     r \<leftarrow> chain r (add_range env p (iph + 16) 4);
     r \<leftarrow> chain r (\<lambda>c. do {
            tot_len \<leftarrow> ld16 p (iph + 2);
            Some (csum_step env [] (le_bytes 4 (bswap32 (ucast (bswap16 tot_len) - 20))) c) });
     chain r (\<lambda>c. do {
            protocol \<leftarrow> ld8 p (iph + 9);
            Some (csum_step env [] (le_bytes 4 (bswap32 (ucast protocol))) c) })
   }"

definition rem_pseudo_ipv4_header :: "'e bpf_env_scheme \<Rightarrow> packet \<Rightarrow> nat \<Rightarrow> u64 \<Rightarrow> (int + u64) option" where
  "rem_pseudo_ipv4_header env p iph csum = do {
     r \<leftarrow> rem_range env p (iph + 12) 4 csum;
     r \<leftarrow> chain r (rem_range env p (iph + 16) 4);
     r \<leftarrow> chain r (\<lambda>c. do {
            tot_len \<leftarrow> ld16 p (iph + 2);
            Some (csum_step env (le_bytes 4 (bswap32 (ucast (bswap16 tot_len) - 20))) [] c) });
     chain r (\<lambda>c. do {
            protocol \<leftarrow> ld8 p (iph + 9);
            Some (csum_step env (le_bytes 4 (bswap32 (ucast protocol))) [] c) })
   }"

text \<open>
  The checksum of the outer UDP header from the one in the inner transport header; the inner
  \<open>None\<close> is the routines' \<open>false\<close>.
\<close>

definition gue_csum_seed :: "'e bpf_env_scheme \<Rightarrow> u64 \<Rightarrow> int + u64" where
  "gue_csum_seed env csum_in_hdr = (
     let seed = (NOT csum_in_hdr) AND 0xffff; orig_csum = (ucast csum_in_hdr :: u32)
     in csum_step env [] (le_bytes 4 orig_csum) seed)"

definition fold_result :: "int + u64 \<Rightarrow> u64 option" where
  "fold_result r = (case r of Inl _ \<Rightarrow> None | Inr c \<Rightarrow> Some (ucast (csum_fold_helper c)))"

definition gue_csum_v6 ::
  "'e bpf_env_scheme \<Rightarrow> packet \<Rightarrow> nat \<Rightarrow> nat \<Rightarrow> nat \<Rightarrow> u64 \<Rightarrow> u64 option option" where
  "gue_csum_v6 env p outer_ip6h udph inner_ip6h csum_in_hdr = do {
     r \<leftarrow> chain (gue_csum_seed env csum_in_hdr) (rem_pseudo_ipv6_header env p inner_ip6h);
     r \<leftarrow> chain r (add_range env p inner_ip6h 40);
     r \<leftarrow> chain r (add_range env p udph 8);
     r \<leftarrow> chain r (add_pseudo_ipv6_header env p outer_ip6h);
     Some (fold_result r)
   }"

definition gue_csum_v4 ::
  "'e bpf_env_scheme \<Rightarrow> packet \<Rightarrow> nat \<Rightarrow> nat \<Rightarrow> nat \<Rightarrow> u64 \<Rightarrow> u64 option option" where
  "gue_csum_v4 env p outer_iph udph inner_iph csum_in_hdr = do {
     r \<leftarrow> chain (gue_csum_seed env csum_in_hdr) (rem_pseudo_ipv4_header env p inner_iph);
     r \<leftarrow> chain r (add_range env p inner_iph 20);
     r \<leftarrow> chain r (add_range env p udph 8);
     r \<leftarrow> chain r (add_pseudo_ipv4_header env p outer_iph);
     Some (fold_result r)
   }"

definition gue_csum_v4_in_v6 ::
  "'e bpf_env_scheme \<Rightarrow> packet \<Rightarrow> nat \<Rightarrow> nat \<Rightarrow> nat \<Rightarrow> u64 \<Rightarrow> u64 option option" where
  "gue_csum_v4_in_v6 env p outer_ip6h udph inner_iph csum_in_hdr = do {
     r \<leftarrow> chain (gue_csum_seed env csum_in_hdr) (rem_pseudo_ipv4_header env p inner_iph);
     r \<leftarrow> chain r (add_range env p inner_iph 20);
     r \<leftarrow> chain r (add_range env p udph 8);
     r \<leftarrow> chain r (add_pseudo_ipv6_header env p outer_ip6h);
     Some (fold_result r)
   }"

section \<open>Folding\<close>

text \<open>The value of a sum in one's complement: its residue modulo 65535, in 1..65535.\<close>

definition fold16 :: "nat \<Rightarrow> nat" where
  "fold16 n = (if n = 0 then 0 else (n - 1) mod 65535 + 1)"

lemma fold16_mod: "fold16 n mod 65535 = n mod 65535"
proof (cases n)
  case (Suc m)
  then show ?thesis by (simp add: fold16_def mod_Suc_eq)
qed (simp add: fold16_def)

lemma fold16_le: "fold16 n \<le> 65535"
  using mod_less_divisor [of 65535 "n - 1"] by (auto simp: fold16_def Suc_le_eq simp del: mod_less_divisor)

lemma fold16_zero [simp]: "fold16 n = 0 \<longleftrightarrow> n = 0"
  by (simp add: fold16_def)

lemma fold16_unique:
  assumes "m \<le> 65535" and "m mod 65535 = n mod 65535" and "m = 0 \<longleftrightarrow> n = 0"
  shows "fold16 n = m"
proof -
  have "fold16 n mod 65535 = m mod 65535" using assms by (simp add: fold16_mod)
  moreover have "fold16 n = 0 \<longleftrightarrow> m = 0" using assms by simp
  ultimately show ?thesis using fold16_le [of n] assms(1)
    by (cases "fold16 n = 65535"; cases "m = 65535") auto
qed

definition fold_nat :: "nat \<Rightarrow> nat" where
  "fold_nat n = (if n div 65536 \<noteq> 0 then n mod 65536 + n div 65536 else n)"

lemma fold_nat_mod: "fold_nat n mod 65535 = n mod 65535"
proof -
  have "n = n mod 65536 + n div 65536 + 65535 * (n div 65536)"
    using div_mult_mod_eq [of n 65536] by linarith
  then have "n mod 65535 = (n mod 65536 + n div 65536 + 65535 * (n div 65536)) mod 65535"
    by (rule arg_cong)
  also have "\<dots> = (n mod 65536 + n div 65536) mod 65535" by (rule mod_mult_self2)
  finally show ?thesis
    unfolding fold_nat_def by (cases "n div 65536 \<noteq> 0") (simp_all only: if_True if_False simp_thms)
qed

lemma fold_nat_zero: "fold_nat n = 0 \<longleftrightarrow> n = 0"
  using div_mult_mod_eq [of n 65536] by (auto simp only: fold_nat_def split: if_splits)

text \<open>A fold of a value that is not yet 16 bits wide divides its excess by 65536, about.\<close>

lemma fold_nat_le:
  assumes "n \<le> 65536 * m + 65534" and "0 < m"
  shows "fold_nat n \<le> m + 65534"
proof -
  have q: "65536 * (n div 65536) + n mod 65536 = n" by simp
  have r: "n mod 65536 \<le> 65535" using mod_less_divisor [of 65536 n] by linarith
  show ?thesis
  proof (cases "n div 65536 < m")
    case True
    then show ?thesis using q r unfolding fold_nat_def by (simp only: split: if_split) linarith
  next
    case False
    then have "n div 65536 = m" "n mod 65536 \<le> 65534" using q assms(1) by linarith+
    then show ?thesis using assms(2) unfolding fold_nat_def by (simp only: split: if_split) linarith
  qed
qed

text \<open>Four folds are enough for any 64-bit sum.\<close>

lemma fold4_le:
  assumes "n < 2 ^ 64"
  shows "(fold_nat ^^ 4) n \<le> 65535"
proof -
  have "fold_nat n \<le> 281474976710656 + 65534"
    using assms by (intro fold_nat_le) simp_all
  then have "fold_nat (fold_nat n) \<le> 4294967296 + 65534"
    by (intro fold_nat_le [of "fold_nat n"]) simp_all
  then have "fold_nat (fold_nat (fold_nat n)) \<le> 65536 + 65534"
    by (intro fold_nat_le [of "fold_nat (fold_nat n)"]) simp_all
  then have "fold_nat (fold_nat (fold_nat (fold_nat n))) \<le> 1 + 65534"
    by (intro fold_nat_le [of "fold_nat (fold_nat (fold_nat n))"]) simp_all
  then show ?thesis by (simp add: funpow4)
qed

lemma fold_pow:
  "(fold_nat ^^ k) n mod 65535 = n mod 65535" "(fold_nat ^^ k) n = 0 \<longleftrightarrow> n = 0"
  by (induction k) (simp_all add: fold_nat_mod fold_nat_zero)

lemma fold4_eq: "n < 2 ^ 64 \<Longrightarrow> (fold_nat ^^ 4) n = fold16 n"
  by (rule fold16_unique [symmetric, OF fold4_le fold_pow])

lemma unat_fold_step: "unat (fold_step c) = fold_nat (unat c)"
proof -
  have d: "unat (drop_bit 16 c) = unat c div 65536" by (simp add: unat_drop)
  have "unat c < 2 ^ 64" by (rule unat_u64_less)
  then have "unat c mod 65536 + unat c div 65536 < 2 ^ 64"
    using mod_less_divisor [of 65536 "unat c"] by (simp add: div_less_iff_less_mult)
  then have "unat ((c AND 0xffff) + drop_bit 16 c) = unat c mod 65536 + unat c div 65536"
    by (simp only: unat_word_ariths unat_and_ffff d) simp
  moreover have "drop_bit 16 c = 0 \<longleftrightarrow> unat c div 65536 = 0"
    by (simp only: d [symmetric] unat_eq_0)
  ultimately show ?thesis by (simp only: fold_step_def fold_nat_def split: if_split) blast
qed

lemma unat_fold_steps: "unat ((fold_step ^^ n) c) = (fold_nat ^^ n) (unat c)"
  by (induction n) (simp_all add: unat_fold_step)

lemma compl64_mod:
  assumes "m \<le> 65535"
  shows "(2 ^ 64 - 1 - m) mod 65536 = 65535 - (m :: nat)"
proof -
  have "2 ^ 64 - 1 - m = (65535 - m) + (2 ^ 48 - 1) * 65536" using assms by simp
  then show ?thesis by (simp only: mod_mult_self1) simp
qed

lemma unat_csum_fold_helper: "unat (csum_fold_helper c) = 65535 - fold16 (unat c)"
proof -
  have f: "unat ((fold_step ^^ 4) c) = fold16 (unat c)"
    by (simp only: unat_fold_steps fold4_eq [OF unat_u64_less])
  show ?thesis
    using compl64_mod [OF fold16_le [of "unat c"]]
    by (simp add: csum_fold_helper_def unat_ucast_mod unat_not f)
qed

section \<open>Sums over headers\<close>

text \<open>A receiver accepts a header when its folded sum is all ones.\<close>

definition ip_csum_ok :: "u8 list \<Rightarrow> bool" where
  "ip_csum_ok h \<longleftrightarrow> fold16 (sum16 h) = 65535"

lemma ip_csum_ok_iff: "ip_csum_ok h \<longleftrightarrow> sum16 h \<noteq> 0 \<and> sum16 h mod 65535 = 0"
proof -
  have "fold16 n = 65535 \<longleftrightarrow> n \<noteq> 0 \<and> n mod 65535 = 0" for n
    using fold16_mod [of n] fold16_unique [of 65535 n] by (cases "n = 0") (auto simp: fold16_def)
  then show ?thesis by (simp add: ip_csum_ok_def)
qed

lemma sum16_append: "even (length xs) \<Longrightarrow> sum16 (xs @ ys) = sum16 xs + sum16 ys"
  by (induction xs rule: sum16.induct) auto

lemma unat_le_word16: "unat (le_word [a, b] :: u16) = unat a + 256 * unat (b :: u8)"
proof -
  have "unat a + 256 * unat b < 65536" using unat_u8_less [of a] unat_u8_less [of b] by linarith
  then show ?thesis by (simp only: le_word_def le_val.simps unat_of_nat) simp
qed

lemma sum16_le_val: "length bs = 2 \<Longrightarrow> sum16 bs = le_val bs"
  by (auto simp: numeral_2_eq_2 length_Suc_conv)

lemma sum16_le_enc: "sum16 (le_enc (Suc (Suc n)) v) = v mod 65536 + sum16 (le_enc n (v div 65536))"
proof -
  have "v mod 65536 = v mod 256 + 256 * (v div 256 mod 256)"
    using mod_mult2_eq [of v 256 256] by simp
  moreover have "unat (of_nat (v div 256 mod 256) :: u8) = v div 256 mod 256"
    by (rule unat_of_nat_mod256)
  ultimately show ?thesis by (simp only: le_enc.simps sum16.simps unat_of_nat_mod256) (simp add: div_mult2_eq [symmetric])
qed

lemma sum16_le_bytes4:
  assumes "unat (w :: u32) < 65536"
  shows "sum16 (le_bytes 4 w) = unat w"
proof -
  have "le_bytes 4 w = le_enc (Suc (Suc (Suc (Suc 0)))) (unat w)"
    by (simp only: le_bytes_def numeral_eq_Suc pred_numeral_simps BitM.simps)
  then show ?thesis using assms by (simp only: sum16_le_enc) simp
qed

lemma sum16_le_bytes2: "sum16 (le_bytes 2 (w :: u16)) = unat w"
proof -
  have "unat w mod 65536 = unat w" using unat_u16_less [of w] by simp
  then show ?thesis
    by (simp add: sum16_le_val) (simp add: le_bytes_def le_val_enc power2_eq_square)
qed

lemma sum16_bytes2:
  assumes "i + 2 \<le> length p"
  shows "sum16 (bytes_at p i 2) = unat (u16_at p i)"
proof -
  have "le_bytes 2 (u16_at p i) = bytes_at p i 2" using assms by (intro le_bytes_word) simp_all
  then show ?thesis by (metis sum16_le_bytes2)
qed

text \<open>Replacing an aligned part of a buffer changes the sum by the difference.\<close>

lemma sum16_patch:
  assumes "i + length bs \<le> length h" and "even i" and "even (length bs)"
  shows "sum16 (patch h i bs) + sum16 (bytes_at h i (length bs)) = sum16 h + sum16 bs"
proof -
  have h: "h = take i h @ bytes_at h i (length bs) @ drop (i + length bs) h"
    by (metis append_take_drop_id drop_drop add.commute)
  have e: "even (length (take i h))" "even (length (bytes_at h i (length bs)))"
    using assms by simp_all
  have "sum16 h = sum16 (take i h) + sum16 (bytes_at h i (length bs)) + sum16 (drop (i + length bs) h)"
    by (metis h e sum16_append add.assoc)
  moreover have "sum16 (patch h i bs) = sum16 (take i h) + sum16 bs + sum16 (drop (i + length bs) h)"
    unfolding patch_def using e(1) assms(3) by (metis sum16_append add.assoc)
  ultimately show ?thesis by simp
qed

lemma wp_sum_words [wp_simps]:
  "wp (sum_words p i n c) Q =
     ((n = 0 \<or> i + 2 * n \<le> length p) \<and> Q (c + of_nat (sum16 (bytes_at p i (2 * n)))))"
proof (induction n arbitrary: i c)
  case (Suc n)
  have "bytes_at p i (2 * Suc n) = bytes_at p i 2 @ bytes_at p (i + 2) (2 * n)"
    using bytes_at_split [where p = p and i = i and m = 2 and n = "2 * n"] by simp
  then have "i + 2 \<le> length p \<Longrightarrow>
      sum16 (bytes_at p i (2 * Suc n)) = unat (u16_at p i) + sum16 (bytes_at p (i + 2) (2 * n))"
    by (simp add: sum16_append sum16_bytes2)
  then show ?case using Suc.IH by (auto simp: wp_simps add.assoc)
qed (simp add: wp_simps)

lemma sum16_bound: "sum16 bs \<le> 65535 * length bs"
proof (induction bs rule: sum16.induct)
  case (2 a)
  then show ?case using unat_u8_less [of a] by (simp, linarith)
next
  case (3 a b bs)
  then show ?case using unat_u8_less [of a] unat_u8_less [of b] by (simp, linarith)
qed simp

text \<open>The complement of the folded sum of a header, put in its (zero) checksum field, makes
  the header valid.\<close>

definition inline_csum :: "packet \<Rightarrow> nat \<Rightarrow> u16" where
  "inline_csum p iph = csum_fold_helper (of_nat (sum16 (bytes_at p iph 20)))"

lemma wp_ipv4_csum_inline [wp_simps]:
  "wp (ipv4_csum_inline p iph 0) Q = (iph + 20 \<le> length p \<and> Q (ucast (inline_csum p iph)))"
  by (simp add: ipv4_csum_inline_def wp_simps inline_csum_def)

lemma unat_inline_csum: "unat (inline_csum p iph) = 65535 - fold16 (sum16 (bytes_at p iph 20))"
proof -
  have "sum16 (bytes_at p iph 20) < 2 ^ 64"
    using sum16_bound [of "bytes_at p iph 20"] by (auto intro: le_less_trans)
  then show ?thesis by (simp add: inline_csum_def unat_csum_fold_helper unat_of_nat)
qed

lemma csum_completes:
  assumes "c = 65535 - fold16 n" and "0 < n"
  shows "fold16 (n + c) = 65535"
proof (rule fold16_unique)
  have "(n + c) mod 65535 = (n mod 65535 + c) mod 65535" by (simp add: mod_add_left_eq)
  also have "\<dots> = (fold16 n + c) mod 65535"
    by (metis fold16_mod mod_add_left_eq)
  also have "\<dots> = 0" using assms(1) fold16_le [of n] by simp
  finally show "65535 mod 65535 = (n + c) mod 65535" by simp
qed (use assms in simp_all)

section \<open>The outer checksum of an encapsulated datagram\<close>

text \<open>A 64-bit accumulator that holds the one's complement value of \<open>x\<close> in 32 bits.\<close>

definition csum_is :: "u64 \<Rightarrow> int \<Rightarrow> bool" where
  "csum_is c x \<longleftrightarrow> uint c < 2 ^ 32 \<and> uint c mod 65535 = x mod 65535"

lemma uint_ucast_small: "uint (c :: u64) < 2 ^ 32 \<Longrightarrow> uint (ucast c :: u32) = uint c"
  by (simp add: unsigned_ucast_eq take_bit_eq_mod)

lemma csum_step_is:
  assumes ok: "csum_diff_ok (bpf_csum_diff env)" and c: "csum_is c x"
    and st: "csum_step env a b c = Inr c'"
  shows "csum_is c' (x + int (sum16 b) - int (sum16 a))"
proof -
  let ?r = "bpf_csum_diff env a b (ucast c)"
  have r: "0 \<le> ?r" "c' = of_int ?r" using st by (simp_all add: csum_step_def Let_def split: if_splits)
  with ok have b32: "?r < 2 ^ 32"
    and m: "?r mod 65535 = (uint (ucast c :: u32) + int (sum16 b) - int (sum16 a)) mod 65535"
    by (simp_all add: csum_diff_ok_def)
  have "uint c' = ?r mod 2 ^ 64" using r(2) by (simp add: uint_word_of_int)
  also have "\<dots> = ?r" using r(1) b32 by simp
  finally have "uint c' = ?r" .
  moreover have "(uint c + int (sum16 b) - int (sum16 a)) mod 65535
      = (x + int (sum16 b) - int (sum16 a)) mod 65535"
    by (intro mod_diff_cong mod_add_cong refl) (use c in \<open>simp only: csum_is_def\<close>)
  moreover have "uint (ucast c :: u32) = uint c"
    using c by (intro uint_ucast_small) (simp only: csum_is_def)
  ultimately show ?thesis unfolding csum_is_def using b32 m by (simp only: simp_thms)
qed

lemma wp_chain [wp_simps]:
  "wp (chain r f) Q = ((\<forall>e. r = Inl e \<longrightarrow> Q (Inl e)) \<and> (\<forall>c. r = Inr c \<longrightarrow> wp (f c) Q))"
  by (cases r) (simp_all add: chain_def wp_simps)

text \<open>Sums of the pseudo headers, as the transport protocols define them.\<close>

definition pseudo6 :: "packet \<Rightarrow> nat \<Rightarrow> nat" where
  "pseudo6 p h = sum16 (bytes_at p (h + 8) 16) + sum16 (bytes_at p (h + 24) 16)
     + sum16 (le_bytes 4 (bswap32 (ucast (bswap16 (u16_at p (h + 4))))))
     + sum16 (le_bytes 4 (bswap32 (ucast (p ! (h + 6)))))"

definition pseudo4 :: "packet \<Rightarrow> nat \<Rightarrow> nat" where
  "pseudo4 p h = sum16 (bytes_at p (h + 12) 4) + sum16 (bytes_at p (h + 16) 4)
     + sum16 (le_bytes 4 (bswap32 (ucast (bswap16 (u16_at p (h + 2))) - 20)))
     + sum16 (le_bytes 4 (bswap32 (ucast (p ! (h + 9)))))"

text \<open>A result that, unless it is an error, has the value \<open>x\<close>.\<close>

definition res_is :: "int + u64 \<Rightarrow> int \<Rightarrow> bool" where
  "res_is r x \<longleftrightarrow> (\<forall>c. r = Inr c \<longrightarrow> csum_is c x)"

lemma wp_chain_is:
  assumes "res_is r x" and "\<And>c. csum_is c x \<Longrightarrow> wp (f c) (\<lambda>r. res_is r y)"
  shows "wp (chain r f) (\<lambda>r. res_is r y)"
  using assms by (cases r) (auto simp: wp_simps res_is_def)

lemma wp_bind_is:
  assumes "wp m (\<lambda>r. res_is r x)" and "\<And>r. res_is r x \<Longrightarrow> wp (f r) Q"
  shows "wp (Option.bind m f) Q"
  using assms by (auto simp: wp_simps intro: wp_mono)

text \<open>
  The interface to the kernel's checksum helper: what the pseudo-header routines and the three
  GUE checksum routines compute follows from its one law.
\<close>

locale csum_kernel =
  fixes env :: "'e bpf_env_scheme"
  assumes diff_ok: "csum_diff_ok (bpf_csum_diff env)"
begin

lemma step_is:
  assumes "csum_is c x" and "y = x + int (sum16 b) - int (sum16 a)"
  shows "res_is (csum_step env a b c) y"
  using csum_step_is [OF diff_ok assms(1)] assms(2) by (auto simp: res_is_def)

lemma rd_step_is:
  assumes "csum_is c x" and "i + n \<le> length p"
  shows "wp (do { w \<leftarrow> rd p i n; Some (csum_step env (a w) (b w) c) })
    (\<lambda>r. res_is r (x + int (sum16 (b (bytes_at p i n))) - int (sum16 (a (bytes_at p i n)))))"
  using assms by (simp add: wp_simps step_is)

lemma ld16_step_is:
  assumes "csum_is c x" and "i + 2 \<le> length p"
  shows "wp (do { w \<leftarrow> ld16 p i; Some (csum_step env (a w) (b w) c) })
    (\<lambda>r. res_is r (x + int (sum16 (b (u16_at p i))) - int (sum16 (a (u16_at p i)))))"
  using assms by (simp add: wp_simps step_is)

lemma ld8_step_is:
  assumes "csum_is c x" and "i < length p"
  shows "wp (do { w \<leftarrow> ld8 p i; Some (csum_step env (a w) (b w) c) })
    (\<lambda>r. res_is r (x + int (sum16 (b (p ! i))) - int (sum16 (a (p ! i)))))"
  using assms by (simp add: wp_simps step_is)

lemmas step_rules = rd_step_is ld16_step_is ld8_step_is

lemma add_pseudo6_is:
  assumes "csum_is c x" and "h + 40 \<le> length p" and "y = x + int (pseudo6 p h)"
  shows "wp (add_pseudo_ipv6_header env p h c) (\<lambda>r. res_is r y)"
  unfolding add_pseudo_ipv6_header_def add_range_def
  apply (rule wp_bind_is, rule rd_step_is [OF assms(1)], use assms(2) in simp)
  apply (rule wp_bind_is, erule wp_chain_is, erule rd_step_is, use assms(2) in simp)
  apply (rule wp_bind_is, erule wp_chain_is, erule ld16_step_is, use assms(2) in simp)
  apply (erule wp_chain_is, rule wp_mono, erule ld8_step_is, use assms(2) in simp)
  apply (simp add: assms(3) pseudo6_def algebra_simps)
  done

lemma rem_pseudo6_is:
  assumes "csum_is c x" and "h + 40 \<le> length p" and "y = x - int (pseudo6 p h)"
  shows "wp (rem_pseudo_ipv6_header env p h c) (\<lambda>r. res_is r y)"
  unfolding rem_pseudo_ipv6_header_def rem_range_def
  apply (rule wp_bind_is, rule rd_step_is [OF assms(1)], use assms(2) in simp)
  apply (rule wp_bind_is, erule wp_chain_is, erule rd_step_is, use assms(2) in simp)
  apply (rule wp_bind_is, erule wp_chain_is, erule ld16_step_is, use assms(2) in simp)
  apply (erule wp_chain_is, rule wp_mono, erule ld8_step_is, use assms(2) in simp)
  apply (simp add: assms(3) pseudo6_def algebra_simps)
  done

lemma add_pseudo4_is:
  assumes "csum_is c x" and "h + 20 \<le> length p" and "y = x + int (pseudo4 p h)"
  shows "wp (add_pseudo_ipv4_header env p h c) (\<lambda>r. res_is r y)"
  unfolding add_pseudo_ipv4_header_def add_range_def
  apply (rule wp_bind_is, rule rd_step_is [OF assms(1)], use assms(2) in simp)
  apply (rule wp_bind_is, erule wp_chain_is, erule rd_step_is, use assms(2) in simp)
  apply (rule wp_bind_is, erule wp_chain_is, erule ld16_step_is, use assms(2) in simp)
  apply (erule wp_chain_is, rule wp_mono, erule ld8_step_is, use assms(2) in simp)
  apply (simp add: assms(3) pseudo4_def algebra_simps)
  done

lemma rem_pseudo4_is:
  assumes "csum_is c x" and "h + 20 \<le> length p" and "y = x - int (pseudo4 p h)"
  shows "wp (rem_pseudo_ipv4_header env p h c) (\<lambda>r. res_is r y)"
  unfolding rem_pseudo_ipv4_header_def rem_range_def
  apply (rule wp_bind_is, rule rd_step_is [OF assms(1)], use assms(2) in simp)
  apply (rule wp_bind_is, erule wp_chain_is, erule rd_step_is, use assms(2) in simp)
  apply (rule wp_bind_is, erule wp_chain_is, erule ld16_step_is, use assms(2) in simp)
  apply (erule wp_chain_is, rule wp_mono, erule ld8_step_is, use assms(2) in simp)
  apply (simp add: assms(3) pseudo4_def algebra_simps)
  done

lemma seed_is: "res_is (gue_csum_seed env (ucast (c :: u16))) 0"
proof -
  let ?c = "ucast c :: u64"
  have c: "unat ?c = unat c" using unat_u16_less [of c] by (simp add: unat_ucast_mod)
  have o: "unat (ucast ?c :: u32) = unat c" using unat_u16_less [of c] by (simp add: unat_ucast_mod)
  have "unat c \<le> 65535" using unat_u16_less [of c] by simp
  then have seed: "unat (NOT ?c AND 0xffff) = 65535 - unat c"
    using compl64_mod [of "unat c"] by (simp only: unat_and_ffff unat_not c) simp
  have "uint (NOT ?c AND 0xffff) = 65535 - int (unat c)"
    using seed \<open>unat c \<le> 65535\<close> by (simp only: uint_nat)
  then have "csum_is (NOT ?c AND 0xffff) (65535 - int (unat c))"
    unfolding csum_is_def by (simp only: simp_thms) (rule le_less_trans [of _ 65535], simp_all)
  then have "res_is (gue_csum_seed env ?c) (65535 - int (unat c) + int (unat c) - int 0)"
    unfolding gue_csum_seed_def Let_def
    by (rule step_is) (use o unat_u16_less [of c] in \<open>simp add: sum16_le_bytes4\<close>)
  then show ?thesis by (simp add: res_is_def csum_is_def)
qed

text \<open>The checksum put into the outer header cancels the value \<open>x\<close>.\<close>

lemma fold_result_cancels:
  assumes "res_is r x" and "fold_result r = Some v"
  shows "(int (unat v) + x) mod 65535 = 0"
proof -
  obtain c where c: "r = Inr c" "v = ucast (csum_fold_helper c)"
    using assms(2) by (auto simp: fold_result_def split: sum.splits)
  have "unat v = 65535 - fold16 (unat c)"
    using c(2) unat_csum_fold_helper [of c] unat_u16_less [of "csum_fold_helper c"]
    by (simp add: unat_ucast_mod)
  then have "int (unat v) + int (fold16 (unat c)) = 65535" using fold16_le [of "unat c"] by simp
  moreover have "int (fold16 (unat c)) mod 65535 = x mod 65535"
  proof -
    have "int (fold16 (unat c)) mod 65535 = int (unat c) mod 65535"
      using arg_cong [OF fold16_mod [of "unat c"], of int]
      by (simp only: of_nat_mod of_nat_numeral)
    then show ?thesis using assms(1) c(1) by (simp only: res_is_def csum_is_def uint_nat simp_thms)
  qed
  ultimately show ?thesis
    by (metis mod_add_right_eq mod_self)
qed

lemma gue_csum_v6_cancels:
  assumes "oh + 40 \<le> length p" and "uh + 8 \<le> length p" and "ih + 40 \<le> length p"
  shows "wp (gue_csum_v6 env p oh uh ih (ucast (c :: u16))) (\<lambda>r. \<forall>v. r = Some v \<longrightarrow>
    (int (unat v) + int (pseudo6 p oh) + int (sum16 (bytes_at p uh 8))
       + int (sum16 (bytes_at p ih 40)) - int (pseudo6 p ih)) mod 65535 = 0)"
  unfolding gue_csum_v6_def add_range_def
  apply (rule wp_bind_is, rule wp_chain_is [OF seed_is], erule rem_pseudo6_is [OF _ _ refl], rule assms)
  apply (rule wp_bind_is, erule wp_chain_is, erule rd_step_is, rule assms)
  apply (rule wp_bind_is, erule wp_chain_is, erule rd_step_is, rule assms)
  apply (rule wp_bind_is, erule wp_chain_is, erule add_pseudo6_is [OF _ _ refl], rule assms)
  apply (auto simp: wp_simps algebra_simps dest: fold_result_cancels)
  done

lemma gue_csum_v4_cancels:
  assumes "oh + 20 \<le> length p" and "uh + 8 \<le> length p" and "ih + 20 \<le> length p"
  shows "wp (gue_csum_v4 env p oh uh ih (ucast (c :: u16))) (\<lambda>r. \<forall>v. r = Some v \<longrightarrow>
    (int (unat v) + int (pseudo4 p oh) + int (sum16 (bytes_at p uh 8))
       + int (sum16 (bytes_at p ih 20)) - int (pseudo4 p ih)) mod 65535 = 0)"
  unfolding gue_csum_v4_def add_range_def
  apply (rule wp_bind_is, rule wp_chain_is [OF seed_is], erule rem_pseudo4_is [OF _ _ refl], rule assms)
  apply (rule wp_bind_is, erule wp_chain_is, erule rd_step_is, rule assms)
  apply (rule wp_bind_is, erule wp_chain_is, erule rd_step_is, rule assms)
  apply (rule wp_bind_is, erule wp_chain_is, erule add_pseudo4_is [OF _ _ refl], rule assms)
  apply (auto simp: wp_simps algebra_simps dest: fold_result_cancels)
  done

lemma gue_csum_v4_in_v6_cancels:
  assumes "oh + 40 \<le> length p" and "uh + 8 \<le> length p" and "ih + 20 \<le> length p"
  shows "wp (gue_csum_v4_in_v6 env p oh uh ih (ucast (c :: u16))) (\<lambda>r. \<forall>v. r = Some v \<longrightarrow>
    (int (unat v) + int (pseudo6 p oh) + int (sum16 (bytes_at p uh 8))
       + int (sum16 (bytes_at p ih 20)) - int (pseudo4 p ih)) mod 65535 = 0)"
  unfolding gue_csum_v4_in_v6_def add_range_def
  apply (rule wp_bind_is, rule wp_chain_is [OF seed_is], erule rem_pseudo4_is [OF _ _ refl], rule assms)
  apply (rule wp_bind_is, erule wp_chain_is, erule rd_step_is, rule assms)
  apply (rule wp_bind_is, erule wp_chain_is, erule rd_step_is, rule assms)
  apply (rule wp_bind_is, erule wp_chain_is, erule add_pseudo6_is [OF _ _ refl], rule assms)
  apply (auto simp: wp_simps algebra_simps dest: fold_result_cancels)
  done

end

interpretation kernel_csum: csum_kernel kernel_env
  by unfold_locales (simp add: kernel_env_def kernel_csum_diff_ok)

section \<open>Bounds\<close>

lemma add_pseudo_ipv6_header_safe [safe_intros]:
  "h + 40 \<le> length p \<Longrightarrow> add_pseudo_ipv6_header env p h c \<noteq> None"
  unfolding wp_total add_pseudo_ipv6_header_def add_range_def by (simp add: wp_simps)

lemma rem_pseudo_ipv6_header_safe [safe_intros]:
  "h + 40 \<le> length p \<Longrightarrow> rem_pseudo_ipv6_header env p h c \<noteq> None"
  unfolding wp_total rem_pseudo_ipv6_header_def rem_range_def by (simp add: wp_simps)

lemma add_pseudo_ipv4_header_safe [safe_intros]:
  "h + 20 \<le> length p \<Longrightarrow> add_pseudo_ipv4_header env p h c \<noteq> None"
  unfolding wp_total add_pseudo_ipv4_header_def add_range_def by (simp add: wp_simps)

lemma rem_pseudo_ipv4_header_safe [safe_intros]:
  "h + 20 \<le> length p \<Longrightarrow> rem_pseudo_ipv4_header env p h c \<noteq> None"
  unfolding wp_total rem_pseudo_ipv4_header_def rem_range_def by (simp add: wp_simps)

lemmas pseudo_safe = add_pseudo_ipv6_header_safe rem_pseudo_ipv6_header_safe
  add_pseudo_ipv4_header_safe rem_pseudo_ipv4_header_safe

lemma gue_csum_routines_safe [safe_intros]:
  "oh + 40 \<le> length p \<Longrightarrow> uh + 8 \<le> length p \<Longrightarrow> ih + 40 \<le> length p \<Longrightarrow>
     gue_csum_v6 env p oh uh ih c \<noteq> None"
  "oh + 20 \<le> length p \<Longrightarrow> uh + 8 \<le> length p \<Longrightarrow> ih + 20 \<le> length p \<Longrightarrow>
     gue_csum_v4 env p oh uh ih c \<noteq> None"
  "oh + 40 \<le> length p \<Longrightarrow> uh + 8 \<le> length p \<Longrightarrow> ih + 20 \<le> length p \<Longrightarrow>
     gue_csum_v4_in_v6 env p oh uh ih c \<noteq> None"
  unfolding wp_total gue_csum_v6_def gue_csum_v4_def gue_csum_v4_in_v6_def add_range_def
  by (auto simp: wp_simps intro!: wpI pseudo_safe)

lemmas gue_csum_routines_wp = gue_csum_routines_safe [THEN wpI]

end
