(* ===== verification/Katran_Parsing.thy ===== *)
theory Katran_Parsing
  imports Katran_Csum
begin

text \<open>
  Shared routines of \<open>balancer_helpers.h\<close> (events, recirculation, TTL decrement) and the
  transport-header parsers of \<open>pckt_parsing.h\<close>: UDP and TCP ports, the TCP option that carries a
  server id, and the server id in a QUIC connection id.
\<close>

section \<open>balancer\_helpers.h\<close>

text \<open>
  \<open>BPF_F_CURRENT_CPU\<close> is \<open>0xffffffff\<close>; the upper half of the flags of
  \<open>bpf_perf_event_output\<close> is the number of packet bytes to append.
\<close>

definition submit_event :: "u32 \<Rightarrow> int \<Rightarrow> bool \<Rightarrow> katran \<Rightarrow> katran" where
  "submit_event event_id sz metadata_only s =
     (case ctl_array s 5 of
        None \<Rightarrow> s
      | Some gk \<Rightarrow>
          if ctl_u64 gk = 0 then s
          else (let len = (if metadata_only then 0 else of_int (min_helper sz MAX_EVENT_SIZE) :: u32);
                    md = \<lparr>event = event_id, pkt_size = of_int sz, data_len = len\<rparr>;
                    fl = (0xffffffff :: u64) OR
                         (if metadata_only then 0 else push_bit 32 (ucast len))
                in s\<lparr>event_pipe := event_pipe s @ [(md, fl)]\<rparr>))"

definition report_event :: "build \<Rightarrow> u32 \<Rightarrow> packet \<Rightarrow> katran \<Rightarrow> katran" where
  "report_event cfg event_id data s =
     (if KATRAN_INTROSPECTION cfg then submit_event event_id (int (length data)) False s else s)"

text \<open>The tail call takes over if a program is registered; otherwise the code falls through.\<close>

definition recirculate :: "katran \<Rightarrow> ret" where
  "recirculate s =
     (if subprograms s RECIRCULATION_INDEX \<noteq> None then TailCall RECIRCULATION_INDEX else Ret XDP_PASS)"

definition decrement_ttl :: "packet \<Rightarrow> nat \<Rightarrow> bool \<Rightarrow> (int \<times> packet) option" where
  "decrement_ttl data offset is_ipv6 =
     (if is_ipv6 then
        (if offset + 40 > length data then Some (XDP_DROP, data)
         else do {
           hop_limit \<leftarrow> ld8 data (offset + 7);
           data \<leftarrow> st8 data (offset + 7) (hop_limit - 1);
           if hop_limit - 1 = 0 then Some (XDP_DROP, data)
           else Some (FURTHER_PROCESSING, data) })
      else
        (if offset + 20 > length data then Some (XDP_DROP, data)
         else do {
           ttl \<leftarrow> ld8 data (offset + 8);
           data \<leftarrow> st8 data (offset + 8) (ttl - 1);
           if ttl - 1 = 0 then Some (XDP_DROP, data)
           else do {
             check \<leftarrow> ld16 data (offset + 10);
             let csum = (ucast check :: u32) + 1;
             data \<leftarrow> st16 data (offset + 10) (ucast ((csum AND 0xffff) + drop_bit 16 csum));
             Some (FURTHER_PROCESSING, data) } }))"

section \<open>pckt\_parsing.h\<close>

definition calc_offset :: "bool \<Rightarrow> bool \<Rightarrow> nat" where
  "calc_offset is_ipv6 is_icmp =
     (if is_ipv6 then 14 + 40 + (if is_icmp then 8 + 40 else 0)
      else 14 + 20 + (if is_icmp then 8 + 20 else 0))"

definition is_icmp_pckt :: "packet_description \<Rightarrow> bool" where
  "is_icmp_pckt pckt \<longleftrightarrow> flags pckt AND F_ICMP \<noteq> 0"

definition set_ports :: "u16 \<Rightarrow> u16 \<Rightarrow> packet_description \<Rightarrow> packet_description" where
  "set_ports sp dp pckt = pckt\<lparr>flow := (flow pckt)\<lparr>sport := sp, dport := dp\<rparr>\<rparr>"

definition parse_udp ::
  "packet \<Rightarrow> bool \<Rightarrow> packet_description \<Rightarrow> (bool \<times> packet_description) option" where
  "parse_udp data is_ipv6 pckt = (
     let is_icmp = is_icmp_pckt pckt; off = calc_offset is_ipv6 is_icmp
     in if off + 8 > length data then Some (False, pckt)
        else do {
          source \<leftarrow> ld16 data off;
          dest \<leftarrow> ld16 data (off + 2);
          if \<not> is_icmp then Some (True, set_ports source dest pckt)
          else Some (True, set_ports dest source pckt) })"

definition parse_tcp ::
  "packet \<Rightarrow> bool \<Rightarrow> packet_description \<Rightarrow> (bool \<times> packet_description) option" where
  "parse_tcp data is_ipv6 pckt = (
     let is_icmp = is_icmp_pckt pckt; off = calc_offset is_ipv6 is_icmp
     in if off + 20 > length data then Some (False, pckt)
        else do {
          bits \<leftarrow> ld8 data (off + 13);
          let pckt = (if bits AND 2 \<noteq> 0 then pckt\<lparr>flags := flags pckt OR F_SYN_SET\<rparr> else pckt);
          source \<leftarrow> ld16 data off;
          dest \<leftarrow> ld16 data (off + 2);
          if \<not> is_icmp then Some (True, set_ports source dest pckt)
          else Some (True, set_ports dest source pckt) })"

record hdr_opt_state =
  server_id :: u32
  byte_offset :: u8
  hdr_bytes_remaining :: u8

definition parse_hdr_opt :: "packet \<Rightarrow> hdr_opt_state \<Rightarrow> (int \<times> hdr_opt_state) option" where
  "parse_hdr_opt data st = (
     let tcp_opt = unat (byte_offset st)
     in if tcp_opt + 1 > length data then Some (-1, st)
        else do {
          kind \<leftarrow> ld8 data tcp_opt;
          if kind = TCP_OPT_EOL then Some (-1, st)
          else if kind = TCP_OPT_NOP then
            Some (0, st\<lparr>hdr_bytes_remaining := hdr_bytes_remaining st - 1,
                        byte_offset := byte_offset st + 1\<rparr>)
          else if hdr_bytes_remaining st < 2 \<or> tcp_opt + 1 + 1 > length data then Some (-1, st)
          else do {
            hdr_len \<leftarrow> ld8 data (tcp_opt + 1);
            if hdr_len > hdr_bytes_remaining st then Some (-1, st)
            else if kind = TCP_HDR_OPT_KIND_TPR then
              (if hdr_len \<noteq> TCP_HDR_OPT_LEN_TPR then Some (-1, st)
               else if tcp_opt + unat TCP_HDR_OPT_LEN_TPR > length data then Some (-1, st)
               else do {
                 sid \<leftarrow> ld32 data (tcp_opt + 2);
                 Some (1, st\<lparr>server_id := sid\<rparr>) })
            else Some (0, st\<lparr>hdr_bytes_remaining := hdr_bytes_remaining st - hdr_len,
                             byte_offset := byte_offset st + hdr_len\<rparr>) } })"

text \<open>The bounded loop over options: it stops at a non-zero code or when no bytes remain.\<close>

fun hdr_opt_loop :: "nat \<Rightarrow> packet \<Rightarrow> hdr_opt_state \<Rightarrow> hdr_opt_state option" where
  "hdr_opt_loop 0 data st = Some st"
| "hdr_opt_loop (Suc n) data st = do {
     (err, st) \<leftarrow> parse_hdr_opt data st;
     if err \<noteq> 0 \<or> hdr_bytes_remaining st = 0 then Some st else hdr_opt_loop n data st }"

definition tcp_hdr_opt_lookup ::
  "katran_env \<Rightarrow> packet \<Rightarrow> bool \<Rightarrow> real_definition option \<Rightarrow> packet_description \<Rightarrow> bool \<Rightarrow> lru_ref
     \<Rightarrow> katran \<Rightarrow> (int \<times> real_definition option \<times> packet_description \<times> katran) option" where
  "tcp_hdr_opt_lookup env data is_ipv6 real pckt bypass_lru lru_map s = (
     let tcp_offset = calc_offset is_ipv6 False
     in if tcp_offset + 20 > length data then Some (FURTHER_PROCESSING, real, pckt, s)
        else do {
          b \<leftarrow> ld8 data (tcp_offset + 12);
          let tcp_hdr_opt_len = drop_bit 4 b * 4 - 20;
          if tcp_hdr_opt_len < TCP_HDR_OPT_LEN_TPR then Some (FURTHER_PROCESSING, real, pckt, s)
          else do {
            opt_state \<leftarrow> hdr_opt_loop TCP_HDR_OPT_MAX_OPT_CHECKS data
              \<lparr>server_id = 0, byte_offset = of_nat (20 + tcp_offset),
               hdr_bytes_remaining = tcp_hdr_opt_len\<rparr>;
            if server_id opt_state = 0 then Some (FURTHER_PROCESSING, real, pckt, s)
            else (case server_id_map s (server_id opt_state) of
              None \<Rightarrow> Some (FURTHER_PROCESSING, real, pckt, s)
            | Some key \<Rightarrow>
                if key = 0 then Some (FURTHER_PROCESSING, real, pckt, s)
                else (let pckt = pckt\<lparr>real_index := key\<rparr>; real = reals s key
                  in if real = None then Some (FURTHER_PROCESSING, real, pckt, s)
                     else if \<not> bypass_lru then
                       (case lru_lookup s lru_map (flow pckt) of
                          Some dst_lru \<Rightarrow>
                            Some (0, real, pckt, lru_poke s lru_map (flow pckt) (dst_lru\<lparr>pos := key\<rparr>))
                        | None \<Rightarrow>
                            Some (0, real, pckt,
                              lru_put env s lru_map (flow pckt) \<lparr>pos = key, atime = 0\<rparr>))
                     else Some (0, real, pckt, s))) } })"

definition parse_quic :: "packet \<Rightarrow> bool \<Rightarrow> packet_description \<Rightarrow> int option" where
  "parse_quic data is_ipv6 pckt = (
     let is_icmp = is_icmp_pckt pckt; off = calc_offset is_ipv6 is_icmp
     in if off + 8 + 1 > length data then Some FURTHER_PROCESSING
        else do {
          let quic_data = off + 8;
          pkt_type \<leftarrow> ld8 data quic_data;
          connId \<leftarrow>
            (if pkt_type AND QUIC_LONG_HEADER = QUIC_LONG_HEADER then
               (if quic_data + 14 > length data then Some None
                else if pkt_type AND QUIC_PACKET_TYPE_MASK < QUIC_HANDSHAKE then Some None
                else do {
                  conn_id_lens \<leftarrow> ld8 data (quic_data + 5);
                  if conn_id_lens < QUIC_MIN_CONNID_LEN then Some None
                  else Some (Some (quic_data + 6)) })
             else if quic_data + 9 > length data then Some None
             else Some (Some (quic_data + 1)));
          case connId of None \<Rightarrow> Some FURTHER_PROCESSING
          | Some cid \<Rightarrow> do {
              c0 \<leftarrow> ld8 data cid;
              let connIdVersion = drop_bit 6 c0;
              if connIdVersion = QUIC_CONNID_VERSION_V1 then do {
                c1 \<leftarrow> ld8 data (cid + 1);
                c2 \<leftarrow> ld8 data (cid + 2);
                Some (uint (push_bit 10 (ucast (c0 AND 0x3F)) OR push_bit 2 (ucast c1)
                        OR drop_bit 6 (ucast c2) :: u32)) }
              else if connIdVersion = QUIC_CONNID_VERSION_V2 then do {
                c1 \<leftarrow> ld8 data (cid + 1);
                c2 \<leftarrow> ld8 data (cid + 2);
                c3 \<leftarrow> ld8 data (cid + 3);
                Some (uint (push_bit 16 (ucast c1) OR push_bit 8 (ucast c2) OR ucast c3 :: u32)) }
              else Some FURTHER_PROCESSING } })"

section \<open>Bounds\<close>

lemma decrement_ttl_safe [safe_intros]: "decrement_ttl data off v6 \<noteq> None"
  unfolding wp_total decrement_ttl_def by (simp add: wp_simps)

lemma parse_udp_safe [safe_intros]: "parse_udp data v6 pckt \<noteq> None"
  unfolding wp_total parse_udp_def by (simp add: wp_simps Let_def)

lemma parse_tcp_safe [safe_intros]: "parse_tcp data v6 pckt \<noteq> None"
  unfolding wp_total parse_tcp_def by (simp add: wp_simps Let_def)

lemma parse_hdr_opt_safe [safe_intros]: "parse_hdr_opt data st \<noteq> None"
  unfolding wp_total parse_hdr_opt_def by (simp add: wp_simps Let_def TCP_HDR_OPT_LEN_TPR_def)

lemma hdr_opt_loop_safe [safe_intros]: "hdr_opt_loop n data st \<noteq> None"
proof (induction n arbitrary: st)
  case (Suc n)
  obtain e st' where "parse_hdr_opt data st = Some (e, st')"
    using parse_hdr_opt_safe [of data st] by auto
  then show ?case using Suc.IH [of st'] by simp
qed simp

lemma tcp_hdr_opt_lookup_safe [safe_intros]:
  "tcp_hdr_opt_lookup env data v6 real pckt byp r s \<noteq> None"
  unfolding wp_total tcp_hdr_opt_lookup_def
  by (auto simp: wp_simps Let_def intro!: wpI hdr_opt_loop_safe)

lemma parse_quic_safe [safe_intros]: "parse_quic data v6 pckt \<noteq> None"
  unfolding wp_total parse_quic_def by (auto simp: wp_simps Let_def)

end
