(* ===== verification/Katran_Jhash.thy ===== *)
theory Katran_Jhash
  imports Katran_State
begin

text \<open>
  The hash of \<open>jhash.h\<close> and its use on a flow in \<open>get_packet_hash\<close>.
\<close>

section \<open>Definitions\<close>

definition rol32 :: "u32 \<Rightarrow> nat \<Rightarrow> u32" where
  "rol32 w shift = push_bit shift w OR drop_bit (nat ((- int shift) mod 32)) w"

definition jhash_mix :: "u32 \<Rightarrow> u32 \<Rightarrow> u32 \<Rightarrow> u32 \<times> u32 \<times> u32" where
  "jhash_mix a b c = (
     let a = a - c; a = a XOR rol32 c 4; c = c + b;
         b = b - a; b = b XOR rol32 a 6; a = a + c;
         c = c - b; c = c XOR rol32 b 8; b = b + a;
         a = a - c; a = a XOR rol32 c 16; c = c + b;
         b = b - a; b = b XOR rol32 a 19; a = a + c;
         c = c - b; c = c XOR rol32 b 4; b = b + a
     in (a, b, c))"

definition jhash_final :: "u32 \<Rightarrow> u32 \<Rightarrow> u32 \<Rightarrow> u32 \<times> u32 \<times> u32" where
  "jhash_final a b c = (
     let c = c XOR b; c = c - rol32 b 14;
         a = a XOR c; a = a - rol32 c 11;
         b = b XOR a; b = b - rol32 a 25;
         c = c XOR b; c = c - rol32 b 16;
         a = a XOR c; a = a - rol32 c 4;
         b = b XOR a; b = b - rol32 a 14;
         c = c XOR b; c = c - rol32 b 24
     in (a, b, c))"

definition JHASH_INITVAL :: u32 where "JHASH_INITVAL = 0xdeadbeef"

text \<open>The loop over blocks of twelve bytes: the tail that is left and the three accumulators.\<close>

function jhash_loop :: "u8 list \<Rightarrow> u32 \<Rightarrow> u32 \<Rightarrow> u32 \<Rightarrow> u8 list \<times> u32 \<times> u32 \<times> u32" where
  "jhash_loop k a b c =
     (if length k > 12 then
        (let a = a + le_word (take 4 k); b = b + le_word (take 4 (drop 4 k));
             c = c + le_word (take 4 (drop 8 k)); (a, b, c) = jhash_mix a b c
         in jhash_loop (drop 12 k) a b c)
      else (k, a, b, c))"
  by pat_completeness auto
termination
  by (relation "measure (\<lambda>(k, _). length k)") auto

declare jhash_loop.simps [simp del]

text \<open>
  The \<open>switch\<close> on the remaining length falls through: byte \<open>i\<close> of the tail is added, shifted to
  its place in the 32-bit word it belongs to, when the tail is longer than \<open>i\<close>.
\<close>

definition tail_byte :: "u8 list \<Rightarrow> nat \<Rightarrow> nat \<Rightarrow> u32" where
  "tail_byte k i sh = (if i < length k then push_bit sh (ucast (k ! i)) else 0)"

definition jhash :: "u8 list \<Rightarrow> u32 \<Rightarrow> u32" where
  "jhash key initval = (
     let i = JHASH_INITVAL + of_nat (length key) + initval;
         (k, a, b, c) = jhash_loop key i i i;
         c = c + tail_byte k 11 24 + tail_byte k 10 16 + tail_byte k 9 8 + tail_byte k 8 0;
         b = b + tail_byte k 7 24 + tail_byte k 6 16 + tail_byte k 5 8 + tail_byte k 4 0;
         a = a + tail_byte k 3 24 + tail_byte k 2 16 + tail_byte k 1 8 + tail_byte k 0 0
     in if k = [] then c else (case jhash_final a b c of (_, _, c) \<Rightarrow> c))"

definition jhash_nwords :: "u32 \<Rightarrow> u32 \<Rightarrow> u32 \<Rightarrow> u32 \<Rightarrow> u32" where
  "jhash_nwords a b c initval =
     (case jhash_final (a + initval) (b + initval) (c + initval) of (_, _, c) \<Rightarrow> c)"

definition jhash_2words :: "u32 \<Rightarrow> u32 \<Rightarrow> u32 \<Rightarrow> u32" where
  "jhash_2words a b initval = jhash_nwords a b 0 (initval + JHASH_INITVAL + 8)"

definition jhash_1word :: "u32 \<Rightarrow> u32 \<Rightarrow> u32" where
  "jhash_1word a initval = jhash_nwords a 0 0 (initval + JHASH_INITVAL + 4)"

definition addr_bytes :: "addr4 \<Rightarrow> u8 list" where
  "addr_bytes a = le_bytes 4 (w0 a) @ le_bytes 4 (w1 a) @ le_bytes 4 (w2 a) @ le_bytes 4 (w3 a)"

definition get_packet_hash :: "packet_description \<Rightarrow> bool \<Rightarrow> u32" where
  "get_packet_hash pckt hash_16bytes =
     (if hash_16bytes
      then jhash_2words (jhash (addr_bytes (srcv6 (flow pckt))) INIT_JHASH_SEED_V6)
             (ports (flow pckt)) INIT_JHASH_SEED
      else jhash_2words (w0 (srcv6 (flow pckt))) (ports (flow pckt)) INIT_JHASH_SEED)"

section \<open>Rotation and word hashing\<close>

lemma rol32_rotl:
  assumes "s < 32"
  shows "rol32 w s = word_rotl s w"
proof (rule bit_word_eqI)
  fix n assume "n < LENGTH(32)"
  then have n: "n < 32" by simp
  have d: "nat ((- int s) mod 32) = (if s = 0 then 0 else 32 - s)"
    using assms by (simp add: zmod_zminus1_eq_if nat_diff_distrib)
  have m: "(n + 32 - s) mod 32 = (if s \<le> n then n - s else n + 32 - s)"
    using n assms by (cases "s \<le> n") (simp_all add: mod_if)
  have "bit (word_rotl s w) n = bit w ((n + 32 - s) mod 32)"
    using n assms by (simp add: bit_word_rotl_iff)
  also have "\<dots> = (if s \<le> n then bit w (n - s) else bit w (n + 32 - s))"
    unfolding m by simp
  also have "\<dots> = bit (rol32 w s) n"
    using n assms by (auto simp: rol32_def bit_simps d algebra_simps dest: bit_imp_le_length)
  finally show "bit (rol32 w s) n = bit (word_rotl s w) n" ..
qed

lemma length_addr_bytes [simp]: "length (addr_bytes a) = 16"
  by (simp add: addr_bytes_def)

text \<open>The four bytes of a little-endian word, added one by one, give the word.\<close>

lemma tail_word:
  "push_bit 24 (ucast d) + push_bit 16 (ucast c) + push_bit 8 (ucast b) + ucast a
     = (le_word [a, b, c, d] :: u32)" for a b c d :: u8
  by (simp add: le_word_def push_bit_eq_mult algebra_simps)

lemma jhash_loop_short: "length k \<le> 12 \<Longrightarrow> jhash_loop k a b c = (k, a, b, c)"
  by (subst jhash_loop.simps) simp

text \<open>
  Hashing a buffer of two words byte by byte is the word routine: the shortcut the balancer
  takes for the flow agrees with the general hash.
\<close>

lemma length4_cases:
  assumes "length (xs :: 'a list) = 4"
  obtains a b c d where "xs = [a, b, c, d]"
  using assms by (auto simp: numeral_eq_Suc length_Suc_conv)

lemma tail_bytes_word:
  assumes "drop i (take (i + 4) k) = le_bytes 4 (w :: u32)" and "i + 4 \<le> length k"
  shows "tail_byte k (i + 3) 24 + tail_byte k (i + 2) 16 + tail_byte k (i + 1) 8 + tail_byte k i 0 = w"
proof -
  have len: "length (drop i (take (i + 4) k)) = 4" using assms(2) by simp
  then obtain a b c d where l: "drop i (take (i + 4) k) = [a, b, c, d]"
    by (rule length4_cases)
  have nth: "k ! (i + j) = [a, b, c, d] ! j" if "j < 4" for j
    using that assms(2) by (simp flip: l)
  have "le_word [a, b, c, d] = w"
    using assms(1) l le_word_bytes [of 4 w] by simp
  then show ?thesis
    using assms(2) nth [of 0] nth [of 1] nth [of 2] nth [of 3] tail_word [of d c b a]
    by (simp add: tail_byte_def numeral_eq_Suc)
qed

lemma jhash_words2:
  "jhash (le_bytes 4 a @ le_bytes 4 b) initval = jhash_2words a b initval"
proof -
  let ?k = "le_bytes 4 a @ le_bytes 4 b"
  have len: "length ?k = 8" by simp
  have a: "tail_byte ?k 3 24 + tail_byte ?k 2 16 + tail_byte ?k 1 8 + tail_byte ?k 0 0 = a"
    using tail_bytes_word [of 0 ?k a] by (simp add: numeral_2_eq_2)
  have b: "tail_byte ?k 7 24 + tail_byte ?k 6 16 + tail_byte ?k 5 8 + tail_byte ?k 4 0 = b"
    using tail_bytes_word [of 4 ?k b] by simp
  have c: "tail_byte ?k 11 24 = 0" "tail_byte ?k 10 16 = 0" "tail_byte ?k 9 8 = 0"
    "tail_byte ?k 8 0 = 0" by (simp_all add: tail_byte_def)
  have ne: "?k \<noteq> []" using len by (metis length_0_conv zero_neq_numeral)
  show ?thesis
    unfolding jhash_def Let_def jhash_loop_short [of ?k, simplified] split
    using a b c ne by (simp add: jhash_2words_def jhash_nwords_def ac_simps del: append_is_Nil_conv)
qed

end
