(* ===== verification/Katran_Encap.thy ===== *)
theory Katran_Encap
  imports Katran_Parsing Katran_Jhash
begin

text \<open>
  Encapsulation and decapsulation: the header builders of \<open>encap_helpers.h\<close> and the IPIP and GUE
  routines of \<open>pckt_encap.h\<close>.  A pointer into the packet is its offset; a routine that returns
  \<open>bool\<close> gives the truth value and the packet as it leaves it.
\<close>

section \<open>encap\_helpers.h\<close>

text \<open>Writes to the two bit fields that share a byte.\<close>

definition st_hi :: "packet \<Rightarrow> nat \<Rightarrow> u8 \<Rightarrow> packet option" where
  "st_hi p i v = do { b \<leftarrow> ld8 p i; st8 p i ((b AND 0x0F) OR push_bit 4 v) }"

definition st_lo :: "packet \<Rightarrow> nat \<Rightarrow> u8 \<Rightarrow> packet option" where
  "st_lo p i v = do { b \<leftarrow> ld8 p i; st8 p i ((b AND 0xF0) OR (v AND 0x0F)) }"

definition create_v4_hdr ::
  "packet \<Rightarrow> nat \<Rightarrow> u8 \<Rightarrow> u32 \<Rightarrow> u32 \<Rightarrow> u16 \<Rightarrow> u8 \<Rightarrow> packet option" where
  "create_v4_hdr p iph tos' saddr daddr pkt_bytes proto' = do {
     p \<leftarrow> st_hi p iph 4;
     p \<leftarrow> st_lo p iph 5;
     p \<leftarrow> st16 p (iph + 6) 0;
     p \<leftarrow> st8 p (iph + 9) proto';
     p \<leftarrow> st16 p (iph + 10) 0;
     p \<leftarrow> st8 p (iph + 1) tos';
     p \<leftarrow> st16 p (iph + 2) (bswap16 (pkt_bytes + 20));
     p \<leftarrow> st32 p (iph + 16) daddr;
     p \<leftarrow> st32 p (iph + 12) saddr;
     p \<leftarrow> st8 p (iph + 8) DEFAULT_TTL;
     csum \<leftarrow> ipv4_csum_inline p iph 0;
     st16 p (iph + 10) (ucast csum)
   }"

definition create_v6_hdr ::
  "packet \<Rightarrow> nat \<Rightarrow> u8 \<Rightarrow> addr4 \<Rightarrow> addr4 \<Rightarrow> u16 \<Rightarrow> u8 \<Rightarrow> packet option" where
  "create_v6_hdr p ip6h tc saddr daddr payload_len proto' = do {
     p \<leftarrow> st_hi p ip6h 6;
     p \<leftarrow> wr p (ip6h + 1) [0, 0, 0];
     p \<leftarrow> st_lo p ip6h (drop_bit 4 (tc AND 0xF0));
     p \<leftarrow> st8 p (ip6h + 1) (push_bit 4 (tc AND 0x0F));
     p \<leftarrow> st8 p (ip6h + 6) proto';
     p \<leftarrow> st16 p (ip6h + 4) (bswap16 payload_len);
     p \<leftarrow> st8 p (ip6h + 7) DEFAULT_TTL;
     p \<leftarrow> wr p (ip6h + 8) (addr_bytes saddr);
     wr p (ip6h + 24) (addr_bytes daddr)
   }"

definition create_udp_hdr :: "packet \<Rightarrow> nat \<Rightarrow> u16 \<Rightarrow> u16 \<Rightarrow> u16 \<Rightarrow> u16 \<Rightarrow> packet option" where
  "create_udp_hdr p udph sport' dport' len csum = do {
     p \<leftarrow> st16 p udph sport';
     p \<leftarrow> st16 p (udph + 2) (bswap16 dport');
     p \<leftarrow> st16 p (udph + 4) (bswap16 len);
     st16 p (udph + 6) csum
   }"

section \<open>pckt\_encap.h: IPIP\<close>

text \<open>The new Ethernet header: the router's address, our own, which the old header has as its
  destination, and the type.\<close>

definition new_eth_hdr :: "packet \<Rightarrow> ctl_value \<Rightarrow> nat \<Rightarrow> u16 \<Rightarrow> packet option" where
  "new_eth_hdr p cval old_eth h_proto = do {
     p \<leftarrow> wr p 0 (ctl_mac cval);
     d \<leftarrow> rd p old_eth 6;
     p \<leftarrow> wr p 6 d;
     st16 p 12 h_proto
   }"

definition encap_v6 ::
  "'e bpf_env_scheme \<Rightarrow> packet \<Rightarrow> ctl_value \<Rightarrow> bool \<Rightarrow> packet_description \<Rightarrow> real_definition \<Rightarrow> u32
     \<Rightarrow> (bool \<times> packet) option" where
  "encap_v6 env xdp cval is_ipv6 pckt dst pkt_bytes =
     (case bpf_xdp_adjust_head env xdp (- 40) of
        None \<Rightarrow> Some (False, xdp)
      | Some p \<Rightarrow>
          if 14 > length p \<or> 40 + 14 > length p \<or> 14 + 40 > length p then Some (False, p)
          else do {
            p \<leftarrow> new_eth_hdr p cval 40 BE_ETH_P_IPV6;
            let (proto', ip_suffix, payload_len) =
              (if is_ipv6
               then (IPPROTO_IPV6, w3 (srcv6 (flow pckt)) XOR ucast (sport (flow pckt)),
                     ucast (pkt_bytes + 40) :: u16)
               else (IPPROTO_IPIP, w0 (srcv6 (flow pckt)) XOR ucast (sport (flow pckt)),
                     ucast pkt_bytes));
            let saddr = \<lparr>w0 = IPIP_V6_PREFIX1, w1 = IPIP_V6_PREFIX2, w2 = IPIP_V6_PREFIX3,
                         w3 = ip_suffix\<rparr>;
            p \<leftarrow> create_v6_hdr p 14 (tos pckt) saddr (real_dst dst) payload_len proto';
            Some (True, p) })"

definition encap_v4 ::
  "'e bpf_env_scheme \<Rightarrow> packet \<Rightarrow> ctl_value \<Rightarrow> packet_description \<Rightarrow> real_definition \<Rightarrow> u32
     \<Rightarrow> (bool \<times> packet) option" where
  "encap_v4 env xdp cval pckt dst pkt_bytes = (
     let ip_suffix = (ucast (bswap16 (sport (flow pckt))) :: u32);
         ip_suffix = push_bit 16 ip_suffix;
         ip_suffix = ip_suffix XOR w0 (srcv6 (flow pckt))
     in case bpf_xdp_adjust_head env xdp (- 20) of
        None \<Rightarrow> Some (False, xdp)
      | Some p \<Rightarrow>
          if 14 > length p \<or> 20 + 14 > length p \<or> 14 + 20 > length p then Some (False, p)
          else do {
            p \<leftarrow> new_eth_hdr p cval 20 BE_ETH_P_IP;
            p \<leftarrow> create_v4_hdr p 14 (tos pckt) ((0xFFFF0000 AND ip_suffix) OR IPIP_V4_PREFIX)
                   (w0 (real_dst dst)) (ucast pkt_bytes) IPPROTO_IPIP;
            Some (True, p) })"

text \<open>Moving the Ethernet header over the outer header and cutting that off.\<close>

definition move_eth :: "packet \<Rightarrow> nat \<Rightarrow> u16 \<Rightarrow> packet option" where
  "move_eth p new_eth h_proto = do {
     a \<leftarrow> rd p 6 6;
     p \<leftarrow> wr p (new_eth + 6) a;
     b \<leftarrow> rd p 0 6;
     p \<leftarrow> wr p new_eth b;
     st16 p (new_eth + 12) h_proto
   }"

definition cut_head :: "'e bpf_env_scheme \<Rightarrow> packet \<Rightarrow> int \<Rightarrow> bool \<times> packet" where
  "cut_head env p d =
     (case bpf_xdp_adjust_head env p d of None \<Rightarrow> (False, p) | Some p' \<Rightarrow> (True, p'))"

definition decap_v6 :: "'e bpf_env_scheme \<Rightarrow> packet \<Rightarrow> bool \<Rightarrow> (bool \<times> packet) option" where
  "decap_v6 env p inner_v4 = do {
     p \<leftarrow> move_eth p 40 (if inner_v4 then BE_ETH_P_IP else BE_ETH_P_IPV6);
     Some (cut_head env p 40)
   }"

definition decap_v4 :: "'e bpf_env_scheme \<Rightarrow> packet \<Rightarrow> (bool \<times> packet) option" where
  "decap_v4 env p = do {
     p \<leftarrow> move_eth p 20 BE_ETH_P_IP;
     Some (cut_head env p 20)
   }"

section \<open>pckt\_encap.h: GUE\<close>

definition gue_csum ::
  "'e bpf_env_scheme \<Rightarrow> packet \<Rightarrow> bool \<Rightarrow> bool \<Rightarrow> packet_description \<Rightarrow> u64 option option" where
  "gue_csum env data outer_v6 inner_v6 pckt = (
     let outer_ip_off = 14;
         udp_hdr_off = (if outer_v6 then outer_ip_off + 40 else outer_ip_off + 20);
         inner_ip_off = udp_hdr_off + 8;
         inner_transport_off = (if inner_v6 then inner_ip_off + 40 else inner_ip_off + 20)
     in if inner_transport_off > length data then Some None
        else do {
          csum \<leftarrow>
            (if proto (flow pckt) = IPPROTO_UDP then
               (if inner_transport_off + 8 > length data then Some None
                else map_option Some (ld16 data (inner_transport_off + 6)))
             else if proto (flow pckt) = IPPROTO_TCP then
               (if inner_transport_off + 20 > length data then Some None
                else map_option Some (ld16 data (inner_transport_off + 16)))
             else Some None);
          case csum of None \<Rightarrow> Some None
          | Some check \<Rightarrow>
              if inner_v6 then
                (if outer_ip_off + 40 > length data \<or> udp_hdr_off + 8 > length data
                    \<or> inner_ip_off + 40 > length data then Some None
                 else gue_csum_v6 env data outer_ip_off udp_hdr_off inner_ip_off (ucast check))
              else if outer_v6 then
                (if outer_ip_off + 40 > length data \<or> udp_hdr_off + 8 > length data
                    \<or> inner_ip_off + 20 > length data then Some None
                 else gue_csum_v4_in_v6 env data outer_ip_off udp_hdr_off inner_ip_off (ucast check))
              else
                (if outer_ip_off + 20 > length data \<or> udp_hdr_off + 8 > length data
                    \<or> inner_ip_off + 20 > length data then Some None
                 else gue_csum_v4 env data outer_ip_off udp_hdr_off inner_ip_off (ucast check)) })"

definition put_udp_check :: "packet \<Rightarrow> nat \<Rightarrow> u64 option \<Rightarrow> packet option" where
  "put_udp_check p udph c =
     (case c of None \<Rightarrow> Some p | Some csum \<Rightarrow> st16 p (udph + 6) (ucast (csum AND 0xFFFF)))"

definition gue_encap_v4 ::
  "'e bpf_env_scheme \<Rightarrow> katran \<Rightarrow> packet \<Rightarrow> ctl_value \<Rightarrow> packet_description \<Rightarrow> real_definition \<Rightarrow> u32
     \<Rightarrow> (bool \<times> packet) option" where
  "gue_encap_v4 env s xdp cval pckt dst pkt_bytes =
     (case pckt_srcs s V4_SRC_INDEX of
        None \<Rightarrow> Some (False, xdp)
      | Some src \<Rightarrow> (
          let ipv4_src = w0 (real_dst src);
              sport' = bswap16 (sport (flow pckt)) XOR
                       ucast (drop_bit 16 (w0 (srcv6 (flow pckt))) AND 0xFFFF)
          in case bpf_xdp_adjust_head env xdp (- 28) of
             None \<Rightarrow> Some (False, xdp)
           | Some p \<Rightarrow>
               if 14 > length p \<or> 28 + 14 > length p \<or> 14 + 20 > length p \<or> 34 + 8 > length p
               then Some (False, p)
               else do {
                 p \<leftarrow> new_eth_hdr p cval 28 BE_ETH_P_IP;
                 p \<leftarrow> create_udp_hdr p 34 sport' GUE_DPORT (ucast (pkt_bytes + 8)) 0;
                 p \<leftarrow> create_v4_hdr p 14 (tos pckt) ipv4_src (w0 (real_dst dst))
                        (ucast (pkt_bytes + 8)) IPPROTO_UDP;
                 c \<leftarrow> gue_csum env p False False pckt;
                 p \<leftarrow> put_udp_check p 34 c;
                 Some (True, p) }))"

definition gue_encap_v6 ::
  "'e bpf_env_scheme \<Rightarrow> katran \<Rightarrow> packet \<Rightarrow> ctl_value \<Rightarrow> bool \<Rightarrow> packet_description \<Rightarrow> real_definition \<Rightarrow> u32
     \<Rightarrow> (bool \<times> packet) option" where
  "gue_encap_v6 env s xdp cval is_ipv6 pckt dst pkt_bytes =
     (case pckt_srcs s V6_SRC_INDEX of
        None \<Rightarrow> Some (False, xdp)
      | Some src \<Rightarrow>
          (case bpf_xdp_adjust_head env xdp (- 48) of
             None \<Rightarrow> Some (False, xdp)
           | Some p \<Rightarrow>
               if 14 > length p \<or> 48 + 14 > length p \<or> 14 + 40 > length p \<or> 54 + 8 > length p
               then Some (False, p)
               else do {
                 p \<leftarrow> new_eth_hdr p cval 48 BE_ETH_P_IPV6;
                 let (sport', pkt_bytes) =
                   (if is_ipv6
                    then (ucast (w3 (srcv6 (flow pckt)) AND 0xFFFF) XOR sport (flow pckt),
                          pkt_bytes + (40 + 8))
                    else (ucast (drop_bit 16 (w0 (srcv6 (flow pckt))) AND 0xFFFF)
                            XOR sport (flow pckt),
                          pkt_bytes + 8));
                 p \<leftarrow> create_udp_hdr p 54 sport' GUE_DPORT (ucast pkt_bytes) 0;
                 p \<leftarrow> create_v6_hdr p 14 (tos pckt) (real_dst src) (real_dst dst)
                        (ucast pkt_bytes) IPPROTO_UDP;
                 c \<leftarrow> gue_csum env p True is_ipv6 pckt;
                 p \<leftarrow> put_udp_check p 54 c;
                 Some (True, p) }))"

definition gue_decap_v4 :: "'e bpf_env_scheme \<Rightarrow> packet \<Rightarrow> (bool \<times> packet) option" where
  "gue_decap_v4 env p = do {
     p \<leftarrow> move_eth p 28 BE_ETH_P_IP;
     Some (cut_head env p 28)
   }"

definition gue_decap_v6 :: "'e bpf_env_scheme \<Rightarrow> packet \<Rightarrow> bool \<Rightarrow> (bool \<times> packet) option" where
  "gue_decap_v6 env p inner_v4 = do {
     p \<leftarrow> move_eth p 48 (if inner_v4 then BE_ETH_P_IP else BE_ETH_P_IPV6);
     Some (cut_head env p 48)
   }"

section \<open>Bounds and lengths\<close>

lemma length_ctl_mac [simp]: "length (ctl_mac c) = 6"
  by (simp add: ctl_mac_def)

text \<open>Every builder keeps the length of the packet.\<close>

lemma st_nibble_el [len_elim]:
  "length p = N \<Longrightarrow> i < N \<Longrightarrow> (\<And>p'. length p' = N \<Longrightarrow> Q p') \<Longrightarrow> wp (st_hi p i v) Q"
  "length p = N \<Longrightarrow> i < N \<Longrightarrow> (\<And>p'. length p' = N \<Longrightarrow> Q p') \<Longrightarrow> wp (st_lo p i v) Q"
  by (auto simp: st_hi_def st_lo_def wp_simps)

lemma ipv4_csum_inline_el [len_elim]:
  "length p = N \<Longrightarrow> i + 20 \<le> N \<Longrightarrow> (\<And>c. length p = N \<Longrightarrow> Q c) \<Longrightarrow> wp (ipv4_csum_inline p i 0) Q"
  by (simp add: wp_ipv4_csum_inline)

lemma create_v4_hdr_el [len_elim]:
  "length p = N \<Longrightarrow> iph + 20 \<le> N \<Longrightarrow> (\<And>p'. length p' = N \<Longrightarrow> Q p') \<Longrightarrow>
     wp (create_v4_hdr p iph t sa da n pr) Q"
  unfolding create_v4_hdr_def by (rule wp_bindI | erule len_elim | (simp; fail))+

lemma create_v6_hdr_el [len_elim]:
  "length p = N \<Longrightarrow> ip6h + 40 \<le> N \<Longrightarrow> (\<And>p'. length p' = N \<Longrightarrow> Q p') \<Longrightarrow>
     wp (create_v6_hdr p ip6h t sa da n pr) Q"
  unfolding create_v6_hdr_def by (rule wp_bindI | erule len_elim | (simp; fail))+

lemma create_udp_hdr_el [len_elim]:
  "length p = N \<Longrightarrow> udph + 8 \<le> N \<Longrightarrow> (\<And>p'. length p' = N \<Longrightarrow> Q p') \<Longrightarrow>
     wp (create_udp_hdr p udph sp dp n c) Q"
  unfolding create_udp_hdr_def by (rule wp_bindI | erule len_elim | (simp; fail))+

lemma new_eth_hdr_el [len_elim]:
  "length p = N \<Longrightarrow> 14 \<le> N \<Longrightarrow> old + 6 \<le> N \<Longrightarrow> (\<And>p'. length p' = N \<Longrightarrow> Q p') \<Longrightarrow>
     wp (new_eth_hdr p c old h) Q"
  unfolding new_eth_hdr_def by (rule wp_bindI | erule len_elim | (simp; fail))+

lemma move_eth_el [len_elim]:
  "length p = N \<Longrightarrow> n + 14 \<le> N \<Longrightarrow> (\<And>p'. length p' = N \<Longrightarrow> Q p') \<Longrightarrow> wp (move_eth p n h) Q"
  unfolding move_eth_def by (rule wp_bindI | erule len_elim | (simp; fail))+

lemma put_udp_check_el [len_elim]:
  "length p = N \<Longrightarrow> i + 8 \<le> N \<Longrightarrow> (\<And>p'. length p' = N \<Longrightarrow> Q p') \<Longrightarrow> wp (put_udp_check p i c) Q"
  by (cases c) (auto simp: put_udp_check_def wp_simps)

lemmas builder_wp = create_v4_hdr_el [OF refl] create_v6_hdr_el [OF refl]
  create_udp_hdr_el [OF refl] new_eth_hdr_el [OF refl] move_eth_el [OF refl]
  put_udp_check_el [OF refl]

lemma gue_csum_safe [safe_intros]: "gue_csum env p o6 i6 pckt \<noteq> None"
  unfolding wp_total gue_csum_def Let_def
  by (auto simp: wp_simps intro!: gue_csum_routines_wp)

lemma encap_safe [safe_intros]:
  "encap_v6 env p c v6 pckt dst n \<noteq> None"
  "encap_v4 env p c pckt dst n \<noteq> None"
  unfolding wp_total encap_v6_def encap_v4_def Let_def
  by (auto simp: wp_ctrl intro!: builder_wp)

lemma gue_encap_safe [safe_intros]:
  "gue_encap_v6 env s p c v6 pckt dst n \<noteq> None"
  "gue_encap_v4 env s p c pckt dst n \<noteq> None"
  unfolding wp_total gue_encap_v6_def gue_encap_v4_def Let_def
  by (auto simp: wp_ctrl intro!: builder_wp wpI [OF gue_csum_safe])

lemma decap_safe [safe_intros]:
  "54 \<le> length p \<Longrightarrow> decap_v6 env p i4 \<noteq> None"
  "34 \<le> length p \<Longrightarrow> decap_v4 env p \<noteq> None"
  "42 \<le> length p \<Longrightarrow> gue_decap_v4 env p \<noteq> None"
  "62 \<le> length p \<Longrightarrow> gue_decap_v6 env p i4 \<noteq> None"
  unfolding wp_total decap_v6_def decap_v4_def gue_decap_v4_def gue_decap_v6_def
  by (auto simp: wp_ctrl intro!: builder_wp)

text \<open>A successful decapsulation shortens the packet by the outer headers.\<close>

lemma decap_wp:
  assumes "n + 14 \<le> length p"
    and "\<And>ok p'. (env_ok env \<Longrightarrow> ok \<Longrightarrow> length p' + n = length p) \<Longrightarrow> Q (ok, p')"
  shows "wp (Option.bind (move_eth p n h) (\<lambda>p. Some (cut_head env p (int n)))) Q"
proof -
  have "Q (cut_head env p' (int n))" if "length p' = length p" for p'
  proof (cases "bpf_xdp_adjust_head env p' (int n)")
    case None
    then show ?thesis using assms(2) [of False] by (simp add: cut_head_def)
  next
    case (Some p'')
    then show ?thesis
      using assms(2) [of True p''] adjust_head_shrink [OF _ Some] that
      by (simp add: cut_head_def)
  qed
  then show ?thesis using assms(1) by (simp add: wp_ctrl move_eth_el [OF refl])
qed

lemma decap_wps:
  "54 \<le> length p \<Longrightarrow> (\<And>ok p'. (env_ok env \<Longrightarrow> ok \<Longrightarrow> length p' + 40 = length p) \<Longrightarrow> Q (ok, p'))
     \<Longrightarrow> wp (decap_v6 env p i4) Q"
  "34 \<le> length p \<Longrightarrow> (\<And>ok p'. (env_ok env \<Longrightarrow> ok \<Longrightarrow> length p' + 20 = length p) \<Longrightarrow> Q (ok, p'))
     \<Longrightarrow> wp (decap_v4 env p) Q"
  "42 \<le> length p \<Longrightarrow> (\<And>ok p'. (env_ok env \<Longrightarrow> ok \<Longrightarrow> length p' + 28 = length p) \<Longrightarrow> Q (ok, p'))
     \<Longrightarrow> wp (gue_decap_v4 env p) Q"
  "62 \<le> length p \<Longrightarrow> (\<And>ok p'. (env_ok env \<Longrightarrow> ok \<Longrightarrow> length p' + 48 = length p) \<Longrightarrow> Q (ok, p'))
     \<Longrightarrow> wp (gue_decap_v6 env p i4) Q"
  unfolding decap_v6_def decap_v4_def gue_decap_v4_def gue_decap_v6_def
  by - (rule decap_wp [where n = 40, simplified] decap_wp [where n = 20, simplified]
      decap_wp [where n = 28, simplified] decap_wp [where n = 48, simplified], assumption, blast)+

end
