(* ===== verification/Katran_Icmp.thy ===== *)
theory Katran_Icmp
  imports Katran_Encap
begin

text \<open>
  ICMP handling of \<open>handle_icmp.h\<close>: echo replies, the ``packet too big'' messages the balancer
  generates, and the parsing of ICMP errors that carry the header of a flow.
\<close>

section \<open>Definitions\<close>

definition swap_mac_and_send :: "packet \<Rightarrow> (int \<times> packet) option" where
  "swap_mac_and_send data = do {
     tmp_mac \<leftarrow> rd data 6 6;
     d \<leftarrow> rd data 0 6;
     data \<leftarrow> wr data 6 d;
     data \<leftarrow> wr data 0 tmp_mac;
     Some (XDP_TX, data)
   }"

definition swap_mac :: "packet \<Rightarrow> nat \<Rightarrow> packet option" where
  "swap_mac data orig_eth = do {
     d \<leftarrow> rd data orig_eth 6;
     data \<leftarrow> wr data 6 d;
     s \<leftarrow> rd data (orig_eth + 6) 6;
     data \<leftarrow> wr data 0 s;
     h \<leftarrow> ld16 data (orig_eth + 12);
     st16 data 12 h
   }"

definition send_icmp_reply :: "packet \<Rightarrow> (int \<times> packet) option" where
  "send_icmp_reply data =
     (if 14 + 20 + 8 > length data then Some (XDP_DROP, data)
      else do {
        data \<leftarrow> st8 data 34 ICMP_ECHOREPLY;
        checksum \<leftarrow> ld16 data 36;
        data \<leftarrow> st16 data 36 (checksum + 8);
        data \<leftarrow> st8 data (14 + 8) DEFAULT_TTL;
        tmp_addr \<leftarrow> ld32 data (14 + 16);
        saddr \<leftarrow> ld32 data (14 + 12);
        data \<leftarrow> st32 data (14 + 16) saddr;
        data \<leftarrow> st32 data (14 + 12) tmp_addr;
        data \<leftarrow> st16 data (14 + 10) 0;
        csum \<leftarrow> ipv4_csum_inline data 14 0;
        data \<leftarrow> st16 data (14 + 10) (ucast csum);
        swap_mac_and_send data })"

definition send_icmp6_reply :: "packet \<Rightarrow> (int \<times> packet) option" where
  "send_icmp6_reply data =
     (if 14 + 40 + 8 > length data then Some (XDP_DROP, data)
      else do {
        data \<leftarrow> st8 data 54 ICMPV6_ECHO_REPLY;
        cksum \<leftarrow> ld16 data 56;
        data \<leftarrow> st16 data 56 (cksum - 1);
        data \<leftarrow> st8 data (14 + 7) DEFAULT_TTL;
        tmp_addr \<leftarrow> rd data (14 + 8) 16;
        daddr \<leftarrow> rd data (14 + 24) 16;
        data \<leftarrow> wr data (14 + 8) daddr;
        data \<leftarrow> wr data (14 + 24) tmp_addr;
        swap_mac_and_send data })"

definition send_icmp4_too_big :: "'e bpf_env_scheme \<Rightarrow> packet \<Rightarrow> (int \<times> packet) option" where
  "send_icmp4_too_big env xdp = (
     let headroom = 20 + 8
     in case bpf_xdp_adjust_head env xdp (- int headroom) of
        None \<Rightarrow> Some (XDP_DROP, xdp)
      | Some data \<Rightarrow>
          if ICMP_TOOBIG_SIZE + headroom > length data then Some (XDP_DROP, data)
          else do {
            data \<leftarrow> swap_mac data headroom;
            let iph = 14; let icmp_hdr = iph + 20; let orig_iph = icmp_hdr + 8;
            data \<leftarrow> st8 data icmp_hdr ICMP_DEST_UNREACH;
            data \<leftarrow> st8 data (icmp_hdr + 1) ICMP_FRAG_NEEDED;
            data \<leftarrow> st16 data (icmp_hdr + 6) (bswap16 (of_nat (MAX_PCKT_SIZE - 14)));
            data \<leftarrow> st16 data (icmp_hdr + 2) 0;
            csum \<leftarrow> ipv4_csum env data icmp_hdr ICMP_TOOBIG_PAYLOAD_SIZE 0;
            data \<leftarrow> st16 data (icmp_hdr + 2) (ucast csum);
            data \<leftarrow> st8 data (iph + 8) DEFAULT_TTL;
            saddr \<leftarrow> ld32 data (orig_iph + 12);
            data \<leftarrow> st32 data (iph + 16) saddr;
            daddr \<leftarrow> ld32 data (orig_iph + 16);
            data \<leftarrow> st32 data (iph + 12) daddr;
            data \<leftarrow> st_hi data iph 4;
            data \<leftarrow> st_lo data iph 5;
            data \<leftarrow> st8 data (iph + 9) IPPROTO_ICMP;
            data \<leftarrow> st8 data (iph + 1) 0;
            data \<leftarrow> st16 data (iph + 2) (bswap16 (of_nat (ICMP_TOOBIG_SIZE + headroom - 14)));
            data \<leftarrow> st16 data (iph + 10) 0;
            csum \<leftarrow> ipv4_csum env data iph 20 0;
            data \<leftarrow> st16 data (iph + 10) (ucast csum);
            Some (XDP_TX, data) })"

definition send_icmp6_too_big :: "'e bpf_env_scheme \<Rightarrow> packet \<Rightarrow> (int \<times> packet) option" where
  "send_icmp6_too_big env xdp = (
     let headroom = 40 + 8
     in case bpf_xdp_adjust_head env xdp (- int headroom) of
        None \<Rightarrow> Some (XDP_DROP, xdp)
      | Some data \<Rightarrow>
          if ICMP6_TOOBIG_SIZE + headroom > length data then Some (XDP_DROP, data)
          else do {
            data \<leftarrow> swap_mac data headroom;
            let ip6h = 14; let icmp6_hdr = ip6h + 40; let orig_ip6h = icmp6_hdr + 8;
            data \<leftarrow> st_hi data ip6h 6;
            data \<leftarrow> st_lo data ip6h 0;
            data \<leftarrow> st8 data (ip6h + 6) IPPROTO_ICMPV6;
            data \<leftarrow> st8 data (ip6h + 7) DEFAULT_TTL;
            data \<leftarrow> st16 data (ip6h + 4) (bswap16 (of_nat ICMP6_TOOBIG_PAYLOAD_SIZE));
            data \<leftarrow> wr data (ip6h + 1) [0, 0, 0];
            saddr \<leftarrow> rd data (orig_ip6h + 8) 16;
            data \<leftarrow> wr data (ip6h + 24) saddr;
            daddr \<leftarrow> rd data (orig_ip6h + 24) 16;
            data \<leftarrow> wr data (ip6h + 8) daddr;
            data \<leftarrow> st8 data icmp6_hdr ICMPV6_PKT_TOOBIG;
            data \<leftarrow> st8 data (icmp6_hdr + 1) 0;
            data \<leftarrow> st32 data (icmp6_hdr + 4) (bswap32 (of_nat (MAX_PCKT_SIZE - 14)));
            data \<leftarrow> st16 data (icmp6_hdr + 2) 0;
            csum \<leftarrow> ipv6_csum env data icmp6_hdr ICMP6_TOOBIG_PAYLOAD_SIZE 0 ip6h;
            data \<leftarrow> st16 data (icmp6_hdr + 2) (ucast csum);
            Some (XDP_TX, data) })"

definition send_icmp_too_big :: "'e bpf_env_scheme \<Rightarrow> packet \<Rightarrow> bool \<Rightarrow> int \<Rightarrow> (int \<times> packet) option" where
  "send_icmp_too_big env xdp is_ipv6 pckt_size = (
     let offset = (if is_ipv6 then pckt_size - int ICMP6_TOOBIG_SIZE
                   else pckt_size - int ICMP_TOOBIG_SIZE)
     in case bpf_xdp_adjust_tail env xdp (0 - offset) of
        None \<Rightarrow> Some (XDP_DROP, xdp)
      | Some p \<Rightarrow> if is_ipv6 then send_icmp6_too_big env p else send_icmp4_too_big env p)"

definition le_addr :: "u8 list \<Rightarrow> addr4" where
  "le_addr b = \<lparr>w0 = le_word (take 4 b), w1 = le_word (take 4 (drop 4 b)),
     w2 = le_word (take 4 (drop 8 b)), w3 = le_word (take 4 (drop 12 b))\<rparr>"

definition parse_icmpv6 ::
  "packet \<Rightarrow> nat \<Rightarrow> packet_description \<Rightarrow> (int \<times> packet_description \<times> packet) option" where
  "parse_icmpv6 data off pckt =
     (if off + 8 > length data then Some (XDP_DROP, pckt, data)
      else do {
        icmp6_type \<leftarrow> ld8 data off;
        if icmp6_type = ICMPV6_ECHO_REQUEST then do {
          (a, data) \<leftarrow> send_icmp6_reply data;
          Some (a, pckt, data) }
        else if icmp6_type \<noteq> ICMPV6_PKT_TOOBIG \<and> icmp6_type \<noteq> ICMPV6_DEST_UNREACH
        then Some (XDP_PASS, pckt, data)
        else (let off = off + 8 in
          if off + 40 > length data then Some (XDP_DROP, pckt, data)
          else do {
            nexthdr \<leftarrow> ld8 data (off + 6);
            daddr \<leftarrow> rd data (off + 24) 16;
            saddr \<leftarrow> rd data (off + 8) 16;
            Some (FURTHER_PROCESSING,
              pckt\<lparr>flow := (flow pckt)\<lparr>proto := nexthdr, srcv6 := le_addr daddr,
                                       dstv6 := le_addr saddr\<rparr>,
                   flags := flags pckt OR F_ICMP\<rparr>, data) }) })"

definition parse_icmp ::
  "packet \<Rightarrow> nat \<Rightarrow> packet_description \<Rightarrow> (int \<times> packet_description \<times> packet) option" where
  "parse_icmp data off pckt =
     (if off + 8 > length data then Some (XDP_DROP, pckt, data)
      else do {
        type \<leftarrow> ld8 data off;
        if type = ICMP_ECHO then do {
          (a, data) \<leftarrow> send_icmp_reply data;
          Some (a, pckt, data) }
        else if type \<noteq> ICMP_DEST_UNREACH then Some (XDP_PASS, pckt, data)
        else (let off = off + 8 in
          if off + 20 > length data then Some (XDP_DROP, pckt, data)
          else do {
            b \<leftarrow> ld8 data off;
            if b AND 0x0F \<noteq> 5 then Some (XDP_DROP, pckt, data)
            else do {
              protocol \<leftarrow> ld8 data (off + 9);
              daddr \<leftarrow> ld32 data (off + 16);
              saddr \<leftarrow> ld32 data (off + 12);
              Some (FURTHER_PROCESSING,
                pckt\<lparr>flow := (flow pckt)\<lparr>proto := protocol,
                       srcv6 := (srcv6 (flow pckt))\<lparr>w0 := daddr\<rparr>,
                       dstv6 := (dstv6 (flow pckt))\<lparr>w0 := saddr\<rparr>\<rparr>,
                     flags := flags pckt OR F_ICMP\<rparr>, data) } }) })"

section \<open>Bounds\<close>

lemma swap_mac_and_send_el [len_elim]:
  "length p = N \<Longrightarrow> 12 \<le> N \<Longrightarrow> (\<And>p'. length p' = N \<Longrightarrow> Q (XDP_TX, p')) \<Longrightarrow> wp (swap_mac_and_send p) Q"
  unfolding swap_mac_and_send_def by (rule wp_bindI wp_SomeI | erule len_elim | (simp; fail))+

lemma swap_mac_el [len_elim]:
  "length p = N \<Longrightarrow> 14 \<le> N \<Longrightarrow> e + 14 \<le> N \<Longrightarrow> (\<And>p'. length p' = N \<Longrightarrow> Q p') \<Longrightarrow>
     wp (swap_mac p e) Q"
  unfolding swap_mac_def by (rule wp_bindI | erule len_elim | (simp; fail))+

lemma csum_el [len_elim]:
  "length p = N \<Longrightarrow> i + n \<le> N \<Longrightarrow> (\<And>c. length p = N \<Longrightarrow> Q c) \<Longrightarrow> wp (ipv4_csum env p i n c) Q"
  "length p = N \<Longrightarrow> i + n \<le> N \<Longrightarrow> h + 40 \<le> N \<Longrightarrow> (\<And>c. length p = N \<Longrightarrow> Q c) \<Longrightarrow>
     wp (ipv6_csum env p i n c h) Q"
  by (simp_all add: ipv4_csum_def ipv6_csum_def wp_simps Let_def)

text \<open>An echo reply leaves the length of the packet and is either dropped or sent back.\<close>

lemma send_icmp_reply_wp:
  assumes "\<And>a p'. length p' = length p \<Longrightarrow> a = XDP_DROP \<or> a = XDP_TX \<Longrightarrow> Q (a, p')"
  shows "wp (send_icmp_reply p) Q"
proof -
  have "length p = N \<Longrightarrow> \<not> N < 42 \<Longrightarrow> wp (send_icmp_reply p) Q" if e: "N = length p" for N
    unfolding send_icmp_reply_def wp_if
    apply (intro conjI impI, simp)
    apply (rule wp_bindI | erule len_elim | (simp add: assms e; fail))+
    done
  moreover have "length p < 42 \<Longrightarrow> wp (send_icmp_reply p) Q"
    by (simp add: send_icmp_reply_def wp_simps assms)
  ultimately show ?thesis by blast
qed

lemma send_icmp6_reply_wp:
  assumes "\<And>a p'. length p' = length p \<Longrightarrow> a = XDP_DROP \<or> a = XDP_TX \<Longrightarrow> Q (a, p')"
  shows "wp (send_icmp6_reply p) Q"
proof -
  have "length p = N \<Longrightarrow> \<not> N < 62 \<Longrightarrow> wp (send_icmp6_reply p) Q" if e: "N = length p" for N
    unfolding send_icmp6_reply_def wp_if
    apply (intro conjI impI, simp)
    apply (rule wp_bindI | erule len_elim | (simp add: assms e; fail))+
    done
  moreover have "length p < 62 \<Longrightarrow> wp (send_icmp6_reply p) Q"
    by (simp add: send_icmp6_reply_def wp_simps assms)
  ultimately show ?thesis by blast
qed

lemma send_icmp4_too_big_safe [safe_intros]: "send_icmp4_too_big env p \<noteq> None"
  unfolding wp_total send_icmp4_too_big_def Let_def wp_case_option wp_if wp_Some
    ICMP_TOOBIG_SIZE_def ICMP_TOOBIG_PAYLOAD_SIZE_def
  apply (intro conjI allI impI TrueI)
  apply (rule wp_bindI, rule swap_mac_el [OF refl], simp, simp)
  apply (rule wp_bindI wp_SomeI TrueI | erule len_elim | (simp; fail))+
  done

lemma send_icmp6_too_big_safe [safe_intros]: "send_icmp6_too_big env p \<noteq> None"
  unfolding wp_total send_icmp6_too_big_def Let_def wp_case_option wp_if wp_Some
    ICMP6_TOOBIG_SIZE_def ICMP6_TOOBIG_PAYLOAD_SIZE_def
  apply (intro conjI allI impI TrueI)
  apply (rule wp_bindI, rule swap_mac_el [OF refl], simp, simp)
  apply (rule wp_bindI wp_SomeI TrueI | erule len_elim | (simp; fail))+
  done

lemma send_icmp_too_big_safe [safe_intros]: "send_icmp_too_big env p v6 n \<noteq> None"
  by (auto simp: send_icmp_too_big_def Let_def send_icmp4_too_big_safe [simplified]
      send_icmp6_too_big_safe [simplified] split: option.splits)

lemma parse_icmpv6_wp:
  assumes "\<And>a pckt' p'. length p' = length p \<Longrightarrow> (a < 0 \<longrightarrow> p' = p) \<Longrightarrow> Q (a, pckt', p')"
  shows "wp (parse_icmpv6 p off pckt) Q"
  unfolding parse_icmpv6_def Let_def
  by (auto simp: wp_simps assms xdp_defs FURTHER_PROCESSING_def intro!: send_icmp6_reply_wp)

lemma parse_icmp_wp:
  assumes "\<And>a pckt' p'. length p' = length p \<Longrightarrow> (a < 0 \<longrightarrow> p' = p) \<Longrightarrow> Q (a, pckt', p')"
  shows "wp (parse_icmp p off pckt) Q"
  unfolding parse_icmp_def Let_def
  by (auto simp: wp_simps assms xdp_defs FURTHER_PROCESSING_def intro!: send_icmp_reply_wp)

end
