(* ===== verification/Katran_Balancer.thy ===== *)
theory Katran_Balancer
  imports Katran_Icmp
begin

text \<open>
  The balancer program of \<open>balancer_kern.c\<close>: flood detection, choice of a real server by source
  routing, server id, connection table or consistent hashing, inline decapsulation, and the whole
  packet path \<open>process_packet\<close> with its entry point \<open>balancer_ingress\<close>.

  \<open>process_packet\<close> is cut into the phases its body has, in their order.  A phase that may end the
  program returns \<open>Inl\<close> with the verdict (and the packet and maps as they are then), or \<open>Inr\<close>
  with the variables the next phase reads.
\<close>

section \<open>Real selection\<close>

definition is_under_flood :: "katran_env \<Rightarrow> u64 \<Rightarrow> katran \<Rightarrow> bool \<times> u64 \<times> katran" where
  "is_under_flood env cur_time s = (
     let conn_rate_key = MAX_VIPS + NEW_CONN_RATE_CNTR
     in case stats s conn_rate_key of
        None \<Rightarrow> (True, cur_time, s)
      | Some cr \<Rightarrow> (
          let t = bpf_ktime_get_ns env (clk s); s = s\<lparr>clk := Suc (clk s)\<rparr>
          in if t - v2 cr > ONE_SEC
             then (False, t, s\<lparr>stats := (stats s)(conn_rate_key \<mapsto> cr\<lparr>v1 := 1, v2 := t\<rparr>)\<rparr>)
             else (let n = v1 cr + 1;
                       s = s\<lparr>stats := (stats s)(conn_rate_key \<mapsto> cr\<lparr>v1 := n\<rparr>)\<rparr>
                   in (n > MAX_CONN_RATE, t, s))))"

text \<open>The \<open>LPM_SRC_LOOKUP\<close> block of \<open>get_packet_dst\<close>: the real found for the source prefix.\<close>

definition src_routing ::
  "build \<Rightarrow> packet_description \<Rightarrow> vip_meta \<Rightarrow> bool \<Rightarrow> bool \<Rightarrow> katran \<Rightarrow> u32 option \<times> katran" where
  "src_routing cfg pckt vip_info is_ipv6 under_flood s =
     (if LPM_SRC_LOOKUP cfg \<and> vip_flags vip_info AND F_SRC_ROUTING \<noteq> 0 \<and> \<not> under_flood then
        (let lpm_val = (if is_ipv6
                        then lpm_src_v6 s \<lparr>prefixlen6 = 128, lpm_addr6 = srcv6 (flow pckt)\<rparr>
                        else lpm_src_v4 s \<lparr>prefixlen4 = 32, lpm_addr4 = w0 (srcv6 (flow pckt))\<rparr>);
             stats_key = MAX_VIPS + LPM_SRC_CNTRS
         in (lpm_val, if lpm_val \<noteq> None then add_v2 stats_key 1 s else add_v1 stats_key 1 s))
      else (None, s))"

definition get_packet_dst ::
  "build \<Rightarrow> katran_env \<Rightarrow> real_definition option \<Rightarrow> packet_description \<Rightarrow> vip_meta \<Rightarrow> bool
     \<Rightarrow> lru_ref option \<Rightarrow> katran
     \<Rightarrow> bool \<times> real_definition option \<times> packet_description \<times> katran" where
  "get_packet_dst cfg env real pckt vip_info is_ipv6 lru_map s = (
     let (under_flood, cur_time, s) = is_under_flood env 0 s;
         (src_found, s) = src_routing cfg pckt vip_info is_ipv6 under_flood s;
         pckt = (if src_found = None \<and> vip_flags vip_info AND F_HASH_DPORT_ONLY \<noteq> 0
                 then pckt\<lparr>flow := (flow pckt)\<lparr>sport := dport (flow pckt), srcv6 := addr0\<rparr>\<rparr>
                 else pckt);
         found = (case src_found of
            Some key \<Rightarrow> Some key
          | None \<Rightarrow> (let hash = get_packet_hash pckt is_ipv6 mod RING_SIZE;
                         key = RING_SIZE * vip_num vip_info + hash
                     in ch_rings s key))
     in case found of
        None \<Rightarrow> (False, real, pckt, s)
      | Some key \<Rightarrow> (
          let pckt = pckt\<lparr>real_index := key\<rparr>; real = reals s key
          in if real = None then (False, real, pckt, s)
             else case lru_map of
               Some r \<Rightarrow>
                 if vip_flags vip_info AND F_LRU_BYPASS = 0 \<and> \<not> under_flood then
                   (True, real, pckt,
                    lru_put env s r (flow pckt)
                      \<lparr>pos = key, atime = (if proto (flow pckt) = IPPROTO_UDP then cur_time else 0)\<rparr>)
                 else (True, real, pckt, s)
             | None \<Rightarrow> (True, real, pckt, s)))"

definition connection_table_lookup ::
  "katran_env \<Rightarrow> real_definition option \<Rightarrow> packet_description \<Rightarrow> lru_ref \<Rightarrow> bool \<Rightarrow> katran
     \<Rightarrow> real_definition option \<times> packet_description \<times> katran" where
  "connection_table_lookup env real pckt lru_map isGlobalLru s =
     (case lru_lookup s lru_map (flow pckt) of
        None \<Rightarrow> (real, pckt, s)
      | Some dst_lru \<Rightarrow>
          if \<not> isGlobalLru \<and> proto (flow pckt) = IPPROTO_UDP then
            (let cur_time = bpf_ktime_get_ns env (clk s); s = s\<lparr>clk := Suc (clk s)\<rparr>
             in if cur_time - atime dst_lru > LRU_UDP_TIMEOUT then (real, pckt, s)
                else (let s = lru_poke s lru_map (flow pckt) (dst_lru\<lparr>atime := cur_time\<rparr>);
                          key = pos dst_lru
                      in (reals s key, pckt\<lparr>real_index := key\<rparr>, s)))
          else (let key = pos dst_lru in (reals s key, pckt\<lparr>real_index := key\<rparr>, s)))"

section \<open>L3 headers\<close>

definition process_l3_headers ::
  "packet_description \<Rightarrow> nat \<Rightarrow> packet \<Rightarrow> bool
     \<Rightarrow> (int \<times> packet_description \<times> u16 \<times> packet) option" where
  "process_l3_headers pckt off data is_ipv6 =
     (if is_ipv6 then
        (if off + 40 > length data then Some (XDP_DROP, pckt, 0, data)
         else do {
           nexthdr \<leftarrow> ld8 data (off + 6);
           let pckt = pckt\<lparr>flow := (flow pckt)\<lparr>proto := nexthdr\<rparr>\<rparr>;
           b \<leftarrow> ld8 data off;
           lbl \<leftarrow> ld8 data (off + 1);
           let pckt = pckt\<lparr>tos := (push_bit 4 (b AND 0x0F) AND 0xF0) OR (drop_bit 4 lbl AND 0x0F)\<rparr>;
           payload_len \<leftarrow> ld16 data (off + 4);
           let pkt_bytes = bswap16 payload_len;
           if nexthdr = IPPROTO_FRAGMENT then Some (XDP_DROP, pckt, pkt_bytes, data)
           else if nexthdr = IPPROTO_ICMPV6 then do {
             (action, pckt, data) \<leftarrow> parse_icmpv6 data (off + 40) pckt;
             if action \<ge> 0 then Some (action, pckt, pkt_bytes, data)
             else Some (FURTHER_PROCESSING, pckt, pkt_bytes, data) }
           else do {
             saddr \<leftarrow> rd data (off + 8) 16;
             daddr \<leftarrow> rd data (off + 24) 16;
             Some (FURTHER_PROCESSING,
               pckt\<lparr>flow := (flow pckt)\<lparr>srcv6 := le_addr saddr, dstv6 := le_addr daddr\<rparr>\<rparr>,
               pkt_bytes, data) } })
      else
        (if off + 20 > length data then Some (XDP_DROP, pckt, 0, data)
         else do {
           b \<leftarrow> ld8 data off;
           if b AND 0x0F \<noteq> 5 then Some (XDP_DROP, pckt, 0, data)
           else do {
             tos' \<leftarrow> ld8 data (off + 1);
             let pckt = pckt\<lparr>tos := tos'\<rparr>;
             protocol \<leftarrow> ld8 data (off + 9);
             let pckt = pckt\<lparr>flow := (flow pckt)\<lparr>proto := protocol\<rparr>\<rparr>;
             tot_len \<leftarrow> ld16 data (off + 2);
             let pkt_bytes = bswap16 tot_len;
             frag_off \<leftarrow> ld16 data (off + 6);
             if frag_off AND PCKT_FRAGMENTED \<noteq> 0 then Some (XDP_DROP, pckt, pkt_bytes, data)
             else if protocol = IPPROTO_ICMP then do {
               (action, pckt, data) \<leftarrow> parse_icmp data (off + 20) pckt;
               if action \<ge> 0 then Some (action, pckt, pkt_bytes, data)
               else Some (FURTHER_PROCESSING, pckt, pkt_bytes, data) }
             else do {
               saddr \<leftarrow> ld32 data (off + 12);
               daddr \<leftarrow> ld32 data (off + 16);
               Some (FURTHER_PROCESSING,
                 pckt\<lparr>flow := (flow pckt)\<lparr>srcv6 := (srcv6 (flow pckt))\<lparr>w0 := saddr\<rparr>,
                                          dstv6 := (dstv6 (flow pckt))\<lparr>w0 := daddr\<rparr>\<rparr>\<rparr>,
                 pkt_bytes, data) } } }))"

section \<open>Decapsulation\<close>

definition check_decap_dst ::
  "packet_description \<Rightarrow> bool \<Rightarrow> bool \<Rightarrow> katran \<Rightarrow> int \<times> bool \<times> katran" where
  "check_decap_dst pckt is_ipv6 pass s = (
     let dst_addr = (if is_ipv6 then dstv6 (flow pckt) else addr0\<lparr>w0 := w0 (dstv6 (flow pckt))\<rparr>)
     in case decap_dst s dst_addr of
        None \<Rightarrow> (FURTHER_PROCESSING, pass, s)
      | Some _ \<Rightarrow> (
          let stats_key = MAX_VIPS + REMOTE_ENCAP_CNTRS
          in if stats s stats_key = None then (XDP_DROP, False, s)
             else (FURTHER_PROCESSING, False, add_v1 stats_key 1 s)))"

text \<open>The common end of both decapsulation routines.\<close>

definition decap_finish :: "katran \<Rightarrow> int \<Rightarrow> bool \<Rightarrow> ret" where
  "decap_finish s action pass =
     (if action \<ge> 0 then Ret action else if pass then Ret XDP_PASS else recirculate s)"

text \<open>
  With a protocol that is neither IPIP nor IPv6 the code would read the uninitialised variable
  \<open>action\<close>; no caller does that.
\<close>

definition process_encaped_ipip_pckt ::
  "katran_env \<Rightarrow> packet \<Rightarrow> bool \<Rightarrow> u8 \<Rightarrow> bool \<Rightarrow> katran \<Rightarrow> (ret \<times> packet) option" where
  "process_encaped_ipip_pckt env data is_ipv6 protocol pass s =
     (if protocol = IPPROTO_IPIP then
        (if is_ipv6 then
           (if 40 + 14 > length data then Some (Ret XDP_DROP, data)
            else do {
              (action, data) \<leftarrow> decrement_ttl data 54 False;
              (ok, data) \<leftarrow> decap_v6 env data True;
              if \<not> ok then Some (Ret XDP_DROP, data) else Some (decap_finish s action pass, data) })
         else
           (if 20 + 14 > length data then Some (Ret XDP_DROP, data)
            else do {
              (action, data) \<leftarrow> decrement_ttl data 34 False;
              (ok, data) \<leftarrow> decap_v4 env data;
              if \<not> ok then Some (Ret XDP_DROP, data) else Some (decap_finish s action pass, data) }))
      else if protocol = IPPROTO_IPV6 then
        (if 40 + 14 > length data then Some (Ret XDP_DROP, data)
         else do {
           (action, data) \<leftarrow> decrement_ttl data 54 True;
           (ok, data) \<leftarrow> decap_v6 env data False;
           if \<not> ok then Some (Ret XDP_DROP, data) else Some (decap_finish s action pass, data) })
      else None)"

definition process_encaped_gue_pckt ::
  "katran_env \<Rightarrow> packet \<Rightarrow> bool \<Rightarrow> bool \<Rightarrow> katran \<Rightarrow> (ret \<times> packet) option" where
  "process_encaped_gue_pckt env data is_ipv6 pass s =
     (if is_ipv6 then
        (let offset = 40 + 14 + 8 in
         if offset + 1 > length data then Some (Ret XDP_DROP, data)
         else do {
           v6 \<leftarrow> ld8 data offset;
           if v6 AND GUEV1_IPV6MASK \<noteq> 0 then do {
             (action, data) \<leftarrow> decrement_ttl data offset True;
             (ok, data) \<leftarrow> gue_decap_v6 env data False;
             if \<not> ok then Some (Ret XDP_DROP, data) else Some (decap_finish s action pass, data) }
           else do {
             (action, data) \<leftarrow> decrement_ttl data offset False;
             (ok, data) \<leftarrow> gue_decap_v6 env data True;
             if \<not> ok then Some (Ret XDP_DROP, data) else Some (decap_finish s action pass, data) } })
      else
        (let offset = 20 + 14 + 8 in
         if offset > length data then Some (Ret XDP_DROP, data)
         else do {
           (action, data) \<leftarrow> decrement_ttl data offset False;
           (ok, data) \<leftarrow> gue_decap_v4 env data;
           if \<not> ok then Some (Ret XDP_DROP, data) else Some (decap_finish s action pass, data) }))"

section \<open>Global connection table\<close>

text \<open>The loop returns in its first iteration.\<close>

definition reals_have_same_addr :: "real_definition \<Rightarrow> real_definition \<Rightarrow> bool" where
  "reals_have_same_addr a b =
     (if real_flags a \<noteq> real_flags b then False
      else if real_flags a AND F_IPV6 \<noteq> 0 then
        (if w0 (real_dst a) \<noteq> w0 (real_dst b) then False else True)
      else w0 (real_dst a) = w0 (real_dst b))"

definition perform_global_lru_lookup ::
  "build \<Rightarrow> katran_env \<Rightarrow> real_definition option \<Rightarrow> packet_description \<Rightarrow> u32 \<Rightarrow> vip_meta \<Rightarrow> bool
     \<Rightarrow> katran \<Rightarrow> int \<times> real_definition option \<times> packet_description \<times> katran" where
  "perform_global_lru_lookup cfg env dst pckt cpu_num vip_info is_ipv6 s = (
     let global_lru_stats_key = MAX_VIPS + GLOBAL_LRU_CNTR
     in if stats s global_lru_stats_key = None then (XDP_DROP, dst, pckt, s)
        else (
          let (g_lru_map, s) = (if global_lru_maps s cpu_num = None
                                then (Glru_fallback, add_v1 global_lru_stats_key 1 s)
                                else (Glru_cpu cpu_num, s));
              (dst, pckt, s) = connection_table_lookup env dst pckt g_lru_map True s
          in case dst of
             None \<Rightarrow> (FURTHER_PROCESSING, dst, pckt, s)
           | Some d \<Rightarrow> (
               let s = add_v2 global_lru_stats_key 1 s;
                   (found, dst_consistent_hash, pckt, s) =
                     get_packet_dst cfg env None pckt vip_info is_ipv6 None s
               in if found then
                    (let key = MAX_VIPS + GLOBAL_LRU_MISMATCH_CNTR
                     in case dst_consistent_hash of
                        None \<Rightarrow> (FURTHER_PROCESSING, dst, pckt, s)
                      | Some ch \<Rightarrow>
                          (FURTHER_PROCESSING, dst, pckt,
                           if reals_have_same_addr ch d then add_v1 key 1 s else add_v2 key 1 s))
                  else (FURTHER_PROCESSING, dst, pckt, s))))"

section \<open>QUIC counters\<close>

definition increment_quic_cid_version_stats :: "int \<Rightarrow> katran \<Rightarrow> katran" where
  "increment_quic_cid_version_stats host_id s = (
     let key = MAX_VIPS + QUIC_CID_VERSION_STATS
     in if host_id > QUIC_CONNID_VERSION_V1_MAX_VAL then add_v2 key 1 s else add_v1 key 1 s)"

definition increment_quic_cid_drop_no_real :: "katran \<Rightarrow> katran" where
  "increment_quic_cid_drop_no_real s = add_v1 (MAX_VIPS + QUIC_CID_DROP_STATS) 1 s"

definition increment_quic_cid_drop_real_0 :: "katran \<Rightarrow> katran" where
  "increment_quic_cid_drop_real_0 s = add_v2 (MAX_VIPS + QUIC_CID_DROP_STATS) 1 s"

section \<open>process\_packet\<close>

text \<open>Inline IPIP decapsulation of packets addressed to it.\<close>

definition pp_decap ::
  "katran_env \<Rightarrow> packet \<Rightarrow> bool \<Rightarrow> packet_description \<Rightarrow> katran \<Rightarrow> (ret \<times> packet \<times> katran) option" where
  "pp_decap env data is_ipv6 pckt s = (
     let (action, pass, s) = check_decap_dst pckt is_ipv6 True s
     in if action \<ge> 0 then Some (Ret action, data, s)
        else do {
          (r, data) \<leftarrow> process_encaped_ipip_pckt env data is_ipv6 (proto (flow pckt)) pass s;
          Some (r, data, s) })"

definition pp_decap_gue ::
  "katran_env \<Rightarrow> packet \<Rightarrow> bool \<Rightarrow> packet_description \<Rightarrow> katran \<Rightarrow> (ret \<times> packet \<times> katran) option" where
  "pp_decap_gue env data is_ipv6 pckt s = (
     let (action, pass, s) = check_decap_dst pckt is_ipv6 True s
     in if action \<ge> 0 then Some (Ret action, data, s)
        else do {
          (r, data) \<leftarrow> process_encaped_gue_pckt env data is_ipv6 pass s;
          Some (r, data, s) })"

text \<open>Transport header; packets of other protocols go to the stack.\<close>

definition pp_transport ::
  "build \<Rightarrow> katran_env \<Rightarrow> packet \<Rightarrow> bool \<Rightarrow> packet_description \<Rightarrow> katran
     \<Rightarrow> ((ret \<times> packet \<times> katran) + packet_description) option" where
  "pp_transport cfg env data is_ipv6 pckt s = (
     let protocol = proto (flow pckt)
     in if INLINE_DECAP_IPIP cfg \<and> (protocol = IPPROTO_IPIP \<or> protocol = IPPROTO_IPV6)
        then map_option Inl (pp_decap env data is_ipv6 pckt s)
        else if protocol = IPPROTO_TCP then do {
          (ok, pckt) \<leftarrow> parse_tcp data is_ipv6 pckt;
          if \<not> ok then Some (Inl (Ret XDP_DROP, data, s)) else Some (Inr pckt) }
        else if protocol = IPPROTO_UDP then do {
          (ok, pckt) \<leftarrow> parse_udp data is_ipv6 pckt;
          if \<not> ok then Some (Inl (Ret XDP_DROP, data, s))
          else if INLINE_DECAP_GUE cfg \<and> dport (flow pckt) = bswap16 GUE_DPORT
          then map_option Inl (pp_decap_gue env data is_ipv6 pckt s)
          else Some (Inr pckt) }
        else Some (Inl (Ret XDP_PASS, data, s)))"

text \<open>The VIP, with its port and then for all ports.\<close>

definition pp_vip ::
  "bool \<Rightarrow> packet_description \<Rightarrow> katran \<Rightarrow> (vip_meta \<times> packet_description) option" where
  "pp_vip is_ipv6 pckt s = (
     let addr = (if is_ipv6 then dstv6 (flow pckt) else addr0\<lparr>w0 := w0 (dstv6 (flow pckt))\<rparr>);
         v = \<lparr>vip = addr, vip_port = dport (flow pckt), vip_proto = proto (flow pckt)\<rparr>
     in case vip_map s v of
        Some vip_info \<Rightarrow> Some (vip_info, pckt)
      | None \<Rightarrow>
          (case vip_map s (v\<lparr>vip_port := 0\<rparr>) of
             None \<Rightarrow> None
           | Some vip_info \<Rightarrow>
               Some (vip_info,
                 if vip_flags vip_info AND F_HASH_DPORT_ONLY = 0
                 then pckt\<lparr>flow := (flow pckt)\<lparr>dport := 0\<rparr>\<rparr> else pckt)))"

text \<open>A packet that would not fit after encapsulation.\<close>

definition pp_toobig ::
  "build \<Rightarrow> katran_env \<Rightarrow> packet \<Rightarrow> bool \<Rightarrow> katran \<Rightarrow> (ret \<times> packet \<times> katran) option" where
  "pp_toobig cfg env data is_ipv6 s = (
     let s = report_event cfg PACKET_TOOBIG data s
     in if ICMP_TOOBIG_GENERATION cfg then
          (let stats_key = MAX_VIPS + ICMP_TOOBIG_CNTRS
           in if stats s stats_key = None then Some (Ret XDP_DROP, data, s)
              else (let s = (if is_ipv6 then add_v2 stats_key 1 s else add_v1 stats_key 1 s)
                    in do {
                      (a, data) \<leftarrow> send_icmp_too_big env data is_ipv6 (int (length data));
                      Some (Ret a, data, s) }))
        else Some (Ret XDP_DROP, data, s))"

text \<open>Routing by the server id in a QUIC connection id.\<close>

definition pp_quic ::
  "build \<Rightarrow> packet \<Rightarrow> bool \<Rightarrow> packet_description \<Rightarrow> vip_meta \<Rightarrow> katran
     \<Rightarrow> ((ret \<times> katran) + (real_definition option \<times> packet_description \<times> katran)) option" where
  "pp_quic cfg data is_ipv6 pckt vip_info s =
     (if vip_flags vip_info AND F_QUIC_VIP = 0 then Some (Inr (None, pckt, s))
      else (let quic_stats_key = MAX_VIPS + QUIC_ROUTE_STATS
        in if stats s quic_stats_key = None then Some (Inl (Ret XDP_DROP, s))
           else do {
             real_idx \<leftarrow> parse_quic data is_ipv6 pckt;
             if real_idx > 0 then
               (let s = increment_quic_cid_version_stats real_idx s; key = (of_int real_idx :: u32)
                in case server_id_map s key of
                   None \<Rightarrow> Some (Inr (None, pckt, add_v1 quic_stats_key 1 s))
                 | Some key \<Rightarrow>
                     if key = 0 then
                       Some (Inr (None, pckt,
                         add_v1 quic_stats_key 1 (increment_quic_cid_drop_real_0 s)))
                     else (let pckt = pckt\<lparr>real_index := key\<rparr>
                       in case reals s key of
                          None \<Rightarrow>
                            Some (Inl (Ret XDP_DROP,
                              report_event cfg QUIC_PACKET_DROP_NO_REAL data
                                (increment_quic_cid_drop_no_real s)))
                        | Some dst \<Rightarrow> Some (Inr (Some dst, pckt, add_v2 quic_stats_key 1 s))))
             else Some (Inr (None, pckt, add_v1 quic_stats_key 1 s)) }))"

text \<open>The connection table of this CPU, or the fallback table.\<close>

definition pp_lru_map :: "katran_env \<Rightarrow> katran \<Rightarrow> (lru_ref \<times> katran) option" where
  "pp_lru_map env s = (
     let cpu_num = bpf_get_smp_processor_id env
     in if lru_mapping s cpu_num \<noteq> None then Some (Lru_cpu cpu_num, s)
        else (let lru_stats_key = MAX_VIPS + FALLBACK_LRU_CNTR
              in if stats s lru_stats_key = None then None
                 else Some (Lru_fallback, add_v1 lru_stats_key 1 s)))"

text \<open>Routing by the server id in a TCP option.\<close>

definition pp_tcp_server_id ::
  "build \<Rightarrow> katran_env \<Rightarrow> packet \<Rightarrow> bool \<Rightarrow> packet_description \<Rightarrow> vip_meta \<Rightarrow> lru_ref \<Rightarrow> katran
     \<Rightarrow> ((ret \<times> katran) + (real_definition option \<times> packet_description \<times> katran)) option" where
  "pp_tcp_server_id cfg env data is_ipv6 pckt vip_info lru_map s =
     (if TCP_SERVER_ID_ROUTING cfg \<and> proto (flow pckt) = IPPROTO_TCP
         \<and> flags pckt AND F_SYN_SET = 0 then
        (let routing_stats_key = MAX_VIPS + TCP_SERVER_ID_ROUTE_STATS
         in if stats s routing_stats_key = None then Some (Inl (Ret XDP_DROP, s))
            else do {
              (r, dst, pckt, s) \<leftarrow> tcp_hdr_opt_lookup env data is_ipv6 None pckt
                 (vip_flags vip_info AND F_LRU_BYPASS \<noteq> 0) lru_map s;
              Some (Inr (dst, pckt,
                if r = FURTHER_PROCESSING then add_v1 routing_stats_key 1 s
                else add_v2 routing_stats_key 1 s)) })
      else Some (Inr (None, pckt, s)))"

text \<open>Connection tables, then consistent hashing.\<close>

definition pp_tables ::
  "build \<Rightarrow> katran_env \<Rightarrow> packet \<Rightarrow> bool \<Rightarrow> real_definition option \<Rightarrow> packet_description \<Rightarrow> vip_meta
     \<Rightarrow> lru_ref \<Rightarrow> katran
     \<Rightarrow> (ret \<times> katran) + (real_definition \<times> packet_description \<times> katran)" where
  "pp_tables cfg env data is_ipv6 dst pckt vip_info lru_map s = (
     let (dst, pckt, s) =
       (if dst = None \<and> flags pckt AND F_SYN_SET = 0 \<and> vip_flags vip_info AND F_LRU_BYPASS = 0
        then connection_table_lookup env dst pckt lru_map False s else (dst, pckt, s));
       (action, dst, pckt, s) =
       (if GLOBAL_LRU_LOOKUP cfg \<and> dst = None \<and> flags pckt AND F_SYN_SET = 0
           \<and> vip_flags vip_info AND F_GLOBAL_LRU \<noteq> 0
        then perform_global_lru_lookup cfg env dst pckt (bpf_get_smp_processor_id env) vip_info is_ipv6 s
        else (FURTHER_PROCESSING, dst, pckt, s))
     in if action \<ge> 0 then Inl (Ret action, s)
        else case dst of
          Some d \<Rightarrow> Inr (d, pckt, s)
        | None \<Rightarrow> (
            let lru_stats_key = MAX_VIPS + LRU_MISS_CNTR
            in if proto (flow pckt) = IPPROTO_TCP \<and> stats s lru_stats_key = None
               then Inl (Ret XDP_DROP, s)
               else (
                 let s = (if proto (flow pckt) = IPPROTO_TCP
                          then (if flags pckt AND F_SYN_SET \<noteq> 0 then add_v1 lru_stats_key 1 s
                                else add_v2 lru_stats_key 1 (report_event cfg TCP_NONSYN_LRUMISS data s))
                          else s);
                     (ok, dst, pckt, s) = get_packet_dst cfg env None pckt vip_info is_ipv6 (Some lru_map) s
                 in if \<not> ok then Inl (Ret XDP_DROP, s)
                    else case dst of
                      None \<Rightarrow> Inl (Ret XDP_DROP, s)
                    | Some d \<Rightarrow> Inr (d, pckt, add_v2 (MAX_VIPS + LRU_CNTRS) 1 s))))"

text \<open>The whole choice of a real: QUIC first, then the block for a destination not yet known.\<close>

definition pp_select ::
  "build \<Rightarrow> katran_env \<Rightarrow> packet \<Rightarrow> bool \<Rightarrow> packet_description \<Rightarrow> vip_meta \<Rightarrow> katran
     \<Rightarrow> ((ret \<times> katran) + (real_definition \<times> u16 \<times> packet_description \<times> katran)) option" where
  "pp_select cfg env data is_ipv6 pckt vip_info s = do {
     q \<leftarrow> pp_quic cfg data is_ipv6 pckt vip_info s;
     case q of
       Inl r \<Rightarrow> Some (Inl r)
     | Inr (dst, pckt, s) \<Rightarrow> (
         let original_sport = sport (flow pckt)
         in case dst of
            Some d \<Rightarrow> Some (Inr (d, original_sport, pckt, s))
          | None \<Rightarrow> (
              let pckt = (if vip_flags vip_info AND F_HASH_NO_SRC_PORT \<noteq> 0
                          then pckt\<lparr>flow := (flow pckt)\<lparr>sport := 0\<rparr>\<rparr> else pckt)
              in case pp_lru_map env s of
                 None \<Rightarrow> Some (Inl (Ret XDP_DROP, s))
               | Some (lru_map, s) \<Rightarrow> do {
                   t \<leftarrow> pp_tcp_server_id cfg env data is_ipv6 pckt vip_info lru_map s;
                   case t of
                     Inl r \<Rightarrow> Some (Inl r)
                   | Inr (dst, pckt, s) \<Rightarrow>
                       (case pp_tables cfg env data is_ipv6 dst pckt vip_info lru_map s of
                          Inl r \<Rightarrow> Some (Inl r)
                        | Inr (d, pckt, s) \<Rightarrow> Some (Inr (d, original_sport, pckt, s))) })) }"

text \<open>Statistics and encapsulation towards the real.\<close>

definition pckt_encap ::
  "build \<Rightarrow> katran_env \<Rightarrow> katran \<Rightarrow> packet \<Rightarrow> ctl_value \<Rightarrow> bool \<Rightarrow> packet_description \<Rightarrow> real_definition
     \<Rightarrow> u32 \<Rightarrow> (bool \<times> packet) option" where
  "pckt_encap cfg env s data cval is_ipv6 pckt dst pkt_bytes =
     (if real_flags dst AND F_IPV6 \<noteq> 0 then
        (if GUE_ENCAP cfg then gue_encap_v6 env s data cval is_ipv6 pckt dst pkt_bytes
         else encap_v6 env data cval is_ipv6 pckt dst pkt_bytes)
      else
        (if GUE_ENCAP cfg then gue_encap_v4 env s data cval pckt dst pkt_bytes
         else encap_v4 env data cval pckt dst pkt_bytes))"

definition pp_forward ::
  "build \<Rightarrow> katran_env \<Rightarrow> packet \<Rightarrow> bool \<Rightarrow> real_definition \<Rightarrow> u16 \<Rightarrow> packet_description \<Rightarrow> vip_meta
     \<Rightarrow> u16 \<Rightarrow> katran \<Rightarrow> (ret \<times> packet \<times> katran) option" where
  "pp_forward cfg env data is_ipv6 dst original_sport pckt vip_info pkt_bytes s =
     (case ctl_array s 0 of
        None \<Rightarrow> Some (Ret XDP_DROP, data, s)
      | Some cval \<Rightarrow>
          if stats s (vip_num vip_info) = None then Some (Ret XDP_DROP, data, s)
          else (
            let s = add_v2 (vip_num vip_info) (ucast pkt_bytes) (add_v1 (vip_num vip_info) 1 s)
            in if reals_stats s (real_index pckt) = None then Some (Ret XDP_DROP, data, s)
               else (
                 let s = add_real_stats (real_index pckt) 1 (ucast pkt_bytes) s
                 in if LOCAL_DELIVERY_OPTIMIZATION cfg \<and> vip_flags vip_info AND F_LOCAL_VIP \<noteq> 0
                       \<and> real_flags dst AND F_LOCAL_REAL \<noteq> 0
                    then Some (Ret XDP_PASS, data, s)
                    else do {
                      let pckt = pckt\<lparr>flow := (flow pckt)\<lparr>sport := original_sport\<rparr>\<rparr>;
                      (ok, data) \<leftarrow> pckt_encap cfg env s data cval is_ipv6 pckt dst (ucast pkt_bytes);
                      if \<not> ok then Some (Ret XDP_DROP, data, s) else Some (Ret XDP_TX, data, s) })))"

definition process_packet ::
  "build \<Rightarrow> katran_env \<Rightarrow> packet \<Rightarrow> nat \<Rightarrow> bool \<Rightarrow> katran \<Rightarrow> (ret \<times> packet \<times> katran) option" where
  "process_packet cfg env data off is_ipv6 s = do {
     (action, pckt, pkt_bytes, data) \<leftarrow> process_l3_headers pckt0 off data is_ipv6;
     if action \<ge> 0 then Some (Ret action, data, s)
     else do {
       t \<leftarrow> pp_transport cfg env data is_ipv6 pckt s;
       case t of
         Inl r \<Rightarrow> Some r
       | Inr pckt \<Rightarrow>
           (case pp_vip is_ipv6 pckt s of
              None \<Rightarrow> Some (Ret XDP_PASS, data, s)
            | Some (vip_info, pckt) \<Rightarrow>
                if length data > MAX_PCKT_SIZE then pp_toobig cfg env data is_ipv6 s
                else (let stats_key = MAX_VIPS + LRU_CNTRS
                  in if stats s stats_key = None then Some (Ret XDP_DROP, data, s)
                     else do {
                       d \<leftarrow> pp_select cfg env data is_ipv6 pckt vip_info (add_v1 stats_key 1 s);
                       case d of
                         Inl (r, s) \<Rightarrow> Some (r, data, s)
                       | Inr (dst, original_sport, pckt, s) \<Rightarrow>
                           pp_forward cfg env data is_ipv6 dst original_sport pckt vip_info pkt_bytes s })) } }"

definition balancer_ingress ::
  "build \<Rightarrow> katran_env \<Rightarrow> packet \<Rightarrow> katran \<Rightarrow> (ret \<times> packet \<times> katran) option" where
  "balancer_ingress cfg env data s =
     (if 14 > length data then Some (Ret XDP_DROP, data, s)
      else do {
        eth_proto \<leftarrow> ld16 data 12;
        if eth_proto = BE_ETH_P_IP then process_packet cfg env data 14 False s
        else if eth_proto = BE_ETH_P_IPV6 then process_packet cfg env data 14 True s
        else Some (Ret XDP_PASS, data, s) })"

text \<open>
  A run with recirculation: a tail call enters the program again with the packet and maps as they
  are.  The kernel allows a bounded number of tail calls; when it refuses one,
  \<open>recirculate\<close> falls through to \<open>XDP_PASS\<close>.
\<close>

fun balancer_run ::
  "nat \<Rightarrow> build \<Rightarrow> katran_env \<Rightarrow> packet \<Rightarrow> katran \<Rightarrow> (int \<times> packet \<times> katran) option" where
  "balancer_run n cfg env data s = do {
     (r, data, s) \<leftarrow> balancer_ingress cfg env data s;
     case r of
       Ret a \<Rightarrow> Some (a, data, s)
     | TailCall _ \<Rightarrow>
         (case n of 0 \<Rightarrow> Some (XDP_PASS, data, s) | Suc m \<Rightarrow> balancer_run m cfg env data s) }"

declare balancer_run.simps [simp del]

end
