(* ===== verification/Katran_Safety.thy ===== *)
theory Katran_Safety
  imports Katran_Balancer
begin

text \<open>
  What holds of every run of the balancer: it never touches memory outside the packet, it ends
  within a number of recirculations bounded by the length of the packet, and it never writes a map
  of the control plane nor changes which counters exist.
\<close>

section \<open>Bounds\<close>

lemma decrement_ttl_wp:
  assumes "\<And>a p'. length p' = length p \<Longrightarrow> Q (a, p')"
  shows "wp (decrement_ttl p off v6) Q"
  unfolding decrement_ttl_def Let_def by (auto simp: wp_simps assms)

text \<open>Only a decapsulated packet recirculates, and it is at least an IPv4 header shorter.\<close>

definition shrinks :: "'e bpf_env_scheme \<Rightarrow> packet \<Rightarrow> ret \<times> packet \<Rightarrow> bool" where
  "shrinks env p x \<longleftrightarrow> (env_ok env \<longrightarrow> (\<forall>i. fst x = TailCall i \<longrightarrow> length (snd x) + 20 \<le> length p))"

lemma process_encaped_ipip_wp:
  assumes "pr = IPPROTO_IPIP \<or> pr = IPPROTO_IPV6"
  shows "wp (process_encaped_ipip_pckt env p v6 pr pass s) (shrinks env p)"
  using assms unfolding process_encaped_ipip_pckt_def
  by (auto simp: wp_ctrl shrinks_def proto_defs intro!: decap_wps decrement_ttl_wp)

lemma process_encaped_gue_wp:
  "wp (process_encaped_gue_pckt env p v6 pass s) (shrinks env p)"
  unfolding process_encaped_gue_pckt_def Let_def
  by (auto simp: wp_ctrl wp_ld8 shrinks_def intro!: decap_wps decrement_ttl_wp)

lemma process_l3_headers_wp:
  assumes "\<And>a pckt' n p'. length p' = length p \<Longrightarrow> (a < 0 \<longrightarrow> p' = p) \<Longrightarrow> Q (a, pckt', n, p')"
  shows "wp (process_l3_headers pckt off p v6) Q"
  unfolding process_l3_headers_def Let_def
  by (auto simp: wp_simps assms xdp_defs FURTHER_PROCESSING_def intro!: parse_icmp_wp parse_icmpv6_wp)

lemma pp_quic_safe [safe_intros]: "pp_quic cfg p v6 pckt v s \<noteq> None"
  unfolding wp_total pp_quic_def Let_def
  by (auto simp: wp_ctrl intro!: wpI [OF parse_quic_safe])

lemma pp_tcp_server_id_safe [safe_intros]: "pp_tcp_server_id cfg env p v6 pckt v r s \<noteq> None"
  unfolding wp_total pp_tcp_server_id_def Let_def
  by (auto simp: wp_ctrl intro!: wpI [OF tcp_hdr_opt_lookup_safe])

lemma pp_select_safe [safe_intros]: "pp_select cfg env p v6 pckt v s \<noteq> None"
  unfolding wp_total pp_select_def Let_def
  by (auto simp: wp_ctrl split: sum.splits intro!: wpI [OF pp_quic_safe] wpI [OF pp_tcp_server_id_safe])

lemma pckt_encap_safe [safe_intros]: "pckt_encap cfg env s p c v6 pckt dst n \<noteq> None"
  unfolding pckt_encap_def by (simp add: encap_safe gue_encap_safe del: not_None_eq)

lemma pp_forward_wp: "wp (pp_forward cfg env p v6 dst sp pckt v n s) (\<lambda>(r, p', s'). \<forall>i. r \<noteq> TailCall i)"
  unfolding pp_forward_def Let_def
  by (auto simp: wp_ctrl intro!: wpI [OF pckt_encap_safe])

text \<open>The same property of a whole run: packet and maps.\<close>

abbreviation shrinks_s :: "'e bpf_env_scheme \<Rightarrow> packet \<Rightarrow> ret \<times> packet \<times> 's \<Rightarrow> bool" where
  "shrinks_s env p x \<equiv> shrinks env p (fst x, fst (snd x))"

lemma shrinks_Ret [simp]: "shrinks env p (Ret a, p')"
  by (simp add: shrinks_def)

lemma pp_decap_wp:
  assumes "proto (flow pckt) = IPPROTO_IPIP \<or> proto (flow pckt) = IPPROTO_IPV6"
  shows "wp (pp_decap env p v6 pckt s) (shrinks_s env p)"
  unfolding pp_decap_def Let_def
  by (auto simp: wp_ctrl intro!: wp_mono [OF process_encaped_ipip_wp [OF assms]])

lemma pp_decap_gue_wp: "wp (pp_decap_gue env p v6 pckt s) (shrinks_s env p)"
  unfolding pp_decap_gue_def Let_def
  by (auto simp: wp_ctrl intro!: wp_mono [OF process_encaped_gue_wp])

lemma pp_transport_wp:
  "wp (pp_transport cfg env p v6 pckt s) (\<lambda>x. case x of Inl r \<Rightarrow> shrinks_s env p r | Inr _ \<Rightarrow> True)"
  unfolding pp_transport_def Let_def
  by (auto simp: wp_ctrl intro!: pp_decap_wp pp_decap_gue_wp wpI [OF parse_tcp_safe] wpI [OF parse_udp_safe])

lemma pp_toobig_wp: "wp (pp_toobig cfg env p v6 s) (shrinks_s env p)"
  unfolding pp_toobig_def Let_def
  by (auto simp: wp_ctrl intro!: wpI [OF send_icmp_too_big_safe])

lemma pp_forward_shrinks: "wp (pp_forward cfg env p v6 dst sp pckt v n s) (shrinks_s env p)"
  by (rule wp_mono [OF pp_forward_wp]) (auto simp: shrinks_def)

text \<open>The selection phases end the program only with a return code.\<close>

lemma pp_quic_Ret: "pp_quic cfg p v6 pckt v s = Some (Inl (r, s')) \<Longrightarrow> \<exists>a. r = Ret a"
  by (auto simp: pp_quic_def Let_def split: Option.bind_splits option.splits if_splits)

lemma pp_tcp_server_id_Ret:
  "pp_tcp_server_id cfg env p v6 pckt v l s = Some (Inl (r, s')) \<Longrightarrow> \<exists>a. r = Ret a"
  by (auto simp: pp_tcp_server_id_def Let_def split: Option.bind_splits if_splits)

lemma pp_tables_Ret:
  "pp_tables cfg env p v6 dst pckt v l s = Inl (r, s') \<Longrightarrow> \<exists>a. r = Ret a"
  unfolding pp_tables_def by (simp add: Let_def split: option.splits prod.splits if_splits; blast)

lemma pp_select_Ret:
  "pp_select cfg env p v6 pckt v s = Some (Inl (r, s')) \<Longrightarrow> \<exists>a. r = Ret a"
  by (auto simp: pp_select_def Let_def split: Option.bind_splits option.splits sum.splits
      dest!: pp_quic_Ret pp_tcp_server_id_Ret pp_tables_Ret)

lemma process_packet_wp: "wp (process_packet cfg env p off v6 s) (shrinks_s env p)"
  unfolding process_packet_def Let_def wp_bind
  apply (rule process_l3_headers_wp)
  apply (auto simp: wp_ctrl intro!: wp_mono [OF pp_transport_wp] pp_toobig_wp
     wpI [OF pp_select_safe] pp_forward_shrinks dest!: pp_select_Ret)
  done

lemma balancer_ingress_wp: "wp (balancer_ingress cfg env p s) (shrinks_s env p)"
  unfolding balancer_ingress_def by (auto simp: wp_ctrl wp_ld16 process_packet_wp)

section \<open>What the program never writes\<close>

text \<open>
  The part of the state that belongs to the control plane: every map the program only reads, and
  which keys the arrays it counts in have.
\<close>

definition config where
  "config s = (vip_map s, ch_rings s, reals s, server_id_map s, lpm_src_v4 s, lpm_src_v6 s,
     ctl_array s, decap_dst s, subprograms s, pckt_srcs s, fallback_glru s, global_lru_maps s,
     dom (stats s), dom (reals_stats s), dom (lru_mapping s))"

lemma config_add [simp]:
  "config (add_v1 k n s) = config s" "config (add_v2 k n s) = config s"
  "config (add_real_stats k n m s) = config s"
  by (auto simp: config_def add_v1_def add_v2_def add_real_stats_def dom_def)

lemma config_clk [simp]: "config (s\<lparr>clk := c\<rparr>) = config s" "config (s\<lparr>event_pipe := e\<rparr>) = config s"
  by (simp_all add: config_def)

fun own_lru :: "lru_ref \<Rightarrow> bool" where
  "own_lru (Lru_cpu c) = True" | "own_lru Lru_fallback = True" | "own_lru _ = False"

lemma config_lru_set [simp]: "own_lru r \<Longrightarrow> config (lru_set f s r k v) = config s"
  by (cases r) (auto simp: config_def dom_def)

lemma config_report_event [simp]: "config (report_event cfg e p s) = config s"
  by (simp add: report_event_def submit_event_def Let_def split: option.splits)

lemma config_is_under_flood: "is_under_flood env t s = (b, t', s') \<Longrightarrow> config s' = config s"
  by (auto simp: is_under_flood_def Let_def config_def split: option.splits if_splits)

lemma config_src_routing: "src_routing cfg pckt v v6 uf s = (k, s') \<Longrightarrow> config s' = config s"
  by (auto simp: src_routing_def Let_def split: if_splits)

lemma config_get_packet_dst:
  assumes "get_packet_dst cfg env real pckt v v6 lru s = (ok, dst, pckt', s')"
    and "\<And>r. lru = Some r \<Longrightarrow> own_lru r"
  shows "config s' = config s"
  using assms unfolding get_packet_dst_def
  by (auto simp: Let_def split: prod.splits option.splits if_splits
      dest!: config_is_under_flood config_src_routing)

lemma config_connection_table_lookup:
  assumes "connection_table_lookup env real pckt r g s = (dst, pckt', s')" and "\<not> g \<Longrightarrow> own_lru r"
  shows "config s' = config s"
  using assms by (auto simp: connection_table_lookup_def Let_def split: option.splits if_splits)

lemma config_tcp_hdr_opt_lookup:
  assumes "tcp_hdr_opt_lookup env p v6 real pckt byp r s = Some (a, dst, pckt', s')" and "own_lru r"
  shows "config s' = config s"
  using assms by (auto simp: tcp_hdr_opt_lookup_def Let_def
      split: option.splits if_splits Option.bind_splits)

lemma config_perform_global_lru_lookup:
  assumes "perform_global_lru_lookup cfg env dst pckt c v v6 s = (a, dst', pckt', s')"
  shows "config s' = config s"
  using assms by (auto simp: perform_global_lru_lookup_def Let_def split: option.splits if_splits prod.splits
     dest!: config_connection_table_lookup config_get_packet_dst)

lemma config_check_decap_dst: "check_decap_dst pckt v6 pass s = (a, b, s') \<Longrightarrow> config s' = config s"
  by (auto simp: check_decap_dst_def Let_def split: option.splits if_splits)

lemma pp_lru_map_own:
  "pp_lru_map env s = Some (r, s') \<Longrightarrow> own_lru r \<and> lru_valid s' r \<and> config s' = config s"
  by (auto simp: pp_lru_map_def Let_def split: if_splits)

lemma config_pp_quic:
  "pp_quic cfg p v6 pckt v s = Some (Inl (r, s')) \<Longrightarrow> config s' = config s"
  "pp_quic cfg p v6 pckt v s = Some (Inr (d, pckt', s')) \<Longrightarrow> config s' = config s"
  by (auto simp: pp_quic_def Let_def increment_quic_cid_version_stats_def
      increment_quic_cid_drop_no_real_def increment_quic_cid_drop_real_0_def
      split: Option.bind_splits option.splits if_splits)

lemma config_pp_tcp_server_id:
  "pp_tcp_server_id cfg env p v6 pckt v l s = Some (Inl (r, s')) \<Longrightarrow> config s' = config s"
  "pp_tcp_server_id cfg env p v6 pckt v l s = Some (Inr (d, pckt', s')) \<Longrightarrow> own_lru l \<Longrightarrow>
     config s' = config s"
  by (auto simp: pp_tcp_server_id_def Let_def split: Option.bind_splits if_splits
      dest!: config_tcp_hdr_opt_lookup)

lemma config_pp_tables:
  "pp_tables cfg env p v6 dst pckt v l s = Inl (r, s') \<Longrightarrow> own_lru l \<Longrightarrow> config s' = config s"
  "pp_tables cfg env p v6 dst pckt v l s = Inr (d, pckt', s') \<Longrightarrow> own_lru l \<Longrightarrow> config s' = config s"
  unfolding pp_tables_def
  by (auto simp: Let_def split: option.splits prod.splits if_splits
      dest!: config_connection_table_lookup config_perform_global_lru_lookup config_get_packet_dst)

lemma config_pp_select:
  "pp_select cfg env p v6 pckt v s = Some (Inl (r, s')) \<Longrightarrow> config s' = config s"
  "pp_select cfg env p v6 pckt v s = Some (Inr (d, sp, pckt', s')) \<Longrightarrow> config s' = config s"
  by (auto simp: pp_select_def Let_def split: Option.bind_splits option.splits sum.splits
      dest!: config_pp_quic config_pp_tcp_server_id config_pp_tables pp_lru_map_own)

abbreviation keeps :: "katran \<Rightarrow> 'a \<times> 'b \<times> katran \<Rightarrow> bool" where
  "keeps s x \<equiv> config (snd (snd x)) = config s"

lemma config_pp_decap:
  "pp_decap env p v6 pckt s = Some r \<Longrightarrow> keeps s r"
  "pp_decap_gue env p v6 pckt s = Some r \<Longrightarrow> keeps s r"
  by (auto simp: pp_decap_def pp_decap_gue_def Let_def split: Option.bind_splits prod.splits if_splits
      dest!: config_check_decap_dst)

lemma config_pp_transport: "pp_transport cfg env p v6 pckt s = Some (Inl r) \<Longrightarrow> keeps s r"
  by (auto simp: pp_transport_def Let_def split: Option.bind_splits if_splits dest!: config_pp_decap)

lemma config_pp_toobig: "pp_toobig cfg env p v6 s = Some r \<Longrightarrow> keeps s r"
  by (auto simp: pp_toobig_def Let_def split: Option.bind_splits if_splits)

lemma config_pp_forward: "pp_forward cfg env p v6 dst sp pckt v n s = Some r \<Longrightarrow> keeps s r"
  by (auto simp: pp_forward_def Let_def split: Option.bind_splits if_splits option.splits)

lemma config_process_packet: "process_packet cfg env p off v6 s = Some r \<Longrightarrow> keeps s r"
  unfolding process_packet_def
  by (auto simp: Let_def split: Option.bind_splits if_splits option.splits sum.splits
      dest!: config_pp_transport config_pp_toobig config_pp_select config_pp_forward)

lemma config_balancer_ingress: "balancer_ingress cfg env p s = Some r \<Longrightarrow> keeps s r"
  by (auto simp: balancer_ingress_def split: Option.bind_splits if_splits dest!: config_process_packet)

lemma config_balancer_run: "balancer_run n cfg env p s = Some r \<Longrightarrow> keeps s r"
proof (induction n cfg env p s rule: balancer_run.induct)
  case (1 n cfg env p s)
  then show ?case
    by (subst (asm) balancer_run.simps)
       (fastforce split: Option.bind_splits ret.splits nat.splits dest: config_balancer_ingress)
qed

lemma maps_ok_config: "config s' = config s \<Longrightarrow> maps_ok s' = maps_ok s"
  by (simp add: config_def maps_ok_def array_map_def dom_def set_eq_iff)

section \<open>Runs\<close>

text \<open>
  A kernel refuses the tail call after the budget of 33; here the budget is a parameter.  Each
  recirculation needs a decapsulation, so a budget of a twentieth of the packet is never used up.
\<close>

lemma balancer_run_safe: "balancer_run n cfg env p s \<noteq> None"
proof (induction n arbitrary: p s)
  case 0
  then show ?case unfolding balancer_run.simps [of 0] wp_total
    by (auto simp: wp_ctrl split: ret.splits intro!: wp_mono [OF balancer_ingress_wp])
next
  case (Suc n)
  then show ?case unfolding balancer_run.simps [of "Suc n"] wp_total
    by (auto simp: wp_ctrl split: ret.splits intro!: wp_mono [OF balancer_ingress_wp])
qed

lemma balancer_run_enough:
  assumes "env_ok env" and "length p div 20 \<le> n" and "length p div 20 \<le> m"
  shows "balancer_run n cfg env p s = balancer_run m cfg env p s"
  using assms(2,3)
proof (induction "length p" arbitrary: p s n m rule: less_induct)
  case less
  obtain r p' s' where st: "balancer_ingress cfg env p s = Some (r, p', s')"
    and sh: "shrinks env p (r, p')"
    using balancer_ingress_wp [of cfg env p s] by (auto simp: wp_def)
  show ?case
  proof (cases r)
    case (Ret a)
    then show ?thesis using st by (simp add: balancer_run.simps [of n] balancer_run.simps [of m])
  next
    case (TailCall i)
    with sh assms(1) have sm: "length p' + 20 \<le> length p" by (simp add: shrinks_def)
    then have "Suc (length p' div 20) \<le> length p div 20"
      using div_le_mono [of "length p' + 20" "length p" 20] by simp
    with less.prems obtain n' m' where nm: "n = Suc n'" "m = Suc m'"
      and "length p' div 20 \<le> n'" "length p' div 20 \<le> m'"
      by (cases n; cases m) auto
    then have "balancer_run n' cfg env p' s' = balancer_run m' cfg env p' s'"
      using sm by (intro less.hyps) auto
    then show ?thesis
      unfolding nm using st TailCall
      by (simp add: balancer_run.simps [of "Suc n'"] balancer_run.simps [of "Suc m'"])
  qed
qed

text \<open>The balancer as a program attached to an interface: no sequence of packets stops it.\<close>

interpretation balancer: packet_program
  "\<lambda>s p. balancer_run n cfg env p s" maps_ok
proof
  show "balancer_run n cfg env p s \<noteq> None" for s p
    by (rule balancer_run_safe)
  show "maps_ok s" if "maps_ok s0" and "balancer_run n cfg env p s0 = Some (r, p', s)" for s0 p r p' s
    using that config_balancer_run [OF that(2)] by (simp add: maps_ok_config [of s s0])
qed

section \<open>Properties\<close>

text \<open>C1: The balancer never reads or writes outside the packet: for every build, every kernel, every
  content of the maps and every packet a run, with all its recirculations, ends with a verdict.  Over
  any sequence of packets it also keeps the shape of its maps: every array has the indices it was
  created with.\<close>

theorem balancer_never_faults:
  assumes "maps_ok s"
  shows "\<exists>out s'. balancer.run n cfg env s ps = Some (out, s') \<and> length out = length ps \<and> maps_ok s'"
  by (rule balancer.run_total [OF assms])

theorem balancer_never_faults_witness:
  "\<exists>out s'. balancer.run 33 default_build katran_kernel loaded_maps [[], replicate 60 8] = Some (out, s') \<and>
     length out = 2 \<and> maps_ok s'"
  using balancer_never_faults [OF loaded_maps_ok, of 33 default_build katran_kernel "[[], replicate 60 8]"]
  by (simp add: numeral_2_eq_2)

text \<open>A run never writes a map of the control plane: VIPs, hash rings, reals, server ids, source
  prefixes, control values, decapsulation destinations, subprograms, tunnel sources and the global
  connection tables are after it what they were before, and no counter or connection table appears
  or disappears.\<close>

theorem balancer_keeps_config:
  assumes "balancer_run n cfg env p s = Some (a, p', s')"
  shows "config s' = config s"
  using config_balancer_run [OF assms] by simp

theorem balancer_keeps_config_witness:
  "\<exists>a p' s'. balancer_run 33 default_build katran_kernel (replicate 60 8) loaded_maps = Some (a, p', s') \<and>
     config s' = config loaded_maps"
proof -
  obtain a p' s' where r: "balancer_run 33 default_build katran_kernel (replicate 60 8) loaded_maps =
      Some (a, p', s')"
    using balancer_run_safe [of 33 default_build katran_kernel "replicate 60 8" loaded_maps] by auto
  from balancer_keeps_config [OF r] r show ?thesis by blast
qed

text \<open>C8: Recirculation ends by itself.  A packet recirculates only after a decapsulation, which makes
  it at least 20 bytes shorter, so a budget of one tail call for every 20 bytes is never used up: with
  any larger budget the run has the same result.\<close>

theorem recirculation_bounded:
  assumes "env_ok env" and "length p div 20 \<le> n"
  shows "balancer_run n cfg env p s = balancer_run (length p div 20) cfg env p s"
  using balancer_run_enough [OF assms] by simp

theorem recirculation_bounded_witness:
  "balancer_run 33 default_build katran_kernel (replicate 60 8) loaded_maps =
     balancer_run 3 default_build katran_kernel (replicate 60 8) loaded_maps"
  using recirculation_bounded [OF katran_kernel_ok(1), of "replicate 60 8" 33] by simp

end
