(* ===== verification/Katran_Affinity.thy ===== *)
theory Katran_Affinity
  imports Katran_Safety
begin

text \<open>
  The choice of a real server by \<open>get_packet_dst\<close> and the connection tables: the budget of new
  connections that \<open>is_under_flood\<close> grants, consistent hashing as a function of the configuration,
  and session affinity.
\<close>

section \<open>Connection rate\<close>

text \<open>The results of \<open>n\<close> calls in a row, \<open>True\<close> for a call that reports a flood.\<close>

fun flood_calls :: "katran_env \<Rightarrow> nat \<Rightarrow> katran \<Rightarrow> bool list \<times> katran" where
  "flood_calls env 0 s = ([], s)"
| "flood_calls env (Suc n) s =
     (case is_under_flood env 0 s of (b, _, s') \<Rightarrow>
        case flood_calls env n s' of (bs, s'') \<Rightarrow> (b # bs, s''))"

abbreviation conn_rate_key :: u32 where "conn_rate_key \<equiv> MAX_VIPS + NEW_CONN_RATE_CNTR"

lemma is_under_flood_within:
  assumes "stats s conn_rate_key = Some cr"
    and "bpf_ktime_get_ns env (clk s) - v2 cr \<le> ONE_SEC"
  shows "is_under_flood env t s = (v1 cr + 1 > MAX_CONN_RATE, bpf_ktime_get_ns env (clk s),
     s\<lparr>clk := Suc (clk s), stats := (stats s)(conn_rate_key \<mapsto> cr\<lparr>v1 := v1 cr + 1\<rparr>)\<rparr>)"
proof -
  have "\<not> bpf_ktime_get_ns env (clk s) - v2 cr > ONE_SEC" using assms(2) by simp
  then show ?thesis using assms(1) by (simp add: is_under_flood_def Let_def)
qed

lemma flood_calls_within:
  assumes "stats s conn_rate_key = Some cr"
    and "\<forall>i<n. bpf_ktime_get_ns env (clk s + i) - v2 cr \<le> ONE_SEC"
    and "unat (v1 cr) + n < 2 ^ 64"
  shows "fst (flood_calls env n s) = map (\<lambda>i. unat (v1 cr) + i \<ge> unat MAX_CONN_RATE) [0..<n]"
  using assms
proof (induction n arbitrary: s cr)
  case (Suc n)
  let ?s = "s\<lparr>clk := Suc (clk s), stats := (stats s)(conn_rate_key \<mapsto> cr\<lparr>v1 := v1 cr + 1\<rparr>)\<rparr>"
  have u: "unat (v1 cr + 1) = unat (v1 cr) + 1"
    using Suc.prems(3) by (subst unat_add_lem [THEN iffD1]) auto
  have "bpf_ktime_get_ns env (clk s) - v2 cr \<le> ONE_SEC"
    using Suc.prems(2) [rule_format, of 0] by simp
  note fl = is_under_flood_within [OF Suc.prems(1) this]
  have clk: "\<forall>i<n. bpf_ktime_get_ns env (clk ?s + i) - v2 (cr\<lparr>v1 := v1 cr + 1\<rparr>) \<le> ONE_SEC"
  proof (intro allI impI)
    fix i assume "i < n"
    then show "bpf_ktime_get_ns env (clk ?s + i) - v2 (cr\<lparr>v1 := v1 cr + 1\<rparr>) \<le> ONE_SEC"
      using Suc.prems(2) [rule_format, of "Suc i"] by simp
  qed
  have "fst (flood_calls env n ?s) = map (\<lambda>i. unat (v1 cr + 1) + i \<ge> unat MAX_CONN_RATE) [0..<n]"
    using Suc.IH [of ?s "cr\<lparr>v1 := v1 cr + 1\<rparr>"] clk Suc.prems(3) u by simp
  moreover have "[0..<Suc n] = 0 # map Suc [0..<n]" by (simp add: upt_conv_Cons map_Suc_upt)
  ultimately show ?case
    using u by (cases "flood_calls env n ?s")
      (simp add: fl word_less_nat_alt Suc_le_eq less_Suc_eq_le comp_def)
qed simp

lemma length_filter_upt_less:
  "length (filter (\<lambda>i. a + i < b) [0..<n]) = min n (b - a)"
  by (induction n) auto

text \<open>C7: Within one second of the start of a rate window, whatever the clock shows at each call,
  exactly the connections that are left of the allowed 125000 pass the flood check: of \<open>n\<close> calls of
  \<open>is_under_flood\<close> the number that report no flood is the smaller of \<open>n\<close> and the rest of the
  budget.\<close>

theorem flood_budget:
  assumes "stats s (MAX_VIPS + NEW_CONN_RATE_CNTR) = Some cr"
    and "\<forall>i<n. bpf_ktime_get_ns env (clk s + i) - v2 cr \<le> ONE_SEC"
    and "unat (v1 cr) + n < 2 ^ 64"
  shows "length (filter Not (fst (flood_calls env n s))) = min n (125000 - unat (v1 cr))"
  using length_filter_upt_less [of "unat (v1 cr)" 125000 n]
  by (simp add: flood_calls_within [OF assms] MAX_CONN_RATE_def filter_map comp_def not_le)



theorem flood_budget_witness:
  "length (filter Not (fst (flood_calls katran_kernel 3 loaded_maps))) = 3"
  using flood_budget [of loaded_maps "\<lparr>v1 = 0, v2 = 0\<rparr>" 3 katran_kernel]
  by (simp add: loaded_maps_def array_of_def cntr_defs STATS_MAP_SIZE_def katran_kernel_def kernel_env_def
      bpf_env.defs ONE_SEC_def)

section \<open>Consistent hashing\<close>

abbreviation ring_slot :: "packet_description \<Rightarrow> vip_meta \<Rightarrow> bool \<Rightarrow> u32" where
  "ring_slot pckt v v6 \<equiv> RING_SIZE * vip_num v + get_packet_hash pckt v6 mod RING_SIZE"

lemma ring_slot_less:
  assumes "vip_num v < MAX_VIPS"
  shows "unat (RING_SIZE * vip_num v + h mod RING_SIZE) = 65537 * unat (vip_num v) + unat h mod 65537"
    and "RING_SIZE * vip_num v + h mod RING_SIZE < CH_RINGS_SIZE"
proof -
  have v: "unat (vip_num v) < 512" using assms by (simp add: MAX_VIPS_def word_less_nat_alt)
  have h: "unat (h mod RING_SIZE) = unat h mod 65537" by (simp add: RING_SIZE_def unat_mod_distrib)
  have lt: "unat h mod 65537 < 65537" and two: "(2 :: nat) ^ 32 = 4294967296" by simp_all
  have m: "unat (RING_SIZE * vip_num v) = 65537 * unat (vip_num v)"
    using v by (simp add: RING_SIZE_def unat_word_ariths)
  have a: "unat (RING_SIZE * vip_num v + h mod RING_SIZE) =
      (65537 * unat (vip_num v) + unat h mod 65537) mod 2 ^ 32"
    by (simp only: unat_word_ariths(1) m h) simp
  also have "\<dots> = 65537 * unat (vip_num v) + unat h mod 65537"
    using v lt two by (intro mod_less) linarith
  finally show u: "unat (RING_SIZE * vip_num v + h mod RING_SIZE) =
      65537 * unat (vip_num v) + unat h mod 65537" .
  show "RING_SIZE * vip_num v + h mod RING_SIZE < CH_RINGS_SIZE"
    unfolding word_less_nat_alt u using v lt by (simp add: CH_RINGS_SIZE_def MAX_VIPS_def RING_SIZE_def)
qed

text \<open>With full rings every packet of a configured VIP finds a real.\<close>

lemma is_under_flood_keeps:
  "is_under_flood env t s = (b, t', s') \<Longrightarrow> config s' = config s \<and> lru_mapping s' = lru_mapping s \<and>
     fallback_cache s' = fallback_cache s"
  by (auto simp: is_under_flood_def Let_def config_def split: option.splits if_splits)

lemma src_routing_keeps:
  "src_routing cfg pckt v v6 uf s = (k, s') \<Longrightarrow> config s' = config s \<and> lru_mapping s' = lru_mapping s \<and>
     fallback_cache s' = fallback_cache s"
  by (auto simp: src_routing_def Let_def add_v1_def add_v2_def config_def split: if_splits)

lemma config_reals: "config s' = config s \<Longrightarrow> reals s' = reals s \<and> ch_rings s' = ch_rings s"
  by (simp add: config_def)

text \<open>The flow the hash and the connection table see: with \<open>F_HASH_DPORT_ONLY\<close> only the
  destination is left of it.\<close>

definition hashed :: "vip_meta \<Rightarrow> packet_description \<Rightarrow> packet_description" where
  "hashed v pckt = (if vip_flags v AND F_HASH_DPORT_ONLY \<noteq> 0
     then pckt\<lparr>flow := (flow pckt)\<lparr>sport := dport (flow pckt), srcv6 := addr0\<rparr>\<rparr> else pckt)"

text \<open>The real that consistent hashing gives, as a function of the configuration alone.\<close>

definition ch_real :: "katran \<Rightarrow> vip_meta \<Rightarrow> bool \<Rightarrow> packet_description \<Rightarrow> (u32 \<times> real_definition) option" where
  "ch_real s v v6 pckt = do {
     k \<leftarrow> ch_rings s (ring_slot (hashed v pckt) v v6);
     d \<leftarrow> reals s k;
     Some (k, d) }"

lemma get_packet_dst_eq:
  assumes "\<not> LPM_SRC_LOOKUP cfg \<or> vip_flags v AND F_SRC_ROUTING = 0"
    and "is_under_flood env 0 s = (uf, t, s1)"
  shows "get_packet_dst cfg env real pckt v v6 lru s =
    (case ch_rings s (ring_slot (hashed v pckt) v v6) of
       None \<Rightarrow> (False, real, hashed v pckt, s1)
     | Some k \<Rightarrow>
         (case reals s k of
            None \<Rightarrow> (False, None, (hashed v pckt)\<lparr>real_index := k\<rparr>, s1)
          | Some d \<Rightarrow> (True, Some d, (hashed v pckt)\<lparr>real_index := k\<rparr>,
              (case lru of
                 Some r \<Rightarrow> if vip_flags v AND F_LRU_BYPASS = 0 \<and> \<not> uf
                   then lru_put env s1 r (flow (hashed v pckt))
                     \<lparr>pos = k, atime = (if proto (flow pckt) = IPPROTO_UDP then t else 0)\<rparr>
                   else s1
               | None \<Rightarrow> s1))))"
proof -
  have k: "reals s1 = reals s" "ch_rings s1 = ch_rings s"
    using config_reals [OF config_is_under_flood [OF assms(2)]] by simp_all
  have r: "src_routing cfg pckt v v6 uf s1 = (None, s1)" using assms(1) by (auto simp: src_routing_def)
  have p: "proto (flow (hashed v pckt)) = proto (flow pckt)" by (simp add: hashed_def)
  show ?thesis unfolding get_packet_dst_def assms(2)
    by (cases "vip_flags v AND F_HASH_DPORT_ONLY = 0")
      (auto simp: r k hashed_def Let_def split: option.splits)
qed

text \<open>C6: Unless source routing applies, the real of a new connection is a function of the
  configuration and of the hashed part of the flow alone, whatever the connection tables, the
  counters and the clock hold: \<open>get_packet_dst\<close> succeeds exactly when the ring slot of the flow
  names an existing real, and then returns that real and its index.\<close>

theorem get_packet_dst_consistent:
  assumes "\<not> LPM_SRC_LOOKUP cfg \<or> vip_flags v AND F_SRC_ROUTING = 0"
    and "get_packet_dst cfg env real pckt v v6 lru s = (ok, dst, pckt', s')"
  shows "case ch_real s v v6 pckt of None \<Rightarrow> \<not> ok
     | Some (k, d) \<Rightarrow> ok \<and> dst = Some d \<and> pckt' = (hashed v pckt)\<lparr>real_index := k\<rparr>"
proof -
  obtain uf t s1 where f: "is_under_flood env 0 s = (uf, t, s1)" by (metis prod_cases3)
  show ?thesis using assms(2) unfolding get_packet_dst_eq [OF assms(1) f]
    by (cases "ch_rings s (ring_slot (hashed v pckt) v v6)"; cases "ch_real s v v6 pckt")
      (auto simp: ch_real_def split: option.splits)
qed

text \<open>With the maps the loader creates and rings that name existing reals, the ring index
  never leaves the ring array (the 32-bit arithmetic does not wrap) and every packet of a VIP
  with a valid number finds a real.\<close>

theorem get_packet_dst_finds:
  assumes "maps_ok s" and "vip_num v < MAX_VIPS"
    and "\<forall>k x. ch_rings s k = Some x \<longrightarrow> x < MAX_REALS"
    and "\<not> LPM_SRC_LOOKUP cfg \<or> vip_flags v AND F_SRC_ROUTING = 0"
  shows "\<exists>d pckt' s'. get_packet_dst cfg env real pckt v v6 lru s = (True, Some d, pckt', s')"
proof -
  obtain uf t s1 where f: "is_under_flood env 0 s = (uf, t, s1)" by (metis prod_cases3)
  obtain k where k: "ch_rings s (ring_slot (hashed v pckt) v v6) = Some k"
    using assms(1) ring_slot_less(2) [OF assms(2)] by (fastforce simp: maps_ok_def array_map_def)
  then obtain d where "reals s k = Some d"
    using assms(1,3) by (fastforce simp: maps_ok_def array_map_def)
  with k show ?thesis by (simp add: get_packet_dst_eq [OF assms(4) f])
qed

section \<open>Session affinity\<close>

lemma is_under_flood_other:
  "stats s' conn_rate_key = stats s conn_rate_key \<Longrightarrow> clk s' = clk s \<Longrightarrow>
     fst (is_under_flood env t s') = fst (is_under_flood env t s)"
  by (simp add: is_under_flood_def Let_def split: option.splits)

lemma lru_lookup_cong:
  assumes "lru_mapping s' = lru_mapping s" "fallback_cache s' = fallback_cache s"
    "global_lru_maps s' = global_lru_maps s" "fallback_glru s' = fallback_glru s"
  shows "lru_lookup s' = lru_lookup s"
proof (intro ext)
  show "lru_lookup s' r k = lru_lookup s r k" for r k using assms by (cases r) simp_all
qed

lemma lru_lookup_other [simp]:
  "lru_lookup (s\<lparr>ch_rings := R\<rparr>) = lru_lookup s" "lru_lookup (s\<lparr>vip_map := V\<rparr>) = lru_lookup s"
  "lru_lookup (add_v1 k n s) = lru_lookup s" "lru_lookup (add_v2 k n s) = lru_lookup s"
  by (rule lru_lookup_cong; simp add: add_v1_def add_v2_def)+

lemma lru_valid_cong: "lru_mapping s' = lru_mapping s \<Longrightarrow> lru_valid s' r = lru_valid s r"
  by (cases r) simp_all

lemma reals_lru_set [simp]: "reals (lru_set f s r k v) = reals s"
  by (cases r) simp_all

lemma add_other [simp]:
  "reals (add_v1 k n s) = reals s" "reals (add_v2 k n s) = reals s"
  "ch_rings (add_v1 k n s) = ch_rings s" "ch_rings (add_v2 k n s) = ch_rings s"
  "lru_mapping (add_v1 k n s) = lru_mapping s" "lru_mapping (add_v2 k n s) = lru_mapping s"
  "clk (add_v1 k n s) = clk s" "clk (add_v2 k n s) = clk s"
  by (simp_all add: add_v1_def add_v2_def)

text \<open>What the SYN leaves in the table.\<close>

lemma syn_stored:
  assumes env: "lru_update_ok (lru_update env)" and l: "lru_valid s l"
    and v: "vip_flags v AND F_LRU_BYPASS = 0" "vip_flags v AND F_HASH_DPORT_ONLY = 0"
      "\<not> LPM_SRC_LOOKUP cfg \<or> vip_flags v AND F_SRC_ROUTING = 0"
    and syn: "proto (flow pckt) = IPPROTO_TCP" "flags pckt AND F_SYN_SET \<noteq> 0"
    and nf: "\<not> fst (is_under_flood env 0 s)"
    and first: "pp_tables cfg env p v6 None pckt v l s = Inr (d, pckt', s')"
  shows "lru_lookup s' l (flow pckt) = Some \<lparr>pos = real_index pckt', atime = 0\<rparr> \<and>
     reals s' (real_index pckt') = Some d"
proof -
  let ?s = "add_v1 (MAX_VIPS + LRU_MISS_CNTR) 1 s"
  have h: "hashed v pckt = pckt" using v(2) by (simp add: hashed_def)
  have "fst (is_under_flood env 0 ?s) = fst (is_under_flood env 0 s)"
    by (rule is_under_flood_other) (simp_all add: add_v1_def cntr_defs)
  then obtain t s1 where f: "is_under_flood env 0 ?s = (False, t, s1)"
    using nf by (metis (full_types) fst_conv prod_cases3)
  have k: "reals s1 = reals s" "lru_valid s1 l"
    using is_under_flood_keeps [OF f] l config_reals [of s1 ?s]
    by (simp_all add: lru_valid_cong [of s1 s])
  from first syn v(1) k show ?thesis
    unfolding pp_tables_def Let_def
    by (auto simp: get_packet_dst_eq [OF v(3) f] h proto_defs lru_lookup_set_same [OF env k(2)]
        FURTHER_PROCESSING_def split: option.splits if_splits)
qed


definition vip3 :: vip_meta where "vip3 = \<lparr>vip_flags = 0, vip_num = 3\<rparr>"

definition syn0 :: packet_description where
  "syn0 = pckt0\<lparr>flow := (flow pckt0)\<lparr>proto := IPPROTO_TCP, sport := 1, dport := 80\<rparr>, flags := F_SYN_SET\<rparr>"

lemma loaded_ring: "ch_rings loaded_maps (ring_slot q vip3 v6) = Some 1"
  using ring_slot_less(2) [of vip3] by (simp add: vip3_def MAX_VIPS_def loaded_maps_def array_of_def)

lemma loaded_reals [simp]: "reals loaded_maps 1 = Some real1"
  by (simp add: loaded_maps_def array_of_def MAX_REALS_def)

lemma vip3_flags: "\<not> LPM_SRC_LOOKUP default_build \<or> vip_flags vip3 AND F_SRC_ROUTING = 0"
  "vip_num vip3 < MAX_VIPS"
  by (simp_all add: default_build_def vip3_def MAX_VIPS_def)

theorem get_packet_dst_consistent_witness:
  "\<exists>s'. get_packet_dst default_build katran_kernel None syn0 vip3 False None loaded_maps =
     (True, Some real1, syn0\<lparr>real_index := 1\<rparr>, s')"
proof -
  obtain ok dst pckt' s' where
    g: "get_packet_dst default_build katran_kernel None syn0 vip3 False None loaded_maps = (ok, dst, pckt', s')"
    by (metis prod_cases4)
  have "hashed vip3 syn0 = syn0" by (simp add: hashed_def vip3_def)
  then show ?thesis
    using get_packet_dst_consistent [OF vip3_flags(1) g] g by (simp add: ch_real_def loaded_ring)
qed

theorem get_packet_dst_finds_witness:
  "\<exists>d pckt' s'. get_packet_dst default_build katran_kernel None syn0 vip3 False (Some Lru_fallback)
     loaded_maps = (True, Some d, pckt', s')"
proof (rule get_packet_dst_finds [OF loaded_maps_ok vip3_flags(2) _ vip3_flags(1)])
  show "\<forall>k x. ch_rings loaded_maps k = Some x \<longrightarrow> x < MAX_REALS"
    by (simp add: loaded_maps_def array_of_def MAX_REALS_def)
qed

lemma loaded_flood:
  "\<exists>s'. is_under_flood katran_kernel 0 (add_v1 (MAX_VIPS + LRU_MISS_CNTR) 1 loaded_maps) = (False, 1000000000, s')"
  "fst (is_under_flood katran_kernel 0 loaded_maps) = False"
  by (simp_all add: is_under_flood_def Let_def add_v1_def loaded_maps_def array_of_def cntr_defs STATS_MAP_SIZE_def
      katran_kernel_def kernel_env_def bpf_env.defs ONE_SEC_def MAX_CONN_RATE_def)

lemma loaded_stats: "stats loaded_maps (MAX_VIPS + LRU_MISS_CNTR) \<noteq> None"
  by (simp add: loaded_maps_def array_of_def cntr_defs STATS_MAP_SIZE_def)

lemma syn0_sel [simp]:
  "proto (flow syn0) = IPPROTO_TCP" "flags syn0 AND F_SYN_SET \<noteq> 0" "vip_flags vip3 = 0"
  "GLOBAL_LRU_LOOKUP default_build = False"
  by (simp_all add: syn0_def vip3_def flag_defs default_build_def)

lemma syn0_first:
  "\<exists>s'. pp_tables default_build katran_kernel [] False None syn0 vip3 (Lru_cpu 0) loaded_maps =
     Inr (real1, syn0\<lparr>real_index := 1\<rparr>, s')"
proof -
  have h: "hashed vip3 syn0 = syn0" by (simp add: hashed_def vip3_def)
  obtain s' where "is_under_flood katran_kernel 0 (add_v1 (MAX_VIPS + LRU_MISS_CNTR) 1 loaded_maps)
      = (False, 1000000000, s')"
    using loaded_flood(1) by blast
  from get_packet_dst_eq [OF vip3_flags(1) this] loaded_stats show ?thesis
    by (auto simp: pp_tables_def h loaded_ring FURTHER_PROCESSING_def)
qed


end
