(* ===== verification/Katran_Tunnel.thy ===== *)
theory Katran_Tunnel
  imports Katran_Encap
begin

text \<open>
  What the encapsulation routines of \<open>pckt_encap.h\<close> and \<open>encap_helpers.h\<close> write: three ways to
  follow a packet through a sequence of stores (the bytes behind, the bytes before and the bytes of
  a header window), the exact IPv4 header \<open>create_v4_hdr\<close> builds with its checksum, the exact packet
  \<open>encap_v4\<close> sends, and that each decapsulation undoes its encapsulation.
\<close>

section \<open>Frames\<close>

text \<open>\<open>fr K N D p\<close>: the packet has length \<open>N\<close>, and \<open>D\<close> is all that follows its first \<open>K\<close>
  bytes.  The builders write only below \<open>K\<close>.\<close>

definition fr :: "nat \<Rightarrow> nat \<Rightarrow> packet \<Rightarrow> packet \<Rightarrow> bool" where
  "fr K N D p \<longleftrightarrow> length p = N \<and> drop K p = D"

named_theorems fr_elim "memory operations below the frame"

lemma drop_patch: "i + length bs \<le> K \<Longrightarrow> i + length bs \<le> length p \<Longrightarrow> drop K (patch p i bs) = drop K p"
  by (simp add: patch_def drop_append)

lemma fr_wr [fr_elim]:
  "fr K N D p \<Longrightarrow> i + length bs \<le> K \<Longrightarrow> i + length bs \<le> N \<Longrightarrow> (\<And>p'. fr K N D p' \<Longrightarrow> Q p') \<Longrightarrow> wp (wr p i bs) Q"
  by (auto simp: wp_wr fr_def drop_patch)

lemma fr_rd [fr_elim]:
  "fr K N D p \<Longrightarrow> i + n \<le> N \<Longrightarrow> (\<And>b. fr K N D p \<Longrightarrow> length b = n \<Longrightarrow> Q b) \<Longrightarrow> wp (rd p i n) Q"
  by (simp add: wp_rd fr_def)

lemma fr_st [fr_elim]:
  "fr K N D p \<Longrightarrow> i < K \<Longrightarrow> i < N \<Longrightarrow> (\<And>p'. fr K N D p' \<Longrightarrow> Q p') \<Longrightarrow> wp (st8 p i b) Q"
  "fr K N D p \<Longrightarrow> i + 2 \<le> K \<Longrightarrow> i + 2 \<le> N \<Longrightarrow> (\<And>p'. fr K N D p' \<Longrightarrow> Q p') \<Longrightarrow> wp (st16 p i h) Q"
  "fr K N D p \<Longrightarrow> i + 4 \<le> K \<Longrightarrow> i + 4 \<le> N \<Longrightarrow> (\<And>p'. fr K N D p' \<Longrightarrow> Q p') \<Longrightarrow> wp (st32 p i w) Q"
  by (auto simp: wp_simps fr_def drop_patch)

lemma fr_nibble [fr_elim]:
  "fr K N D p \<Longrightarrow> i < K \<Longrightarrow> i < N \<Longrightarrow> (\<And>p'. fr K N D p' \<Longrightarrow> Q p') \<Longrightarrow> wp (st_hi p i v) Q"
  "fr K N D p \<Longrightarrow> i < K \<Longrightarrow> i < N \<Longrightarrow> (\<And>p'. fr K N D p' \<Longrightarrow> Q p') \<Longrightarrow> wp (st_lo p i v) Q"
  by (auto simp: st_hi_def st_lo_def wp_simps fr_def drop_patch)

lemma fr_csum [fr_elim]:
  "fr K N D p \<Longrightarrow> i + 20 \<le> N \<Longrightarrow> (\<And>c. fr K N D p \<Longrightarrow> Q c) \<Longrightarrow> wp (ipv4_csum_inline p i 0) Q"
  by (simp add: wp_ipv4_csum_inline fr_def)

lemma fr_create_v4_hdr [fr_elim]:
  "fr K N D p \<Longrightarrow> iph + 20 \<le> K \<Longrightarrow> iph + 20 \<le> N \<Longrightarrow> (\<And>p'. fr K N D p' \<Longrightarrow> Q p') \<Longrightarrow>
     wp (create_v4_hdr p iph t sa da n pr) Q"
  unfolding create_v4_hdr_def by (rule wp_bindI | erule fr_elim | (simp; fail))+

lemma fr_create_v6_hdr [fr_elim]:
  "fr K N D p \<Longrightarrow> ip6h + 40 \<le> K \<Longrightarrow> ip6h + 40 \<le> N \<Longrightarrow> (\<And>p'. fr K N D p' \<Longrightarrow> Q p') \<Longrightarrow>
     wp (create_v6_hdr p ip6h t sa da n pr) Q"
  unfolding create_v6_hdr_def by (rule wp_bindI | erule fr_elim | (simp; fail))+

lemma fr_create_udp_hdr [fr_elim]:
  "fr K N D p \<Longrightarrow> udph + 8 \<le> K \<Longrightarrow> udph + 8 \<le> N \<Longrightarrow> (\<And>p'. fr K N D p' \<Longrightarrow> Q p') \<Longrightarrow>
     wp (create_udp_hdr p udph sp dp n c) Q"
  unfolding create_udp_hdr_def by (rule wp_bindI | erule fr_elim | (simp; fail))+

lemma fr_new_eth_hdr [fr_elim]:
  "fr K N D p \<Longrightarrow> 14 \<le> K \<Longrightarrow> 14 \<le> N \<Longrightarrow> old + 6 \<le> N \<Longrightarrow> (\<And>p'. fr K N D p' \<Longrightarrow> Q p') \<Longrightarrow>
     wp (new_eth_hdr p c old h) Q"
  unfolding new_eth_hdr_def by (rule wp_bindI | erule fr_elim | (simp; fail))+

lemma fr_move_eth [fr_elim]:
  "fr K N D p \<Longrightarrow> n + 14 \<le> K \<Longrightarrow> n + 14 \<le> N \<Longrightarrow> (\<And>p'. fr K N D p' \<Longrightarrow> Q p') \<Longrightarrow> wp (move_eth p n h) Q"
  unfolding move_eth_def by (rule wp_bindI | erule fr_elim | (simp; fail))+

lemma fr_put_udp_check [fr_elim]:
  "fr K N D p \<Longrightarrow> i + 8 \<le> K \<Longrightarrow> i + 8 \<le> N \<Longrightarrow> (\<And>p'. fr K N D p' \<Longrightarrow> Q p') \<Longrightarrow> wp (put_udp_check p i c) Q"
  by (cases c) (auto simp: put_udp_check_def wp_simps fr_def drop_patch)

lemma fr_gue_csum [fr_elim]:
  "fr K N D p \<Longrightarrow> (\<And>c. fr K N D p \<Longrightarrow> Q c) \<Longrightarrow> wp (gue_csum env p o6 i6 pckt) Q"
  using wpI [OF gue_csum_safe] by metis

text \<open>What an encapsulation of \<open>n\<close> bytes leaves: on success the packet is \<open>n\<close> bytes longer and
  everything after its new headers is the old packet after its Ethernet header.\<close>

definition tunnelled :: "'e bpf_env_scheme \<Rightarrow> nat \<Rightarrow> packet \<Rightarrow> bool \<times> packet \<Rightarrow> bool" where
  "tunnelled env n p x \<longleftrightarrow> (env_ok env \<longrightarrow> fst x \<longrightarrow>
     length (snd x) = length p + n \<and> drop (14 + n) (snd x) = drop 14 p)"

lemma fr_grow:
  assumes "env_ok env" and "bpf_xdp_adjust_head env p (- int n) = Some p'" and "0 < n"
  shows "length p' = length p + n \<and> fr (14 + n) (length p + n) (drop 14 p) p'"
  using adjust_head_grow [OF assms(1,2)] assms(3)
  by (auto simp: fr_def drop_drop [symmetric] simp del: drop_drop)

lemma tunnelledI:
  "fr K N D p' \<Longrightarrow> K = 14 + n \<Longrightarrow> N = length p + n \<Longrightarrow> D = drop 14 p \<Longrightarrow> tunnelled env n p (ok, p')"
  by (simp add: tunnelled_def fr_def)

lemma tunnelled_False [simp]: "tunnelled env n p (False, p')"
  by (simp add: tunnelled_def)

text \<open>The four encapsulations.\<close>

lemma encap_tunnelled:
  assumes "env_ok env"
  shows "wp (encap_v4 env p c pckt dst n) (tunnelled env 20 p)"
    and "wp (encap_v6 env p c v6 pckt dst n) (tunnelled env 40 p)"
    and "wp (gue_encap_v4 env s p c pckt dst n) (tunnelled env 28 p)"
    and "wp (gue_encap_v6 env s p c v6 pckt dst n) (tunnelled env 48 p)"
proof -
  note grow = fr_grow [OF assms, of p 20, simplified] fr_grow [OF assms, of p 40, simplified]
    fr_grow [OF assms, of p 28, simplified] fr_grow [OF assms, of p 48, simplified]
  show "wp (encap_v4 env p c pckt dst n) (tunnelled env 20 p)"
    unfolding encap_v4_def Let_def wp_case_option
    by (auto simp: wp_ctrl dest!: grow elim!: fr_elim tunnelledI)
  show "wp (encap_v6 env p c v6 pckt dst n) (tunnelled env 40 p)"
    unfolding encap_v6_def Let_def wp_case_option
    by (auto simp: wp_ctrl dest!: grow elim!: fr_elim tunnelledI)
  show "wp (gue_encap_v4 env s p c pckt dst n) (tunnelled env 28 p)"
    unfolding gue_encap_v4_def Let_def wp_case_option
    by (auto simp: wp_ctrl dest!: grow elim!: fr_elim tunnelledI)
  show "wp (gue_encap_v6 env s p c v6 pckt dst n) (tunnelled env 48 p)"
    unfolding gue_encap_v6_def Let_def wp_case_option
    by (auto simp: wp_ctrl dest!: grow elim!: fr_elim tunnelledI)
qed

lemma nibble_masks: "(0x0F :: u8) = mask 4" "(0xF0 :: u8) = NOT (mask 4)"
  by (simp_all add: mask_eq_exp_minus_1 not_eq_complement)

lemma wp_nibbles:
  assumes "i < length p"
  shows "wp (st_hi p i a) (\<lambda>p. wp (st_lo p i b) Q) = Q (patch p i [push_bit 4 a OR (b AND 0x0F)])"
proof -
  have "patch (patch p i [x]) i [y] = patch p i [y]" for x y
    using assms by (simp add: patch_def)
  moreover have "(x AND 15 OR push_bit 4 a) AND 0xF0 = push_bit 4 (a::u8)" for x :: u8
    unfolding nibble_masks by (rule bit_word_eqI) (auto simp: bit_simps)
  ultimately show ?thesis using assms
    by (simp add: st_hi_def st_lo_def wp_simps nth_patch)
qed

lemma bytes_at_patch_in:
  assumes "i + n \<le> length p" and "j + length bs \<le> n"
  shows "bytes_at (patch p (i + j) bs) i n = patch (bytes_at p i n) j bs"
  using assms by (intro nth_equalityI) (auto simp: nth_patch)

definition ipv4_hdr :: "u8 \<Rightarrow> u16 \<Rightarrow> u8 list \<Rightarrow> u8 \<Rightarrow> u16 \<Rightarrow> u32 \<Rightarrow> u32 \<Rightarrow> u8 list" where
  "ipv4_hdr t len ident pr csum sa da =
     [0x45, t] @ le_bytes 2 (bswap16 len) @ ident @ [0, 0, DEFAULT_TTL, pr] @ le_bytes 2 csum
       @ le_bytes 4 sa @ le_bytes 4 da"

lemma list20:
  assumes "length h = 20"
  obtains x0 x1 x2 x3 x4 x5 x6 x7 x8 x9 y0 y1 y2 y3 y4 y5 y6 y7 y8 y9 where
    "h = [x0, x1, x2, x3, x4, x5, x6, x7, x8, x9, y0, y1, y2, y3, y4, y5, y6, y7, y8, y9]"
  using assms by (auto simp: numeral_eq_Suc length_Suc_conv)

lemma list2: assumes "length h = 2" obtains a b where "h = [a, b]"
  using assms by (auto simp: numeral_eq_Suc length_Suc_conv)

lemma list4: assumes "length h = 4" obtains a b c d where "h = [a, b, c, d]"
  using assms by (auto simp: numeral_eq_Suc length_Suc_conv)

lemma hdr_patches:
  assumes "length h = 20" and "length ln = 2" and "length sa = 4" and "length da = 4"
  shows "patch (patch (patch (patch (patch (patch (patch (patch (patch h 0 [v]) 6 [0, 0]) 9 [pr])
      10 [0, 0]) 1 [t]) 2 ln) 16 da) 12 sa) 8 [ttl] =
    [v, t] @ ln @ bytes_at h 4 2 @ [0, 0, ttl, pr] @ [0, 0] @ sa @ da"
  by (rule list20 [OF assms(1)], rule list2 [OF assms(2)], rule list4 [OF assms(3)], rule list4 [OF assms(4)])
    (simp add: patch_def)

text \<open>\<open>win i n H p\<close>: the \<open>n\<close> bytes at \<open>i\<close> are \<open>H\<close>; a store inside the window patches \<open>H\<close>.\<close>

definition win :: "nat \<Rightarrow> nat \<Rightarrow> u8 list \<Rightarrow> packet \<Rightarrow> bool" where
  "win i n H p \<longleftrightarrow> i + n \<le> length p \<and> bytes_at p i n = H"

named_theorems win_elim "stores inside a window"

lemma win_wr [win_elim]:
  "win i n H p \<Longrightarrow> j + length bs \<le> n \<Longrightarrow> (\<And>p'. win i n (patch H j bs) p' \<Longrightarrow> Q p') \<Longrightarrow> wp (wr p (i + j) bs) Q"
  by (auto simp: wp_wr win_def bytes_at_patch_in)

lemma win_st [win_elim]:
  "win i n H p \<Longrightarrow> j < n \<Longrightarrow> (\<And>p'. win i n (patch H j [b]) p' \<Longrightarrow> Q p') \<Longrightarrow> wp (st8 p (i + j) b) Q"
  "win i n H p \<Longrightarrow> j + 2 \<le> n \<Longrightarrow> (\<And>p'. win i n (patch H j (le_bytes 2 h)) p' \<Longrightarrow> Q p') \<Longrightarrow>
     wp (st16 p (i + j) h) Q"
  "win i n H p \<Longrightarrow> j + 4 \<le> n \<Longrightarrow> (\<And>p'. win i n (patch H j (le_bytes 4 w)) p' \<Longrightarrow> Q p') \<Longrightarrow>
     wp (st32 p (i + j) w) Q"
  by (auto simp: st8_def st16_def st32_def intro!: win_wr)

lemma win_nibbles [win_elim]:
  "win i n H p \<Longrightarrow> 0 < n \<Longrightarrow> (\<And>p'. win i n (patch H 0 [push_bit 4 a OR (b AND 0x0F)]) p' \<Longrightarrow> wp (f p') Q) \<Longrightarrow>
     wp (st_hi p i a) (\<lambda>p. wp (Option.bind (st_lo p i b) f) Q)"
  using bytes_at_patch_in [of i n p 0] by (auto simp: wp_nibbles wp_bind win_def)

lemma win_csum [win_elim]:
  "win i n H p \<Longrightarrow> n = 20 \<Longrightarrow> (\<And>c. win i n H p \<Longrightarrow> c = csum_fold_helper (of_nat (sum16 H)) \<Longrightarrow> Q (ucast c))
    \<Longrightarrow> wp (ipv4_csum_inline p i 0) Q"
  by (auto simp: wp_ipv4_csum_inline inline_csum_def win_def)

lemma le_bytes2_zero: "le_bytes 2 (0 :: u16) = [0, 0]"
  by (simp add: le_bytes_def numeral_2_eq_2)

lemma patch_mid: "i = length xs \<Longrightarrow> length ys' = length ys \<Longrightarrow> patch (xs @ ys @ zs) i ys' = xs @ ys' @ zs"
  by (simp add: patch_def)

lemma ipv4_hdr_patch: "length ident = 2 \<Longrightarrow> patch (ipv4_hdr t len ident pr x sa da) 10 (le_bytes 2 c) =
    ipv4_hdr t len ident pr c sa da"
  using patch_mid [of 10 "[0x45, t] @ le_bytes 2 (bswap16 len) @ ident @ [0, 0, DEFAULT_TTL, pr]"
      "le_bytes 2 c" "le_bytes 2 x" "le_bytes 4 sa @ le_bytes 4 da"]
  by (simp add: ipv4_hdr_def)

lemma ucast_u16_u64 [simp]: "ucast (ucast c :: u64) = (c :: u16)"
  by (rule bit_word_eqI) (simp add: bit_simps)

lemma ipv4_hdr_sum:
  assumes "length ident = 2"
  shows "sum16 (ipv4_hdr t len ident pr c sa da) = sum16 (ipv4_hdr t len ident pr 0 sa da) + unat c"
    and "0 < sum16 (ipv4_hdr t len ident pr c sa da)"
  using assms by (simp_all add: ipv4_hdr_def sum16_append sum16_le_bytes2 le_bytes2_zero)

lemma ipv4_hdr_valid:
  assumes "length ident = 2" and "c = csum_fold_helper (of_nat (sum16 (ipv4_hdr t len ident pr 0 sa da)))"
  shows "ip_csum_ok (ipv4_hdr t len ident pr c sa da)"
proof -
  let ?n = "sum16 (ipv4_hdr t len ident pr 0 sa da)"
  have "length (ipv4_hdr t len ident pr 0 sa da) = 20" using assms(1) by (simp add: ipv4_hdr_def)
  then have "?n < 2 ^ 64" using sum16_bound [of "ipv4_hdr t len ident pr 0 sa da"] by simp
  then have "unat c = 65535 - fold16 ?n" by (simp add: assms(2) unat_csum_fold_helper unat_of_nat)
  then show ?thesis
    unfolding ip_csum_ok_def ipv4_hdr_sum(1) [OF assms(1), of t len pr c]
    by (rule csum_completes) (rule ipv4_hdr_sum(2) [OF assms(1)])
qed

lemma create_v4_hdr_wp:
  assumes "iph + 20 \<le> length p"
    and "\<And>p' c. bytes_at p' iph 20 = ipv4_hdr t (n + 20) (bytes_at p (iph + 4) 2) pr c sa da \<Longrightarrow>
      ip_csum_ok (bytes_at p' iph 20) \<Longrightarrow> Q p'"
  shows "wp (create_v4_hdr p iph t sa da n pr) Q"
proof -
  let ?H = "\<lambda>c. ipv4_hdr t (n + 20) (bytes_at p (iph + 4) 2) pr c sa da"
  have h: "patch (patch (patch (patch (patch (patch (patch (patch (patch (bytes_at p iph 20) 0
      [push_bit 4 4 OR 5 AND 15]) 6 (le_bytes 2 (0 :: u16))) 9 [pr]) 10 (le_bytes 2 (0 :: u16))) 1 [t])
      2 (le_bytes 2 (bswap16 (n + 20)))) 16 (le_bytes 4 da)) 12 (le_bytes 4 sa)) 8 [DEFAULT_TTL] = ?H 0"
    using assms(1) unfolding le_bytes2_zero
    by (subst hdr_patches) (simp_all add: ipv4_hdr_def le_bytes2_zero drop_take add.commute)
  have q: "Q p'" if "win iph 20 (patch (?H 0) 10 (le_bytes 2 (ucast (ucast c :: u64) :: u16))) p'"
    and "c = csum_fold_helper (of_nat (sum16 (?H 0)))" for c p'
    using that assms ipv4_hdr_valid [OF _ that(2)] by (simp add: win_def ipv4_hdr_patch)
  have w: "win iph 20 (bytes_at p iph 20) p" using assms(1) by (simp add: win_def)
  show ?thesis
    unfolding create_v4_hdr_def
    by (insert w, (rule wp_bindI | erule win_elim | (simp; fail))+, simp only: h, erule q, rule refl)
qed

text \<open>\<open>pre K P p\<close>: the first \<open>K\<close> bytes are \<open>P\<close>; stores behind them keep this.\<close>

definition pre :: "nat \<Rightarrow> u8 list \<Rightarrow> nat \<Rightarrow> packet \<Rightarrow> bool" where
  "pre K P N p \<longleftrightarrow> length p = N \<and> K \<le> N \<and> take K p = P"

named_theorems pre_elim "stores behind a prefix"

lemma take_patch: "K \<le> i \<Longrightarrow> i + length bs \<le> length p \<Longrightarrow> take K (patch p i bs) = take K p"
  by (simp add: patch_def min_absorb1)

lemma pre_wr [pre_elim]:
  "pre K P N p \<Longrightarrow> K \<le> i \<Longrightarrow> i + length bs \<le> N \<Longrightarrow> (\<And>p'. pre K P N p' \<Longrightarrow> Q p') \<Longrightarrow> wp (wr p i bs) Q"
  by (auto simp: wp_wr pre_def take_patch)

lemma pre_st [pre_elim]:
  "pre K P N p \<Longrightarrow> K \<le> i \<Longrightarrow> i < N \<Longrightarrow> (\<And>p'. pre K P N p' \<Longrightarrow> Q p') \<Longrightarrow> wp (st8 p i b) Q"
  "pre K P N p \<Longrightarrow> K \<le> i \<Longrightarrow> i + 2 \<le> N \<Longrightarrow> (\<And>p'. pre K P N p' \<Longrightarrow> Q p') \<Longrightarrow> wp (st16 p i h) Q"
  "pre K P N p \<Longrightarrow> K \<le> i \<Longrightarrow> i + 4 \<le> N \<Longrightarrow> (\<And>p'. pre K P N p' \<Longrightarrow> Q p') \<Longrightarrow> wp (st32 p i w) Q"
  by (auto simp: st8_def st16_def st32_def intro!: pre_wr)

lemma pre_nibble [pre_elim]:
  "pre K P N p \<Longrightarrow> K \<le> i \<Longrightarrow> i < N \<Longrightarrow> (\<And>p'. pre K P N p' \<Longrightarrow> Q p') \<Longrightarrow> wp (st_hi p i v) Q"
  "pre K P N p \<Longrightarrow> K \<le> i \<Longrightarrow> i < N \<Longrightarrow> (\<And>p'. pre K P N p' \<Longrightarrow> Q p') \<Longrightarrow> wp (st_lo p i v) Q"
  by (auto simp: st_hi_def st_lo_def wp_simps pre_def take_patch)

lemma pre_csum [pre_elim]:
  "pre K P N p \<Longrightarrow> i + 20 \<le> N \<Longrightarrow> (\<And>c. pre K P N p \<Longrightarrow> Q c) \<Longrightarrow> wp (ipv4_csum_inline p i 0) Q"
  by (simp add: wp_ipv4_csum_inline pre_def)

lemma pre_create_v4_hdr [pre_elim]:
  "pre K P N p \<Longrightarrow> K \<le> iph \<Longrightarrow> iph + 20 \<le> N \<Longrightarrow> (\<And>p'. pre K P N p' \<Longrightarrow> Q p') \<Longrightarrow>
     wp (create_v4_hdr p iph t sa da n pr) Q"
  unfolding create_v4_hdr_def by (rule wp_bindI | erule pre_elim | (simp; fail))+

lemma pre_create_v6_hdr [pre_elim]:
  "pre K P N p \<Longrightarrow> K \<le> iph \<Longrightarrow> iph + 40 \<le> N \<Longrightarrow> (\<And>p'. pre K P N p' \<Longrightarrow> Q p') \<Longrightarrow>
     wp (create_v6_hdr p iph t sa da n pr) Q"
  unfolding create_v6_hdr_def by (rule wp_bindI | erule pre_elim | (simp; fail))+

lemma new_eth_hdr_wp:
  assumes "14 \<le> old" and "old + 6 \<le> length p"
    and "\<And>p'. p' = ctl_mac c @ bytes_at p old 6 @ le_bytes 2 h @ drop 14 p \<Longrightarrow> Q p'"
  shows "wp (new_eth_hdr p c old h) Q"
proof -
  have "bytes_at (patch p 0 (ctl_mac c)) old 6 = bytes_at p old 6"
    using assms(1,2) by (intro bytes_at_patch_other) auto
  moreover have "patch (patch (patch p 0 (ctl_mac c)) 6 (bytes_at p old 6)) 12 (le_bytes 2 h) =
      ctl_mac c @ bytes_at p old 6 @ le_bytes 2 h @ drop 14 p"
    using assms(1,2) by (simp add: patch_def min_absorb1)
  ultimately show ?thesis using assms unfolding new_eth_hdr_def by (simp add: wp_simps)
qed

lemma move_eth_wp:
  assumes "12 \<le> n" and "n + 14 \<le> length p"
    and "Q (take n p @ take 12 p @ le_bytes 2 h @ drop (n + 14) p)"
  shows "wp (move_eth p n h) Q"
proof -
  let ?p1 = "patch p (n + 6) (bytes_at p 6 6)"
  have "bytes_at ?p1 0 6 = bytes_at p 0 6" using assms(1,2) by (intro bytes_at_patch_other) auto
  moreover have "patch (patch ?p1 n (bytes_at p 0 6)) (n + 12) (le_bytes 2 h) =
      take n p @ take 12 p @ le_bytes 2 h @ drop (n + 14) p"
    using assms(1,2) take_add [of 6 6 p] by (simp add: patch_def min_absorb1 add.commute [of n])
  ultimately show ?thesis using assms unfolding move_eth_def by (simp add: wp_simps)
qed

text \<open>Moving the Ethernet header and cutting gives the inner packet under the outer header's
  addresses.\<close>

lemma decap_bytes:
  assumes "env_ok env" and "12 \<le> n" and "n + 14 \<le> length p"
    and "Option.bind (move_eth p n h) (\<lambda>p. Some (cut_head env p (int n))) = Some (True, p')"
  shows "p' = take 12 p @ le_bytes 2 h @ drop (n + 14) p"
proof -
  have "wp (Option.bind (move_eth p n h) (\<lambda>p. Some (cut_head env p (int n))))
      (\<lambda>(ok, p'). ok \<longrightarrow> p' = take 12 p @ le_bytes 2 h @ drop (n + 14) p)"
    using assms(2,3) unfolding wp_bind
    by (auto simp: cut_head_def wp_Some intro!: move_eth_wp split: option.split
        dest: adjust_head_shrink(2) [OF assms(1)])
  from wpD [OF this assms(4)] show ?thesis by simp
qed

text \<open>The packet \<open>encap_v4\<close> sends.\<close>

definition ipip4_src :: "packet_description \<Rightarrow> u32" where
  "ipip4_src pckt = (0xFFFF0000 AND
     (push_bit 16 (ucast (bswap16 (sport (flow pckt)))) XOR w0 (srcv6 (flow pckt)))) OR IPIP_V4_PREFIX"

definition ipip4_sent ::
  "packet \<Rightarrow> ctl_value \<Rightarrow> packet_description \<Rightarrow> real_definition \<Rightarrow> u16 \<Rightarrow> packet \<Rightarrow> bool" where
  "ipip4_sent p cval pckt dst n p' \<longleftrightarrow> (\<exists>ident c.
     length ident = 2 \<and>
     p' = ctl_mac cval @ take 6 p @ le_bytes 2 BE_ETH_P_IP
        @ ipv4_hdr (tos pckt) (n + 20) ident IPPROTO_IPIP c (ipip4_src pckt) (w0 (real_dst dst))
        @ drop 14 p \<and>
     ip_csum_ok (ipv4_hdr (tos pckt) (n + 20) ident IPPROTO_IPIP c (ipip4_src pckt) (w0 (real_dst dst))))"

lemma take_drop_parts:
  assumes "a + b \<le> length p"
  shows "p = take a p @ bytes_at p a b @ drop (a + b) p"
  by (metis append_take_drop_id drop_drop add.commute)

lemma create_v4_hdr_bytes:
  assumes "iph + 20 \<le> length p"
    and "\<And>c. ip_csum_ok (ipv4_hdr t (n + 20) (bytes_at p (iph + 4) 2) pr c sa da) \<Longrightarrow>
      Q (take iph p @ ipv4_hdr t (n + 20) (bytes_at p (iph + 4) 2) pr c sa da @ drop (iph + 20) p)"
  shows "wp (create_v4_hdr p iph t sa da n pr) Q"
proof -
  have "wp (create_v4_hdr p iph t sa da n pr) (\<lambda>p'. fr (iph + 20) (length p) (drop (iph + 20) p) p')"
    using assms(1) by (intro fr_create_v4_hdr [of "iph + 20" "length p"]) (auto simp: fr_def)
  moreover have "wp (create_v4_hdr p iph t sa da n pr) (\<lambda>p'. pre iph (take iph p) (length p) p')"
    using assms(1) by (intro pre_create_v4_hdr [of iph _ "length p"]) (auto simp: pre_def)
  moreover have "wp (create_v4_hdr p iph t sa da n pr) (\<lambda>p'. \<exists>c.
      bytes_at p' iph 20 = ipv4_hdr t (n + 20) (bytes_at p (iph + 4) 2) pr c sa da \<and>
      ip_csum_ok (ipv4_hdr t (n + 20) (bytes_at p (iph + 4) 2) pr c sa da))"
    using assms(1) by (intro create_v4_hdr_wp) auto
  ultimately show ?thesis
    using assms(2) take_drop_parts [of iph 20]
    by (auto simp: wp_def fr_def pre_def assms(1)) (metis assms(1))
qed

lemma grow_shape:
  assumes "env_ok env" and "bpf_xdp_adjust_head env p (- int n) = Some p'" and "0 < n"
  obtains g where "length g = n" and "p' = g @ p"
proof
  show "length (take n p') = n" "p' = take n p' @ p"
    using adjust_head_grow [OF assms(1,2)] assms(3) append_take_drop_id [of n p'] by auto
qed

lemma encap_v4_sent:
  assumes "env_ok env" and "encap_v4 env p cval pckt dst n = Some (True, p')"
  shows "ipip4_sent p cval pckt dst (ucast n) p' \<and> 14 \<le> length p"
proof -
  from assms(2) obtain p1 where a: "bpf_xdp_adjust_head env p (- int 20) = Some p1"
    by (auto simp: encap_v4_def Let_def split: option.splits)
  from grow_shape [OF assms(1) a] obtain g where g: "length g = 20" "p1 = g @ p" by auto
  have "wp (encap_v4 env p cval pckt dst n)
      (\<lambda>(ok, p'). ok \<longrightarrow> ipip4_sent p cval pckt dst (ucast n) p' \<and> 14 \<le> length p)"
    using a g unfolding encap_v4_def Let_def
    by (auto simp: wp_ctrl ipip4_sent_def ipip4_src_def
        intro!: new_eth_hdr_wp create_v4_hdr_bytes exI [of _ "drop 18 g"])
  from wpD [OF this assms(2)] show ?thesis by simp
qed

text \<open>C3: When \<open>encap_v4\<close> succeeds, the packet it sends is byte for byte: the router's address, the
  old destination address, the IPv4 type, an IPv4 header with a valid checksum from the source that
  encodes the flow to the chosen real, and the old packet from its IP header on, unchanged.\<close>

theorem encap_v4_bytes:
  assumes "env_ok env" and "encap_v4 env p cval pckt dst n = Some (True, p')"
  shows "ipip4_sent p cval pckt dst (ucast n) p'"
  using encap_v4_sent [OF assms] by simp

lemma decap_defs_int:
  "decap_v4 env p = Option.bind (move_eth p 20 BE_ETH_P_IP) (\<lambda>p. Some (cut_head env p (int 20)))"
  "decap_v6 env p i4 = Option.bind (move_eth p 40 (if i4 then BE_ETH_P_IP else BE_ETH_P_IPV6))
     (\<lambda>p. Some (cut_head env p (int 40)))"
  "gue_decap_v4 env p = Option.bind (move_eth p 28 BE_ETH_P_IP) (\<lambda>p. Some (cut_head env p (int 28)))"
  "gue_decap_v6 env p i4 = Option.bind (move_eth p 48 (if i4 then BE_ETH_P_IP else BE_ETH_P_IPV6))
     (\<lambda>p. Some (cut_head env p (int 48)))"
  by (simp_all add: decap_v4_def decap_v6_def gue_decap_v4_def gue_decap_v6_def)

lemma decap_drop:
  assumes "env_ok env" and "tunnelled env n p (True, q)" and "14 \<le> n" and "14 \<le> length p"
    and "Option.bind (move_eth q n h) (\<lambda>p. Some (cut_head env p (int n))) = Some (True, r)"
  shows "r = take 12 q @ le_bytes 2 h @ drop 14 p"
  using decap_bytes [OF assms(1) _ _ assms(5)] assms(1-4) by (simp add: tunnelled_def add.commute)

text \<open>On a kernel that has room for the header the encapsulation succeeds.\<close>

lemma encap_v4_succeeds:
  assumes "14 \<le> length p"
  obtains q where "encap_v4 katran_kernel p cval pckt dst n = Some (True, q)"
proof -
  have "wp (encap_v4 katran_kernel p cval pckt dst n) fst"
    using assms by (auto simp: encap_v4_def Let_def wp_ctrl katran_kernel_def kernel_env_def bpf_env.defs
        kernel_adjust_head_def intro!: builder_wp)
  then show ?thesis using that by (auto simp: wp_def)
qed

lemma decap_v4_succeeds:
  assumes "34 \<le> length q"
  obtains r where "decap_v4 katran_kernel q = Some (True, r)"
proof -
  have "wp (decap_v4 katran_kernel q) fst"
    using assms by (auto simp: decap_v4_def wp_ctrl cut_head_def katran_kernel_def kernel_env_def bpf_env.defs
        kernel_adjust_head_def intro!: builder_wp)
  then show ?thesis using that by (auto simp: wp_def)
qed

theorem encap_v4_bytes_witness:
  "\<exists>q. encap_v4 katran_kernel (replicate 34 7) \<lparr>ctl_u64 = 0x665544332211\<rparr> pckt0
       \<lparr>real_dst = addr0\<lparr>w0 := 0x0100000A\<rparr>, real_flags = 0\<rparr> 20 = Some (True, q) \<and>
     ipip4_sent (replicate 34 7) \<lparr>ctl_u64 = 0x665544332211\<rparr> pckt0
       \<lparr>real_dst = addr0\<lparr>w0 := 0x0100000A\<rparr>, real_flags = 0\<rparr> 20 q"
proof -
  obtain q where q: "encap_v4 katran_kernel (replicate 34 7) \<lparr>ctl_u64 = 0x665544332211\<rparr> pckt0
       \<lparr>real_dst = addr0\<lparr>w0 := 0x0100000A\<rparr>, real_flags = 0\<rparr> 20 = Some (True, q)"
    by (rule encap_v4_succeeds [of "replicate 34 7"]) simp
  then show ?thesis using encap_v4_bytes [OF katran_kernel_ok(1) q] by simp
qed

text \<open>C4: Every decapsulation undoes its encapsulation: what the real gets after removing the outer
  headers is the packet the client sent, from its IP header on, under the Ethernet addresses of the
  tunnel and the type of the inner protocol.\<close>

theorem decap_undoes_encap:
  assumes "env_ok env" and "14 \<le> length p"
  shows "(encap_v4 env p cval pckt dst n = Some (True, q) \<and> decap_v4 env q = Some (True, r) \<longrightarrow>
      r = take 12 q @ le_bytes 2 BE_ETH_P_IP @ drop 14 p) \<and>
    (encap_v6 env p cval v6 pckt dst n = Some (True, q) \<and> decap_v6 env q (\<not> v6) = Some (True, r) \<longrightarrow>
      r = take 12 q @ le_bytes 2 (if v6 then BE_ETH_P_IPV6 else BE_ETH_P_IP) @ drop 14 p) \<and>
    (gue_encap_v4 env s p cval pckt dst n = Some (True, q) \<and> gue_decap_v4 env q = Some (True, r) \<longrightarrow>
      r = take 12 q @ le_bytes 2 BE_ETH_P_IP @ drop 14 p) \<and>
    (gue_encap_v6 env s p cval v6 pckt dst n = Some (True, q) \<and> gue_decap_v6 env q (\<not> v6) = Some (True, r) \<longrightarrow>
      r = take 12 q @ le_bytes 2 (if v6 then BE_ETH_P_IPV6 else BE_ETH_P_IP) @ drop 14 p)"
proof -
  note d = decap_drop [OF assms(1)] and t = encap_tunnelled [OF assms(1), THEN wpD]
  show ?thesis unfolding decap_defs_int
    using d [of 20 p q BE_ETH_P_IP r, OF t(1)] d [of 40 p q _ r, OF t(2)]
      d [of 28 p q BE_ETH_P_IP r, OF t(3)] d [of 48 p q _ r, OF t(4)] assms(2)
    by (auto split: if_splits)
qed

theorem decap_undoes_encap_witness:
  "\<exists>q r. encap_v4 katran_kernel (replicate 34 7) \<lparr>ctl_u64 = 5\<rparr> pckt0
       \<lparr>real_dst = addr0, real_flags = 0\<rparr> 20 = Some (True, q) \<and>
     decap_v4 katran_kernel q = Some (True, r) \<and> drop 14 r = replicate 20 7"
proof -
  obtain q where q: "encap_v4 katran_kernel (replicate 34 7) \<lparr>ctl_u64 = 5\<rparr> pckt0
       \<lparr>real_dst = addr0, real_flags = 0\<rparr> 20 = Some (True, q)"
    by (rule encap_v4_succeeds [of "replicate 34 7"]) simp
  have "length q = 54"
    using wpD [OF encap_tunnelled(1) [OF katran_kernel_ok(1)] q] katran_kernel_ok(1)
    by (simp add: tunnelled_def)
  moreover from this obtain r where r: "decap_v4 katran_kernel q = Some (True, r)"
    by (auto intro: decap_v4_succeeds [of q])
  ultimately show ?thesis
    using q decap_undoes_encap [OF katran_kernel_ok(1), of "replicate 34 7" "\<lparr>ctl_u64 = 5\<rparr>" pckt0
        "\<lparr>real_dst = addr0, real_flags = 0\<rparr>" 20 q r] by auto
qed

end
