(* ===== verification/Katran_Decap.thy ===== *)
theory Katran_Decap
  imports Katran_Tunnel
begin

text \<open>
  The decapsulation program of \<open>decap_kern.c\<close>, which runs on the real servers and removes the
  outer headers the balancer added, with its counters of \<open>decap_maps.h\<close>.  The routines that
  share a name with one of \<open>balancer_kern.c\<close> have the prefix \<open>dk\<close> here.
\<close>

section \<open>State\<close>

record decap_stats =
  dk_decap_v4 :: u64
  dk_decap_v6 :: u64
  dk_total :: u64

type_synonym decap_counters = "u32 \<rightharpoonup> decap_stats"

text \<open>Updates through the pointer that a lookup of key 0 returned.\<close>

definition dk_count :: "(decap_stats \<Rightarrow> decap_stats) \<Rightarrow> decap_counters \<Rightarrow> decap_counters" where
  "dk_count f m = m(0 := map_option f (m 0))"

definition dk_count_total :: "decap_counters \<Rightarrow> decap_counters" where
  "dk_count_total = dk_count (\<lambda>x. x\<lparr>dk_total := dk_total x + 1\<rparr>)"

definition dk_count_decap :: "bool \<Rightarrow> decap_counters \<Rightarrow> decap_counters" where
  "dk_count_decap is_ipv6 = dk_count (\<lambda>x. if is_ipv6 then x\<lparr>dk_decap_v6 := dk_decap_v6 x + 1\<rparr>
     else x\<lparr>dk_decap_v4 := dk_decap_v4 x + 1\<rparr>)"

section \<open>Operations\<close>

definition dk_process_l3_headers ::
  "packet_description \<Rightarrow> nat \<Rightarrow> packet \<Rightarrow> bool \<Rightarrow> (int \<times> packet_description \<times> u16) option" where
  "dk_process_l3_headers pckt off data is_ipv6 =
     (if is_ipv6 then
        (if off + 40 > length data then Some (XDP_DROP, pckt, 0)
         else do {
           nexthdr \<leftarrow> ld8 data (off + 6);
           let pckt = pckt\<lparr>flow := (flow pckt)\<lparr>proto := nexthdr\<rparr>\<rparr>;
           payload_len \<leftarrow> ld16 data (off + 4);
           if nexthdr = IPPROTO_FRAGMENT then Some (XDP_DROP, pckt, bswap16 payload_len)
           else Some (FURTHER_PROCESSING, pckt, bswap16 payload_len) })
      else
        (if off + 20 > length data then Some (XDP_DROP, pckt, 0)
         else do {
           b \<leftarrow> ld8 data off;
           if b AND 0x0F \<noteq> 5 then Some (XDP_DROP, pckt, 0)
           else do {
             protocol \<leftarrow> ld8 data (off + 9);
             let pckt = pckt\<lparr>flow := (flow pckt)\<lparr>proto := protocol\<rparr>\<rparr>;
             tot_len \<leftarrow> ld16 data (off + 2);
             frag_off \<leftarrow> ld16 data (off + 6);
             if frag_off AND PCKT_FRAGMENTED \<noteq> 0 then Some (XDP_DROP, pckt, bswap16 tot_len)
             else Some (FURTHER_PROCESSING, pckt, bswap16 tot_len) } }))"

definition dk_process_encaped_ipip_pckt ::
  "'e bpf_env_scheme \<Rightarrow> packet \<Rightarrow> bool \<Rightarrow> u8 \<Rightarrow> (int \<times> packet) option" where
  "dk_process_encaped_ipip_pckt env data is_ipv6 protocol =
     (if protocol = IPPROTO_IPIP then
        (if is_ipv6 then
           (if 40 + 14 > length data then Some (XDP_DROP, data)
            else do {
              (ok, data) \<leftarrow> decap_v6 env data True;
              if \<not> ok then Some (XDP_DROP, data) else Some (FURTHER_PROCESSING, data) })
         else
           (if 20 + 14 > length data then Some (XDP_DROP, data)
            else do {
              (ok, data) \<leftarrow> decap_v4 env data;
              if \<not> ok then Some (XDP_DROP, data) else Some (FURTHER_PROCESSING, data) }))
      else if protocol = IPPROTO_IPV6 then
        (if 40 + 14 > length data then Some (XDP_DROP, data)
         else do {
           (ok, data) \<leftarrow> decap_v6 env data False;
           if \<not> ok then Some (XDP_DROP, data) else Some (FURTHER_PROCESSING, data) })
      else Some (FURTHER_PROCESSING, data))"

definition dk_process_encaped_gue_pckt ::
  "'e bpf_env_scheme \<Rightarrow> packet \<Rightarrow> bool \<Rightarrow> (int \<times> packet) option" where
  "dk_process_encaped_gue_pckt env data is_ipv6 =
     (if is_ipv6 then
        (let offset = 40 + 14 + 8 in
         if offset + 1 > length data then Some (XDP_DROP, data)
         else do {
           v6 \<leftarrow> ld8 data offset;
           (ok, data) \<leftarrow> (if v6 AND GUEV1_IPV6MASK \<noteq> 0 then gue_decap_v6 env data False
                          else gue_decap_v6 env data True);
           if \<not> ok then Some (XDP_DROP, data) else Some (FURTHER_PROCESSING, data) })
      else
        (let offset = 20 + 14 + 8 in
         if offset > length data then Some (XDP_DROP, data)
         else do {
           (ok, data) \<leftarrow> gue_decap_v4 env data;
           if \<not> ok then Some (XDP_DROP, data) else Some (FURTHER_PROCESSING, data) }))"

definition dk_process_packet ::
  "build \<Rightarrow> 'e bpf_env_scheme \<Rightarrow> packet \<Rightarrow> nat \<Rightarrow> bool \<Rightarrow> decap_counters
     \<Rightarrow> (int \<times> packet \<times> decap_counters) option" where
  "dk_process_packet cfg env data off is_ipv6 s = do {
     (action, pckt, pkt_bytes) \<leftarrow> dk_process_l3_headers pckt0 off data is_ipv6;
     if action \<ge> 0 then Some (action, data, s)
     else (let protocol = proto (flow pckt)
       in if s 0 = None then Some (XDP_PASS, data, s)
          else (let s = dk_count_total s
            in if protocol = IPPROTO_IPIP \<or> protocol = IPPROTO_IPV6 then
                 (let s = dk_count_decap is_ipv6 s
                  in do {
                    (action, data) \<leftarrow> dk_process_encaped_ipip_pckt env data is_ipv6 protocol;
                    if action \<ge> 0 then Some (action, data, s) else Some (XDP_PASS, data, s) })
               else if INLINE_DECAP_GUE cfg \<and> protocol = IPPROTO_UDP then do {
                 (ok, pckt) \<leftarrow> parse_udp data is_ipv6 pckt;
                 if \<not> ok then Some (XDP_PASS, data, s)
                 else if dport (flow pckt) = bswap16 GUE_DPORT then
                   (let s = dk_count_decap is_ipv6 s
                    in do {
                      (action, data) \<leftarrow> dk_process_encaped_gue_pckt env data is_ipv6;
                      if action \<ge> 0 then Some (action, data, s) else Some (XDP_PASS, data, s) })
                 else Some (XDP_PASS, data, s) }
               else Some (XDP_PASS, data, s))) }"

definition xdpdecap ::
  "build \<Rightarrow> 'e bpf_env_scheme \<Rightarrow> packet \<Rightarrow> decap_counters \<Rightarrow> (int \<times> packet \<times> decap_counters) option" where
  "xdpdecap cfg env data s =
     (if 14 > length data then Some (XDP_DROP, data, s)
      else do {
        eth_proto \<leftarrow> ld16 data 12;
        if eth_proto = BE_ETH_P_IP then dk_process_packet cfg env data 14 False s
        else if eth_proto = BE_ETH_P_IPV6 then dk_process_packet cfg env data 14 True s
        else Some (XDP_PASS, data, s) })"

section \<open>Bounds\<close>

lemma dk_process_l3_headers_wp:
  "(\<And>a pckt' n. a = XDP_DROP \<or> a = FURTHER_PROCESSING \<Longrightarrow> Q (a, pckt', n)) \<Longrightarrow>
     wp (dk_process_l3_headers pckt off p v6) Q"
  unfolding dk_process_l3_headers_def Let_def by (auto simp: wp_simps)

lemma dk_ipip_wp:
  "(\<And>a p'. a = XDP_DROP \<or> a = FURTHER_PROCESSING \<Longrightarrow> Q (a, p')) \<Longrightarrow>
     wp (dk_process_encaped_ipip_pckt env p v6 pr) Q"
  unfolding dk_process_encaped_ipip_pckt_def by (auto simp: wp_ctrl intro!: decap_wps)

lemma dk_gue_wp:
  "(\<And>a p'. a = XDP_DROP \<or> a = FURTHER_PROCESSING \<Longrightarrow> Q (a, p')) \<Longrightarrow>
     wp (dk_process_encaped_gue_pckt env p v6) Q"
  unfolding dk_process_encaped_gue_pckt_def Let_def by (auto simp: wp_ctrl wp_ld8 intro!: decap_wps)

lemma dk_count_dom [simp]:
  "dom (dk_count_total s) = dom s" "dom (dk_count_decap v6 s) = dom s"
  by (auto simp: dk_count_total_def dk_count_decap_def dk_count_def dom_def)

lemma dk_process_packet_wp:
  "wp (dk_process_packet cfg env p off v6 s)
     (\<lambda>(a, p', s'). (a = XDP_DROP \<or> a = XDP_PASS) \<and> dom s' = dom s)"
  unfolding dk_process_packet_def Let_def
  by (auto simp: wp_ctrl xdp_defs FURTHER_PROCESSING_def
      intro!: dk_process_l3_headers_wp dk_ipip_wp dk_gue_wp wpI [OF parse_udp_safe])

lemma xdpdecap_wp:
  "wp (xdpdecap cfg env p s) (\<lambda>(a, p', s'). (a = XDP_DROP \<or> a = XDP_PASS) \<and> dom s' = dom s)"
  unfolding xdpdecap_def by (auto simp: wp_ctrl wp_ld16 intro!: wp_mono [OF dk_process_packet_wp])

text \<open>The decapsulation program never reads or writes outside the packet, whatever packet,
  counters, build and kernel it runs with, and it only ever drops a packet or passes it on.\<close>

theorem xdpdecap_safe:
  "\<exists>a p' s'. xdpdecap cfg env p s = Some (a, p', s') \<and> (a = XDP_DROP \<or> a = XDP_PASS)"
  using xdpdecap_wp [of cfg env p s] by (auto simp: wp_def)

interpretation decap: packet_program "\<lambda>s p. xdpdecap cfg env p s" "\<lambda>s. dom s = D"
proof
  show "xdpdecap cfg env p s \<noteq> None" for s p
    using xdpdecap_wp [of cfg env p s] by (auto simp: wp_def)
  show "dom s' = D" if "dom s = D" "xdpdecap cfg env p s = Some (r, p', s')" for s p r p' s'
    using wpD [OF xdpdecap_wp that(2)] that(1) by simp
qed

section \<open>End to end\<close>

lemma ipip4_l3:
  assumes "ipip4_sent p cval pckt dst n q" and "14 \<le> length p"
  shows "\<exists>m. dk_process_l3_headers pckt0 14 q False =
      Some (FURTHER_PROCESSING, pckt0\<lparr>flow := (flow pckt0)\<lparr>proto := IPPROTO_IPIP\<rparr>\<rparr>, m)"
    and "ld16 q 12 = Some BE_ETH_P_IP" and "34 \<le> length q"
proof -
  from assms obtain e ident c where e: "length e = 12" "length ident = 2"
    and q: "q = e @ le_bytes 2 BE_ETH_P_IP @ ipv4_hdr (tos pckt) (n + 20) ident IPPROTO_IPIP c
       (ipip4_src pckt) (w0 (real_dst dst)) @ drop 14 p"
    unfolding ipip4_sent_def by (auto intro: that [of "ctl_mac cval @ take 6 p"])
  have z: "(le_word [0, 0] :: u16) = 0" by (simp add: le_word_def)
  have b: "(0x45 :: u8) AND 0xF = 5" by simp
  show "34 \<le> length q" using e by (simp add: q ipv4_hdr_def)
  show "ld16 q 12 = Some BE_ETH_P_IP"
    using e by (simp add: q ld16_def rd_def le_word_bytes)
  show "\<exists>m. dk_process_l3_headers pckt0 14 q False =
      Some (FURTHER_PROCESSING, pckt0\<lparr>flow := (flow pckt0)\<lparr>proto := IPPROTO_IPIP\<rparr>\<rparr>, m)"
    using e by (simp add: q dk_process_l3_headers_def ld8_def ld16_def rd_def ipv4_hdr_def b z)
qed



end
