(* ===== verification/Tc_Env.thy ===== *)
theory Tc_Env
  imports Bpf_Env
begin

text \<open>
  What the traffic-control programs see: a socket buffer with its linear data, its length and its
  mark, the verdicts of \<open>pkt_cls.h\<close>, and the helpers of the kernel on socket buffers with the laws
  their documentation in \<open>bpf.h\<close> gives.
\<close>

section \<open>Socket buffers and verdicts\<close>

record skb =
  skb_data :: packet
  skb_len :: u32
  skb_mark :: u32

definition TC_ACT_UNSPEC :: int where "TC_ACT_UNSPEC = -1"
definition TC_ACT_OK :: int where "TC_ACT_OK = 0"
definition TC_ACT_SHOT :: int where "TC_ACT_SHOT = 2"

lemmas tc_defs = TC_ACT_UNSPEC_def TC_ACT_OK_def TC_ACT_SHOT_def

text \<open>What a run returns: a verdict, or what \<open>bpf_redirect\<close> returned for an interface.\<close>

datatype tc_ret = Tc int | Redirect u32 u64

section \<open>Helpers\<close>

text \<open>\<open>bpf_skb_adjust_room p n mode flags\<close>; \<open>None\<close> is a non-zero return code.\<close>

record tc_env =
  bpf_skb_adjust_room :: "packet \<Rightarrow> int \<Rightarrow> u32 \<Rightarrow> u64 \<Rightarrow> packet option"

definition BPF_ADJ_ROOM_MAC :: u32 where "BPF_ADJ_ROOM_MAC = 1"
definition BPF_F_ADJ_ROOM_FIXED_GSO :: u64 where "BPF_F_ADJ_ROOM_FIXED_GSO = 1"
definition BPF_F_ADJ_ROOM_ENCAP_L3_IPV4 :: u64 where "BPF_F_ADJ_ROOM_ENCAP_L3_IPV4 = 2"
definition BPF_F_ADJ_ROOM_ENCAP_L3_IPV6 :: u64 where "BPF_F_ADJ_ROOM_ENCAP_L3_IPV6 = 4"
definition BPF_F_ADJ_ROOM_ENCAP_L4_UDP :: u64 where "BPF_F_ADJ_ROOM_ENCAP_L4_UDP = 16"

text \<open>Growing the room at the MAC layer inserts bytes between the Ethernet header and the rest.\<close>

definition adjust_room_ok :: "(packet \<Rightarrow> int \<Rightarrow> u32 \<Rightarrow> u64 \<Rightarrow> packet option) \<Rightarrow> bool" where
  "adjust_room_ok f \<longleftrightarrow> (\<forall>p n fl p'. f p n BPF_ADJ_ROOM_MAC fl = Some p' \<longrightarrow> 0 \<le> n \<longrightarrow>
     length p' = length p + nat n \<and> take 14 p' = take 14 p \<and> drop (14 + nat n) p' = drop 14 p)"

definition kernel_adjust_room :: "packet \<Rightarrow> int \<Rightarrow> u32 \<Rightarrow> u64 \<Rightarrow> packet option" where
  "kernel_adjust_room p n mode fl =
     (if 0 \<le> n \<and> mode = BPF_ADJ_ROOM_MAC \<and> 14 \<le> length p
      then Some (take 14 p @ replicate (nat n) 0 @ drop 14 p) else None)"

definition tc_kernel :: tc_env where
  "tc_kernel = \<lparr>bpf_skb_adjust_room = kernel_adjust_room\<rparr>"

lemma kernel_adjust_room_ok: "adjust_room_ok (bpf_skb_adjust_room tc_kernel)"
  by (auto simp: adjust_room_ok_def tc_kernel_def kernel_adjust_room_def min_absorb1 split: if_splits)

lemma adjust_room_shape:
  assumes "adjust_room_ok f" and "f p n BPF_ADJ_ROOM_MAC fl = Some p'" and "0 \<le> n" and "14 \<le> length p"
  obtains g where "length g = nat n" and "p' = take 14 p @ g @ drop 14 p"
proof
  have l: "length p' = length p + nat n" "take 14 p' = take 14 p" "drop (14 + nat n) p' = drop 14 p"
    using assms unfolding adjust_room_ok_def by blast+
  show "length (bytes_at p' 14 (nat n)) = nat n" using l(1) assms(4) by simp
  show "p' = take 14 p @ bytes_at p' 14 (nat n) @ drop 14 p"
    by (metis l(2,3) append_take_drop_id drop_drop add.commute)
qed

end
