(* ===== verification/Katran_Health.thy ===== *)
theory Katran_Health
  imports Katran_Tunnel Katran_Icmp Tc_Env
begin

text \<open>
  The health-check programs of katran, which tunnel locally generated probes to the real named by
  the packet mark: \<open>healthchecking_kern.c\<close> with the routines of \<open>healthchecking_helpers.h\<close>, which
  builds the outer headers itself, and \<open>healthchecking_ipip.c\<close>, which leaves that to a tunnel
  interface.
\<close>

section \<open>Constants and structs\<close>

definition HC_MAIN_INTF_POSITION :: u32 where "HC_MAIN_INTF_POSITION = 3"
definition REDIRECT_EGRESS :: u64 where "REDIRECT_EGRESS = 0"
definition HC_MAX_PACKET_SIZE :: u32 where "HC_MAX_PACKET_SIZE = 1474"
definition GENERIC_STATS_INDEX :: u32 where "GENERIC_STATS_INDEX = 0"
definition V6DADDR :: u8 where "V6DADDR = 1"
definition HC_SRC_MAC_POS :: u32 where "HC_SRC_MAC_POS = 0"
definition HC_DST_MAC_POS :: u32 where "HC_DST_MAC_POS = 1"
definition BPF_F_TUNINFO_IPV6 :: u64 where "BPF_F_TUNINFO_IPV6 = 1"

record hc_real_definition =
  hc_daddr :: addr4
  hc_flags :: u8

record hc_stats =
  pckts_processed :: u64
  pckts_dropped :: u64
  pckts_skipped :: u64
  pckts_too_big :: u64

record hc_key =
  hck_addr :: addr4
  hck_port :: u16
  hck_proto :: u8

record hc_mac =
  m0 :: u8  m1 :: u8  m2 :: u8  m3 :: u8  m4 :: u8  m5 :: u8

definition mac_bytes :: "hc_mac \<Rightarrow> u8 list" where
  "mac_bytes m = [m0 m, m1 m, m2 m, m3 m, m4 m, m5 m]"

record hc_maps =
  hc_ctrl_map :: "u32 \<rightharpoonup> u32"
  hc_reals_map :: "u32 \<rightharpoonup> hc_real_definition"
  hc_pckt_srcs_map :: "u32 \<rightharpoonup> hc_real_definition"
  hc_pckt_macs :: "u32 \<rightharpoonup> hc_mac"
  hc_stats_map :: "u32 \<rightharpoonup> hc_stats"
  per_hckey_stats :: "u32 \<rightharpoonup> u64"
  hc_key_map :: "hc_key \<rightharpoonup> u32"

definition hc_count :: "(hc_stats \<Rightarrow> hc_stats) \<Rightarrow> hc_maps \<Rightarrow> hc_maps" where
  "hc_count f s = s\<lparr>hc_stats_map := (hc_stats_map s)
     (GENERIC_STATS_INDEX := map_option f (hc_stats_map s GENERIC_STATS_INDEX))\<rparr>"

definition inc_processed :: "hc_stats \<Rightarrow> hc_stats" where
  "inc_processed x = x\<lparr>pckts_processed := pckts_processed x + 1\<rparr>"

definition inc_dropped :: "hc_stats \<Rightarrow> hc_stats" where
  "inc_dropped x = x\<lparr>pckts_dropped := pckts_dropped x + 1\<rparr>"

definition inc_skipped :: "hc_stats \<Rightarrow> hc_stats" where
  "inc_skipped x = x\<lparr>pckts_skipped := pckts_skipped x + 1\<rparr>"

definition inc_too_big :: "hc_stats \<Rightarrow> hc_stats" where
  "inc_too_big x = x\<lparr>pckts_too_big := pckts_too_big x + 1\<rparr>"

lemmas inc_defs = inc_processed_def inc_dropped_def inc_skipped_def inc_too_big_def

section \<open>healthchecking\_helpers.h\<close>

text \<open>\<open>None\<close> inside is the result \<open>false\<close>: there is no key to count under.\<close>

definition set_hc_key :: "skb \<Rightarrow> bool \<Rightarrow> hc_key option option" where
  "set_hc_key b is_ipv6 = (
     let data = skb_data b; iphdr = 14
     in do {
       k \<leftarrow> (if is_ipv6 then
               (if iphdr + 40 > length data then Some None
                else do {
                  daddr \<leftarrow> rd data (iphdr + 24) 16;
                  nexthdr \<leftarrow> ld8 data (iphdr + 6);
                  Some (Some (le_addr daddr, nexthdr, iphdr + 40)) })
             else
               (if iphdr + 20 > length data then Some None
                else do {
                  daddr \<leftarrow> ld32 data (iphdr + 16);
                  protocol \<leftarrow> ld8 data (iphdr + 9);
                  Some (Some (addr0\<lparr>w0 := daddr\<rparr>, protocol, iphdr + 20)) }));
       case k of
         None \<Rightarrow> Some None
       | Some (a, pr, transport_hdr) \<Rightarrow>
           if pr = IPPROTO_TCP then
             (if transport_hdr + 20 > length data then Some None
              else do {
                dest \<leftarrow> ld16 data (transport_hdr + 2);
                Some (Some \<lparr>hck_addr = a, hck_port = dest, hck_proto = pr\<rparr>) })
           else if pr = IPPROTO_UDP then
             (if transport_hdr + 8 > length data then Some None
              else do {
                dest \<leftarrow> ld16 data (transport_hdr + 2);
                Some (Some \<lparr>hck_addr = a, hck_port = dest, hck_proto = pr\<rparr>) })
           else Some None })"

definition hc_encap_ipip ::
  "tc_env \<Rightarrow> hc_maps \<Rightarrow> skb \<Rightarrow> hc_real_definition \<Rightarrow> bool \<Rightarrow> (bool \<times> skb) option" where
  "hc_encap_ipip env s b real is_ipv6 = (
     let pkt_len = (ucast (skb_len b - 14) :: u16)
     in if hc_flags real = V6DADDR then
          (case hc_pckt_srcs_map s V6_SRC_INDEX of
             None \<Rightarrow> Some (False, b)
           | Some src \<Rightarrow>
               (case bpf_skb_adjust_room env (skb_data b) 40 BPF_ADJ_ROOM_MAC
                       (BPF_F_ADJ_ROOM_FIXED_GSO OR BPF_F_ADJ_ROOM_ENCAP_L3_IPV6) of
                  None \<Rightarrow> Some (False, b)
                | Some p \<Rightarrow> (
                    let b = b\<lparr>skb_data := p, skb_len := skb_len b + 40\<rparr>
                    in if 14 + 40 > length p then Some (False, b)
                       else do {
                         p \<leftarrow> st16 p 12 BE_ETH_P_IPV6;
                         let pr = (if \<not> is_ipv6 then IPPROTO_IPIP else IPPROTO_IPV6);
                         p \<leftarrow> create_v6_hdr p 14 DEFAULT_TOS (hc_daddr src) (hc_daddr real) pkt_len pr;
                         Some (True, b\<lparr>skb_data := p\<rparr>) })))
        else
          (case hc_pckt_srcs_map s V4_SRC_INDEX of
             None \<Rightarrow> Some (False, b)
           | Some src \<Rightarrow>
               (case bpf_skb_adjust_room env (skb_data b) 20 BPF_ADJ_ROOM_MAC
                       (BPF_F_ADJ_ROOM_FIXED_GSO OR BPF_F_ADJ_ROOM_ENCAP_L3_IPV4) of
                  None \<Rightarrow> Some (False, b)
                | Some p \<Rightarrow> (
                    let b = b\<lparr>skb_data := p, skb_len := skb_len b + 20\<rparr>
                    in if 14 + 20 > length p then Some (False, b)
                       else do {
                         p \<leftarrow> create_v4_hdr p 14 DEFAULT_TOS (w0 (hc_daddr src)) (w0 (hc_daddr real))
                                pkt_len IPPROTO_IPIP;
                         Some (True, b\<lparr>skb_data := p\<rparr>) }))))"

definition gue_sport :: "u32 \<Rightarrow> u16" where
  "gue_sport seed = ucast ((seed XOR drop_bit 16 seed) AND 0xFFFF)"

definition hc_encap_gue ::
  "tc_env \<Rightarrow> hc_maps \<Rightarrow> skb \<Rightarrow> hc_real_definition \<Rightarrow> bool \<Rightarrow> (bool \<times> skb) option" where
  "hc_encap_gue env s b real is_ipv6 = (
     let pkt_len = (ucast (skb_len b - 14) :: u16)
     in if hc_flags real = V6DADDR then
          (let sp = gue_sport (w0 (hc_daddr real) OR w3 (hc_daddr real))
           in case hc_pckt_srcs_map s V6_SRC_INDEX of
             None \<Rightarrow> Some (False, b)
           | Some src \<Rightarrow>
               (case bpf_skb_adjust_room env (skb_data b) 48 BPF_ADJ_ROOM_MAC
                       (BPF_F_ADJ_ROOM_FIXED_GSO OR BPF_F_ADJ_ROOM_ENCAP_L3_IPV6
                        OR BPF_F_ADJ_ROOM_ENCAP_L4_UDP) of
                  None \<Rightarrow> Some (False, b)
                | Some p \<Rightarrow> (
                    let b = b\<lparr>skb_data := p, skb_len := skb_len b + 48\<rparr>
                    in if 14 + 40 + 8 > length p then Some (False, b)
                       else do {
                         p \<leftarrow> st16 p 12 BE_ETH_P_IPV6;
                         let pkt_len = pkt_len + 8;
                         p \<leftarrow> create_udp_hdr p 54 sp GUE_DPORT pkt_len GUE_CSUM;
                         p \<leftarrow> create_v6_hdr p 14 DEFAULT_TOS (hc_daddr src) (hc_daddr real) pkt_len IPPROTO_UDP;
                         Some (True, b\<lparr>skb_data := p\<rparr>) })))
        else
          (let sp = gue_sport (w0 (hc_daddr real))
           in case hc_pckt_srcs_map s V4_SRC_INDEX of
             None \<Rightarrow> Some (False, b)
           | Some src \<Rightarrow>
               (case bpf_skb_adjust_room env (skb_data b) 28 BPF_ADJ_ROOM_MAC
                       (BPF_F_ADJ_ROOM_FIXED_GSO OR BPF_F_ADJ_ROOM_ENCAP_L3_IPV4
                        OR BPF_F_ADJ_ROOM_ENCAP_L4_UDP) of
                  None \<Rightarrow> Some (False, b)
                | Some p \<Rightarrow> (
                    let b = b\<lparr>skb_data := p, skb_len := skb_len b + 28\<rparr>
                    in if 14 + 20 + 8 > length p then Some (False, b)
                       else do {
                         let pkt_len = pkt_len + 8;
                         p \<leftarrow> create_udp_hdr p 34 sp GUE_DPORT pkt_len GUE_CSUM;
                         p \<leftarrow> create_v4_hdr p 14 DEFAULT_TOS (w0 (hc_daddr src)) (w0 (hc_daddr real))
                                pkt_len IPPROTO_UDP;
                         Some (True, b\<lparr>skb_data := p\<rparr>) }))))"

section \<open>healthchecking\_kern.c\<close>

text \<open>\<open>*p += 1\<close> through a pointer to 32 bits, on a 64-bit counter.\<close>

definition inc_low32 :: "u64 \<Rightarrow> u64" where
  "inc_low32 x = (x AND NOT (mask 32)) OR ucast ((ucast x :: u32) + 1)"

definition count_hc_key :: "hc_key option \<Rightarrow> hc_maps \<Rightarrow> hc_maps" where
  "count_hc_key k s =
     (case Option.bind k (hc_key_map s) of
        None \<Rightarrow> s
      | Some i \<Rightarrow> s\<lparr>per_hckey_stats := (per_hckey_stats s)
                     (i := map_option inc_low32 (per_hckey_stats s i))\<rparr>)"

definition healthcheck_encap ::
  "build \<Rightarrow> tc_env \<Rightarrow> skb \<Rightarrow> hc_maps \<Rightarrow> (tc_ret \<times> skb \<times> hc_maps) option" where
  "healthcheck_encap cfg env b s =
     (if hc_stats_map s GENERIC_STATS_INDEX = None then Some (Tc TC_ACT_UNSPEC, b, s)
      else if skb_mark b = 0 then Some (Tc TC_ACT_UNSPEC, b, hc_count inc_skipped s)
      else case hc_reals_map s (skb_mark b) of
        None \<Rightarrow> Some (Tc TC_ACT_UNSPEC, b, hc_count inc_skipped s)
      | Some real \<Rightarrow>
          if skb_len b > HC_MAX_PACKET_SIZE then
            Some (Tc TC_ACT_SHOT, b, hc_count inc_too_big (hc_count inc_dropped s))
          else
            (case hc_ctrl_map s HC_MAIN_INTF_POSITION of
               None \<Rightarrow> Some (Tc TC_ACT_SHOT, b, hc_count inc_dropped s)
             | Some intf_ifindex \<Rightarrow>
                 (case (hc_pckt_macs s HC_SRC_MAC_POS, hc_pckt_macs s HC_DST_MAC_POS) of
                    (Some esrc, Some edst) \<Rightarrow>
                      if 14 > length (skb_data b) then Some (Tc TC_ACT_SHOT, b, hc_count inc_dropped s)
                      else do {
                        h_proto \<leftarrow> ld16 (skb_data b) 12;
                        let is_ipv6 = (h_proto = BE_ETH_P_IPV6);
                        hckey \<leftarrow> set_hc_key b is_ipv6;
                        let b = b\<lparr>skb_mark := 0\<rparr>;
                        (ok, b) \<leftarrow> (if GUE_ENCAP cfg then hc_encap_gue env s b real is_ipv6
                                   else hc_encap_ipip env s b real is_ipv6);
                        if \<not> ok then Some (Tc TC_ACT_SHOT, b, hc_count inc_dropped s)
                        else if 14 > length (skb_data b) then
                          Some (Tc TC_ACT_SHOT, b, hc_count inc_dropped s)
                        else do {
                          p \<leftarrow> wr (skb_data b) 6 (mac_bytes esrc);
                          p \<leftarrow> wr p 0 (mac_bytes edst);
                          let s = hc_count inc_processed s;
                          Some (Redirect intf_ifindex REDIRECT_EGRESS, b\<lparr>skb_data := p\<rparr>,
                            count_hc_key hckey s) } }
                  | _ \<Rightarrow> Some (Tc TC_ACT_SHOT, b, hc_count inc_dropped s))))"

section \<open>healthchecking\_ipip.c\<close>

definition MAX_PACKET_SIZE :: u32 where "MAX_PACKET_SIZE = 1474"

record bpf_tunnel_key =
  remote_ip :: addr4
  tunnel_ttl :: u8

text \<open>The result has the tunnel key and flag handed to \<open>bpf_skb_set_tunnel_key\<close>, if it was called.\<close>

definition healthcheck_encap_ipip ::
  "skb \<Rightarrow> hc_maps \<Rightarrow> tc_ret \<times> skb \<times> (bpf_tunnel_key \<times> u64) option \<times> hc_maps" where
  "healthcheck_encap_ipip b s =
     (if hc_stats_map s GENERIC_STATS_INDEX = None then (Tc TC_ACT_UNSPEC, b, None, s)
      else if skb_mark b = 0 then (Tc TC_ACT_UNSPEC, b, None, hc_count inc_skipped s)
      else case hc_reals_map s (skb_mark b) of
        None \<Rightarrow> (Tc TC_ACT_UNSPEC, b, None, hc_count inc_skipped s)
      | Some real \<Rightarrow>
          if skb_len b > MAX_PACKET_SIZE then
            (Tc TC_ACT_SHOT, b, None, hc_count inc_too_big (hc_count inc_dropped s))
          else
            (case (hc_ctrl_map s 1, hc_ctrl_map s 2) of
               (Some v4_intf_ifindex, Some v6_intf_ifindex) \<Rightarrow> (
                 let b = b\<lparr>skb_mark := 0\<rparr>;
                     (remote, tun_flag, ifindex) =
                       (if hc_flags real = V6DADDR
                        then (hc_daddr real, BPF_F_TUNINFO_IPV6, v6_intf_ifindex)
                        else (addr0\<lparr>w0 := w0 (hc_daddr real)\<rparr>, 0, v4_intf_ifindex));
                     tkey = \<lparr>remote_ip = remote, tunnel_ttl = DEFAULT_TTL\<rparr>
                 in (Redirect ifindex REDIRECT_EGRESS, b, Some (tkey, tun_flag), hc_count inc_processed s))
             | _ \<Rightarrow> (Tc TC_ACT_SHOT, b, None, hc_count inc_dropped s)))"

section \<open>Bounds\<close>

lemma set_hc_key_safe [safe_intros]: "set_hc_key b v6 \<noteq> None"
  unfolding wp_total set_hc_key_def Let_def by (auto simp: wp_simps)

lemma length_mac_bytes [simp]: "length (mac_bytes m) = 6"
  by (simp add: mac_bytes_def)

text \<open>Neither encapsulation touches the mark.\<close>

lemma hc_encap_wp:
  assumes "\<And>ok b'. skb_mark b' = skb_mark b \<Longrightarrow> Q (ok, b')"
  shows "wp (hc_encap_ipip env s b real v6) Q" and "wp (hc_encap_gue env s b real v6) Q"
  unfolding hc_encap_ipip_def hc_encap_gue_def Let_def
  by (auto simp: wp_ctrl wp_st16 assms intro!: builder_wp)

section \<open>Accounting\<close>

text \<open>What a run does to the counters: exactly one of processed, dropped and skipped goes up.\<close>

definition outcomes :: "hc_maps \<Rightarrow> u64" where
  "outcomes s = (case hc_stats_map s GENERIC_STATS_INDEX of None \<Rightarrow> 0
     | Some x \<Rightarrow> pckts_processed x + pckts_dropped x + pckts_skipped x)"

lemma outcomes_count [simp]:
  assumes "hc_stats_map s GENERIC_STATS_INDEX \<noteq> None"
  shows "outcomes (hc_count inc_processed s) = outcomes s + 1"
    "outcomes (hc_count inc_dropped s) = outcomes s + 1"
    "outcomes (hc_count inc_skipped s) = outcomes s + 1"
    "outcomes (hc_count inc_too_big s) = outcomes s"
  using assms by (auto simp: outcomes_def hc_count_def inc_defs)

lemma hc_count_dom [simp]:
  "hc_stats_map (hc_count f s) k = None \<longleftrightarrow> hc_stats_map s k = None"
  by (simp add: hc_count_def)

lemma count_hc_key_stats [simp]: "hc_stats_map (count_hc_key k s) = hc_stats_map s"
  by (simp add: count_hc_key_def split: option.splits)

lemma outcomes_hc_key [simp]: "outcomes (count_hc_key k s) = outcomes s"
  by (simp add: outcomes_def)

text \<open>The contract both programs share: what a verdict says about the packet and the counters.\<close>

definition hc_step_ok :: "skb \<Rightarrow> hc_maps \<Rightarrow> tc_ret \<times> skb \<times> hc_maps \<Rightarrow> bool" where
  "hc_step_ok b s x = (case x of (r, b', s') \<Rightarrow>
     (hc_stats_map s GENERIC_STATS_INDEX \<noteq> None \<longrightarrow> outcomes s' = outcomes s + 1) \<and>
     (hc_stats_map s' GENERIC_STATS_INDEX = None \<longleftrightarrow> hc_stats_map s GENERIC_STATS_INDEX = None) \<and>
     (r = Tc TC_ACT_UNSPEC \<longrightarrow> b' = b) \<and>
     (\<forall>i fl. r = Redirect i fl \<longrightarrow> skb_mark b \<noteq> 0 \<and> skb_mark b' = 0))"

lemma healthcheck_encap_wp: "wp (healthcheck_encap cfg env b s) (hc_step_ok b s)"
  unfolding healthcheck_encap_def Let_def
  by (auto simp: wp_ctrl wp_ld16 wp_wr hc_step_ok_def tc_defs split: option.splits
      intro!: wpI [OF set_hc_key_safe] hc_encap_wp)

locale health_program =
  fixes prog :: "skb \<Rightarrow> hc_maps \<Rightarrow> (tc_ret \<times> skb \<times> hc_maps) option"
  assumes prog_ok: "wp (prog b s) (hc_step_ok b s)"
    and unmarked: "skb_mark b = 0 \<Longrightarrow> \<exists>s'. prog b s = Some (Tc TC_ACT_UNSPEC, b, s')"
begin

fun run_all :: "skb list \<Rightarrow> hc_maps \<Rightarrow> hc_maps option" where
  "run_all [] s = Some s"
| "run_all (b # bs) s = do { (_, _, s) \<leftarrow> prog b s; run_all bs s }"

lemma run_all_outcomes:
  assumes "hc_stats_map s GENERIC_STATS_INDEX \<noteq> None"
  shows "\<exists>s'. run_all bs s = Some s' \<and> outcomes s' = outcomes s + of_nat (length bs)"
  using assms
proof (induction bs arbitrary: s)
  case (Cons b bs)
  obtain r b' s1 where p: "prog b s = Some (r, b', s1)" and k: "hc_step_ok b s (r, b', s1)"
    using prog_ok [of b s] by (auto simp: wp_def)
  from k Cons.prems have "hc_stats_map s1 GENERIC_STATS_INDEX \<noteq> None" "outcomes s1 = outcomes s + 1"
    by (simp_all add: hc_step_ok_def)
  with Cons.IH [of s1] p show ?case by (auto simp: add.assoc)
qed simp

text \<open>A packet the program has redirected is left alone when it meets the program again.\<close>

lemma no_recursion:
  assumes "prog b s = Some (Redirect i fl, b', s')"
  shows "\<exists>s''. prog b' s' = Some (Tc TC_ACT_UNSPEC, b', s'')"
  using wpD [OF prog_ok assms] unmarked [of b' s'] by (simp add: hc_step_ok_def)

end

interpretation hc_kern: health_program "healthcheck_encap cfg env"
  by unfold_locales (rule healthcheck_encap_wp, simp add: healthcheck_encap_def)

text \<open>The other program, without the tunnel key it hands to the kernel.\<close>

definition hc_ipip_prog :: "skb \<Rightarrow> hc_maps \<Rightarrow> (tc_ret \<times> skb \<times> hc_maps) option" where
  "hc_ipip_prog b s = (case healthcheck_encap_ipip b s of (r, b', _, s') \<Rightarrow> Some (r, b', s'))"

interpretation hc_ipip: health_program hc_ipip_prog
  by unfold_locales
    (auto simp: hc_ipip_prog_def healthcheck_encap_ipip_def wp_Some hc_step_ok_def tc_defs Let_def
      split: option.splits)

text \<open>The health-check program finishes without touching memory outside the packet on every packet
  of every sequence, and its counters account for each of them: once the statistics entry exists,
  processed, dropped and skipped together grow by the number of packets.\<close>

theorem healthcheck_accounting:
  assumes "hc_stats_map s GENERIC_STATS_INDEX \<noteq> None"
  shows "\<exists>s'. hc_kern.run_all cfg env bs s = Some s' \<and> outcomes s' = outcomes s + of_nat (length bs)"
  by (rule hc_kern.run_all_outcomes [OF assms])

text \<open>The health-check programs cannot loop on their own output: a packet that one of them has
  redirected into the tunnel is passed untouched when it runs through the same filter again.\<close>

theorem healthcheck_no_recursion:
  "(healthcheck_encap cfg env b s = Some (Redirect i fl, b', s') \<longrightarrow>
      (\<exists>s''. healthcheck_encap cfg env b' s' = Some (Tc TC_ACT_UNSPEC, b', s''))) \<and>
   (healthcheck_encap_ipip b s = (Redirect i fl, b', k, s') \<longrightarrow>
      (\<exists>s''. healthcheck_encap_ipip b' s' = (Tc TC_ACT_UNSPEC, b', None, s'')))"
proof (intro conjI impI)
  assume "healthcheck_encap cfg env b s = Some (Redirect i fl, b', s')"
  then show "\<exists>s''. healthcheck_encap cfg env b' s' = Some (Tc TC_ACT_UNSPEC, b', s'')"
    by (rule hc_kern.no_recursion)
next
  assume "healthcheck_encap_ipip b s = (Redirect i fl, b', k, s')"
  then have "skb_mark b' = 0"
    using wpD [OF hc_ipip.prog_ok, of b s "(Redirect i fl, b', s')"]
    by (simp add: hc_ipip_prog_def hc_step_ok_def)
  then show "\<exists>s''. healthcheck_encap_ipip b' s' = (Tc TC_ACT_UNSPEC, b', None, s'')"
    by (simp add: healthcheck_encap_ipip_def)
qed

section \<open>The tunnelled probe\<close>

text \<open>What leaves for an IPv4 real: the configured Ethernet addresses, the type of the old frame,
  an IPv4 header with a valid checksum from our source to the real, and the probe.\<close>

definition probe4 ::
  "hc_mac \<Rightarrow> hc_mac \<Rightarrow> skb \<Rightarrow> hc_real_definition \<Rightarrow> hc_real_definition \<Rightarrow> packet \<Rightarrow> bool" where
  "probe4 edst esrc b src real p' \<longleftrightarrow> (\<exists>ident c.
     length ident = 2 \<and>
     p' = mac_bytes edst @ mac_bytes esrc @ bytes_at (skb_data b) 12 2
       @ ipv4_hdr DEFAULT_TOS (ucast (skb_len b - 14) + 20) ident IPPROTO_IPIP c
           (w0 (hc_daddr src)) (w0 (hc_daddr real))
       @ drop 14 (skb_data b) \<and>
     ip_csum_ok (ipv4_hdr DEFAULT_TOS (ucast (skb_len b - 14) + 20) ident IPPROTO_IPIP c
           (w0 (hc_daddr src)) (w0 (hc_daddr real))))"

lemma hc_encap_ipip_bytes:
  assumes "adjust_room_ok (bpf_skb_adjust_room env)" and "14 \<le> length (skb_data b)"
    and "hc_flags real \<noteq> V6DADDR"
    and "\<And>src b' ident c. hc_pckt_srcs_map s V4_SRC_INDEX = Some src \<Longrightarrow> length ident = 2 \<Longrightarrow>
      ip_csum_ok (ipv4_hdr DEFAULT_TOS (ucast (skb_len b - 14) + 20) ident IPPROTO_IPIP c
           (w0 (hc_daddr src)) (w0 (hc_daddr real))) \<Longrightarrow>
      skb_data b' = take 14 (skb_data b) @ ipv4_hdr DEFAULT_TOS (ucast (skb_len b - 14) + 20) ident
           IPPROTO_IPIP c (w0 (hc_daddr src)) (w0 (hc_daddr real)) @ drop 14 (skb_data b) \<Longrightarrow> Q (True, b')"
    and "\<And>b'. Q (False, b')"
  shows "wp (hc_encap_ipip env s b real v6) Q"
proof (cases "bpf_skb_adjust_room env (skb_data b) 20 BPF_ADJ_ROOM_MAC
    (BPF_F_ADJ_ROOM_FIXED_GSO OR BPF_F_ADJ_ROOM_ENCAP_L3_IPV4)")
  case None
  then show ?thesis using assms(3,5) by (simp add: hc_encap_ipip_def Let_def wp_ctrl)
next
  case (Some p)
  obtain g where g: "length g = 20" "p = take 14 (skb_data b) @ g @ drop 14 (skb_data b)"
    using adjust_room_shape [OF assms(1) Some _ assms(2)] by auto
  show ?thesis using assms(2,3,5) Some g unfolding hc_encap_ipip_def Let_def
    by (auto simp: wp_ctrl min_absorb1 intro!: create_v4_hdr_bytes assms(4) [of _ "bytes_at g 4 2"])
qed

lemma mac_writes:
  assumes "14 \<le> length p"
  shows "wp (wr p 6 (mac_bytes m)) (\<lambda>p. wp (wr p 0 (mac_bytes d)) Q) =
    Q (mac_bytes d @ mac_bytes m @ drop 12 p)"
  using assms by (simp add: wp_wr patch_def)

lemma probe4I:
  assumes "length ident = 2"
    and "ip_csum_ok (ipv4_hdr DEFAULT_TOS (ucast (skb_len b - 14) + 20) ident IPPROTO_IPIP c
           (w0 (hc_daddr src)) (w0 (hc_daddr real)))"
  shows "probe4 edst esrc b src real (mac_bytes edst @ mac_bytes esrc @ drop 12 (take 14 (skb_data b)) @
    ipv4_hdr DEFAULT_TOS (ucast (skb_len b - 14) + 20) ident IPPROTO_IPIP c (w0 (hc_daddr src))
      (w0 (hc_daddr real)) @ drop 14 (skb_data b))"
  unfolding probe4_def using assms by (intro exI [of _ ident] exI [of _ c]) (simp add: drop_take)

lemma healthcheck_bytes_wp:
  assumes "adjust_room_ok (bpf_skb_adjust_room env)" and "\<not> GUE_ENCAP cfg"
    and "hc_reals_map s (skb_mark b) = Some real" and "hc_flags real \<noteq> V6DADDR"
  shows "wp (healthcheck_encap cfg env b s) (\<lambda>(r, b', s'). \<forall>i fl. r = Redirect i fl \<longrightarrow>
    (\<exists>edst esrc src. hc_pckt_macs s HC_DST_MAC_POS = Some edst \<and>
      hc_pckt_macs s HC_SRC_MAC_POS = Some esrc \<and> hc_pckt_srcs_map s V4_SRC_INDEX = Some src \<and>
      hc_ctrl_map s HC_MAIN_INTF_POSITION = Some i \<and>
      skb_len b \<le> HC_MAX_PACKET_SIZE \<and> probe4 edst esrc b src real (skb_data b')))"
  using assms(2-4) unfolding healthcheck_encap_def Let_def
  by (auto simp: wp_ctrl wp_ld16 mac_writes not_less split: option.splits
     intro!: wpI [OF set_hc_key_safe] hc_encap_ipip_bytes [OF assms(1)] intro: probe4I)

text \<open>C22: When the health-check program redirects a probe for an IPv4 real (IPIP build), the frame it
  sends out of the configured interface is byte for byte the probe behind a new IPv4 header with a
  valid checksum, from the configured source to the real of the mark, under the configured Ethernet
  addresses; and a probe longer than the limit is never sent.\<close>

theorem healthcheck_probe_bytes:
  assumes "adjust_room_ok (bpf_skb_adjust_room env)" and "\<not> GUE_ENCAP cfg"
    and "hc_reals_map s (skb_mark b) = Some real" and "hc_flags real \<noteq> V6DADDR"
    and "healthcheck_encap cfg env b s = Some (Redirect i fl, b', s')"
  shows "\<exists>edst esrc src. hc_pckt_macs s HC_DST_MAC_POS = Some edst \<and>
    hc_pckt_macs s HC_SRC_MAC_POS = Some esrc \<and> hc_pckt_srcs_map s V4_SRC_INDEX = Some src \<and>
    hc_ctrl_map s HC_MAIN_INTF_POSITION = Some i \<and>
    skb_len b \<le> HC_MAX_PACKET_SIZE \<and> probe4 edst esrc b src real (skb_data b')"
  using wpD [OF healthcheck_bytes_wp [OF assms(1-4)] assms(5)] by blast

text \<open>A configured health checker and a marked probe.\<close>

definition hc_real1 :: hc_real_definition where
  "hc_real1 = \<lparr>hc_daddr = addr0\<lparr>w0 := 0x0100000A\<rparr>, hc_flags = 0\<rparr>"

definition hc_loaded :: hc_maps where
  "hc_loaded = \<lparr>hc_ctrl_map = [3 \<mapsto> 9], hc_reals_map = [5 \<mapsto> hc_real1],
     hc_pckt_srcs_map = (\<lambda>_. Some hc_real1),
     hc_pckt_macs = (\<lambda>_. Some \<lparr>m0 = 1, m1 = 2, m2 = 3, m3 = 4, m4 = 5, m5 = 6\<rparr>),
     hc_stats_map = [0 \<mapsto> \<lparr>pckts_processed = 0, pckts_dropped = 0, pckts_skipped = 0, pckts_too_big = 0\<rparr>],
     per_hckey_stats = Map.empty, hc_key_map = Map.empty\<rparr>"

definition probe0 :: skb where
  "probe0 = \<lparr>skb_data = replicate 40 7, skb_len = 40, skb_mark = 5\<rparr>"

lemma probe0_redirected:
  "\<exists>b' s'. healthcheck_encap default_build tc_kernel probe0 hc_loaded = Some (Redirect 9 0, b', s')"
proof -
  have "wp (healthcheck_encap default_build tc_kernel probe0 hc_loaded) (\<lambda>x. fst x = Redirect 9 0)"
    by (simp add: healthcheck_encap_def probe0_def hc_loaded_def hc_real1_def default_build_def tc_kernel_def
        hc_encap_ipip_def GENERIC_STATS_INDEX_def HC_MAIN_INTF_POSITION_def HC_MAX_PACKET_SIZE_def V6DADDR_def
        kernel_adjust_room_def BPF_ADJ_ROOM_MAC_def REDIRECT_EGRESS_def
        wp_ctrl wp_ld16 wp_wr wpI [OF set_hc_key_safe] create_v4_hdr_el [OF refl])
  then show ?thesis by (auto simp: wp_def)
qed

theorem healthcheck_probe_bytes_witness:
  "\<exists>b' s' m. healthcheck_encap default_build tc_kernel probe0 hc_loaded = Some (Redirect 9 0, b', s') \<and>
     probe4 m m probe0 hc_real1 hc_real1 (skb_data b')"
proof -
  obtain b' s' where r: "healthcheck_encap default_build tc_kernel probe0 hc_loaded = Some (Redirect 9 0, b', s')"
    using probe0_redirected by blast
  have "hc_reals_map hc_loaded (skb_mark probe0) = Some hc_real1" "hc_flags hc_real1 \<noteq> V6DADDR"
    "\<not> GUE_ENCAP default_build"
    by (simp_all add: hc_loaded_def probe0_def hc_real1_def V6DADDR_def default_build_def)
  from healthcheck_probe_bytes [OF kernel_adjust_room_ok this(3,1,2) r] r
  show ?thesis by (auto simp: hc_loaded_def)
qed

theorem healthcheck_accounting_witness:
  "\<exists>s'. hc_kern.run_all default_build tc_kernel [probe0, probe0\<lparr>skb_mark := 0\<rparr>] hc_loaded = Some s' \<and>
     outcomes s' = 2"
  using healthcheck_accounting [of hc_loaded default_build tc_kernel "[probe0, probe0\<lparr>skb_mark := 0\<rparr>]"]
  by (simp add: hc_loaded_def GENERIC_STATS_INDEX_def outcomes_def)

theorem healthcheck_no_recursion_witness:
  "\<exists>b' s' s''. healthcheck_encap default_build tc_kernel probe0 hc_loaded = Some (Redirect 9 0, b', s') \<and>
     healthcheck_encap default_build tc_kernel b' s' = Some (Tc TC_ACT_UNSPEC, b', s'')"
  using probe0_redirected healthcheck_no_recursion by blast

end
