(* ===== verification/Katran_Wire.thy ===== *)
theory Katran_Wire
  imports Katran_Tunnel Katran_Icmp
begin

text \<open>
  What the bytes on the wire are worth to the next machine: the TTL is decremented and the checksum of the
  header still fits, an echo request is answered by a well-formed echo reply, and the outer UDP checksum of
  a GUE datagram is the right one although the payload is never read.
\<close>

section \<open>TTL\<close>

lemma fold_inc16:
  "unat (ucast ((((ucast c :: u32) + 1) AND 0xffff) + drop_bit 16 ((ucast c :: u32) + 1)) :: u16) =
     (if unat (c :: u16) = 65535 then 1 else unat c + 1)"
proof -
  have c: "unat c < 65536" by (rule unat_u16_less)
  have u: "unat ((ucast c :: u32) + 1) = unat c + 1"
    using c by (simp add: unat_word_ariths unat_ucast_mod)
  have "unat ((w AND 0xffff) + drop_bit 16 w) = (unat w mod 65536 + unat w div 65536) mod 2 ^ 32"
    for w :: u32
    by (simp only: unat_word_ariths(1) unat_and_ffff unat_drop) simp
  from this [of "(ucast c :: u32) + 1"]
  have "unat ((((ucast c :: u32) + 1) AND 0xffff) + drop_bit 16 ((ucast c :: u32) + 1)) =
      ((unat c + 1) mod 65536 + (unat c + 1) div 65536) mod 2 ^ 32"
    by (simp only: u)
  then show ?thesis using c by (auto simp: unat_ucast_mod)
qed

lemma sum16_ttl:
  assumes "length h = 20" and "h ! 8 \<noteq> 0" and "length cs = 2"
  shows "sum16 (patch (patch h 8 [h ! 8 - 1]) 10 cs) + 1 + sum16 (bytes_at h 10 2) = sum16 h + sum16 cs"
    and "sum16 (patch (patch h 8 [h ! 8 - 1]) 10 cs) \<ge> unat (h ! 8) - 1"
proof -
  have "unat (h ! 8 - 1) = unat (h ! 8) - 1" "0 < unat (h ! 8)"
    using assms(2) by (simp_all add: unat_minus_one unat_gt_0)
  then show "sum16 (patch (patch h 8 [h ! 8 - 1]) 10 cs) + 1 + sum16 (bytes_at h 10 2) = sum16 h + sum16 cs"
    "sum16 (patch (patch h 8 [h ! 8 - 1]) 10 cs) \<ge> unat (h ! 8) - 1"
    by (rule_tac list20 [OF assms(1)], rule_tac list2 [OF assms(3)], simp add: patch_def)+
qed

lemma decrement_ttl_valid_aux:
  assumes "length h = 20" and "ip_csum_ok h" and "h ! 8 \<noteq> 0" and "h ! 8 - 1 \<noteq> 0"
    and "unat (c :: u16) = sum16 (bytes_at h 10 2)" and "unat c' = (if unat c = 65535 then 1 else unat c + 1)"
  shows "ip_csum_ok (patch (patch h 8 [h ! 8 - 1]) 10 (le_bytes 2 (c' :: u16)))"
proof -
  let ?h = "patch (patch h 8 [h ! 8 - 1]) 10 (le_bytes 2 c')"
  have s: "sum16 ?h + 1 + unat c = sum16 h + unat c'"
    using sum16_ttl(1) [OF assms(1,3), of "le_bytes 2 c'"] assms(5) by (simp add: sum16_le_bytes2)
  have "unat (h ! 8 - 1) = unat (h ! 8) - 1" using assms(3) by (simp add: unat_minus_one)
  then have "0 < unat (h ! 8) - 1" using assms(4) by (metis unat_eq_zero neq0_conv)
  then have "0 < sum16 ?h" using sum16_ttl(2) [OF assms(1,3), of "le_bytes 2 c'"] by simp
  moreover have "sum16 ?h mod 65535 = 0"
  proof (cases "unat c = 65535")
    case True
    then have "sum16 ?h + 65535 = sum16 h" using s assms(6) by simp
    then show ?thesis using assms(2) by (metis ip_csum_ok_iff mod_add_self2)
  next
    case False
    then show ?thesis using s assms(2,6) by (simp add: ip_csum_ok_iff)
  qed
  ultimately show ?thesis by (simp add: ip_csum_ok_iff)
qed

lemma decrement_ttl_v4:
  assumes "off + 20 \<le> length p" and "decrement_ttl p off False = Some (FURTHER_PROCESSING, p')"
  shows "p ! (off + 8) - 1 \<noteq> 0 \<and> (\<exists>c'. p' = patch (patch p (off + 8) [p ! (off + 8) - 1]) (off + 10) (le_bytes 2 c') \<and>
    unat (c' :: u16) = (if unat (u16_at p (off + 10) :: u16) = 65535 then 1 else unat (u16_at p (off + 10) :: u16) + 1))"
proof -
  have r: "bytes_at (patch p (off + 8) [x]) (off + 10) 2 = bytes_at p (off + 10) 2" for x
    using assms(1) by (intro bytes_at_patch_other) auto
  have "wp (decrement_ttl p off False) (\<lambda>(a, p'). a = FURTHER_PROCESSING \<longrightarrow>
     p ! (off + 8) - 1 \<noteq> 0 \<and> (\<exists>c'. p' = patch (patch p (off + 8) [p ! (off + 8) - 1]) (off + 10) (le_bytes 2 c') \<and>
    unat (c' :: u16) = (if unat (u16_at p (off + 10) :: u16) = 65535 then 1 else unat (u16_at p (off + 10) :: u16) + 1)))"
    using assms(1) fold_inc16 [of "u16_at p (off + 10)"] unfolding decrement_ttl_def Let_def
    by (auto simp: wp_simps r FURTHER_PROCESSING_def XDP_DROP_def)
  from wpD [OF this assms(2)] show ?thesis by simp
qed

text \<open>\<open>decrement_ttl\<close> keeps a valid IPv4 header valid: unless the packet is dropped, the header
  checksum, updated in place, still fits, the TTL is one less, and no other byte of the packet has
  changed.\<close>

theorem decrement_ttl_keeps_checksum:
  assumes "off + 20 \<le> length p" and "ip_csum_ok (bytes_at p off 20)" and "p ! (off + 8) \<noteq> 0"
    and "decrement_ttl p off False = Some (FURTHER_PROCESSING, p')"
  shows "ip_csum_ok (bytes_at p' off 20) \<and> p' ! (off + 8) = p ! (off + 8) - 1 \<and> length p' = length p \<and>
    (\<forall>i. i \<noteq> off + 8 \<and> i \<noteq> off + 10 \<and> i \<noteq> off + 11 \<longrightarrow> p' ! i = p ! i)"
proof -
  obtain c' :: u16 where n: "p ! (off + 8) - 1 \<noteq> 0"
    and p': "p' = patch (patch p (off + 8) [p ! (off + 8) - 1]) (off + 10) (le_bytes 2 c')"
    and c': "unat c' = (if unat (u16_at p (off + 10) :: u16) = 65535 then 1 else unat (u16_at p (off + 10) :: u16) + 1)"
    using decrement_ttl_v4 [OF assms(1,4)] by blast
  let ?h = "bytes_at p off 20"
  have h8: "?h ! 8 = p ! (off + 8)" and h10: "bytes_at ?h 10 2 = bytes_at p (off + 10) 2"
    using assms(1) by (simp_all add: drop_take add.commute)
  have "bytes_at p' off 20 = patch (patch ?h 8 [p ! (off + 8) - 1]) 10 (le_bytes 2 c')"
    using assms(1) by (simp add: p' bytes_at_patch_in)
  moreover have "ip_csum_ok (patch (patch ?h 8 [p ! (off + 8) - 1]) 10 (le_bytes 2 c'))"
    using decrement_ttl_valid_aux [of ?h "u16_at p (off + 10)" c'] assms n c' sum16_bytes2 [of "off + 10" p]
    by (simp add: h8 h10)
  ultimately show ?thesis using assms(1) by (auto simp: p' nth_patch)
qed

definition ttl_hdr :: packet where
  "ttl_hdr = [0x45, 0, 0, 20, 0, 0, 0, 0, 64, 4, 102, 228, 10, 0, 0, 1, 10, 0, 0, 2]"

theorem decrement_ttl_keeps_checksum_witness:
  "\<exists>p'. decrement_ttl ttl_hdr 0 False = Some (FURTHER_PROCESSING, p') \<and> ip_csum_ok (bytes_at p' 0 20) \<and>
     p' ! 8 = 63"
proof -
  have "wp (decrement_ttl ttl_hdr 0 False) (\<lambda>x. fst x = FURTHER_PROCESSING)"
    by (simp add: decrement_ttl_def ttl_hdr_def wp_simps)
  then obtain p' where d: "decrement_ttl ttl_hdr 0 False = Some (FURTHER_PROCESSING, p')"
    by (auto simp: wp_def)
  have "ip_csum_ok (bytes_at ttl_hdr 0 20)" by (simp add: ip_csum_ok_iff ttl_hdr_def)
  from decrement_ttl_keeps_checksum [OF _ this _ d] d show ?thesis by (auto simp: ttl_hdr_def)
qed

section \<open>Segments\<close>

text \<open>\<open>seg A B C p\<close>: the packet is \<open>A\<close>, then \<open>B\<close>, then \<open>C\<close>.  An operation at an offset into \<open>B\<close>,
  written \<open>i + j\<close> with \<open>i\<close> the length of \<open>A\<close>, is one on \<open>B\<close> alone.\<close>

definition seg :: "u8 list \<Rightarrow> u8 list \<Rightarrow> u8 list \<Rightarrow> packet \<Rightarrow> bool" where
  "seg A B C p \<longleftrightarrow> p = A @ B @ C"

named_theorems seg_elim "loads and stores inside a segment"

lemma patch_seg: "j + length bs \<le> length B \<Longrightarrow> patch (A @ B @ C) (length A + j) bs = A @ patch B j bs @ C"
  by (simp add: patch_def)

lemma seg_wr [seg_elim]:
  "seg A B C p \<Longrightarrow> i = length A \<Longrightarrow> j + length bs \<le> length B \<Longrightarrow>
     (\<And>p'. seg A (patch B j bs) C p' \<Longrightarrow> Q p') \<Longrightarrow> wp (wr p (i + j) bs) Q"
  by (auto simp: wp_wr seg_def patch_seg)

lemma seg_st [seg_elim]:
  "seg A B C p \<Longrightarrow> i = length A \<Longrightarrow> j < length B \<Longrightarrow>
     (\<And>p'. seg A (patch B j [b]) C p' \<Longrightarrow> Q p') \<Longrightarrow> wp (st8 p (i + j) b) Q"
  "seg A B C p \<Longrightarrow> i = length A \<Longrightarrow> j + 2 \<le> length B \<Longrightarrow>
     (\<And>p'. seg A (patch B j (le_bytes 2 h)) C p' \<Longrightarrow> Q p') \<Longrightarrow> wp (st16 p (i + j) h) Q"
  "seg A B C p \<Longrightarrow> i = length A \<Longrightarrow> j + 4 \<le> length B \<Longrightarrow>
     (\<And>p'. seg A (patch B j (le_bytes 4 w)) C p' \<Longrightarrow> Q p') \<Longrightarrow> wp (st32 p (i + j) w) Q"
  by (auto simp: st8_def st16_def st32_def intro!: seg_wr)

lemma seg_rd [seg_elim]:
  "seg A B C p \<Longrightarrow> i = length A \<Longrightarrow> j + n \<le> length B \<Longrightarrow>
     (seg A B C p \<Longrightarrow> Q (bytes_at B j n)) \<Longrightarrow> wp (rd p (i + j) n) Q"
  by (simp add: wp_rd seg_def)

lemma seg_ld [seg_elim]:
  "seg A B C p \<Longrightarrow> i = length A \<Longrightarrow> j < length B \<Longrightarrow> (seg A B C p \<Longrightarrow> Q8 (B ! j)) \<Longrightarrow> wp (ld8 p (i + j)) Q8"
  "seg A B C p \<Longrightarrow> i = length A \<Longrightarrow> j + 2 \<le> length B \<Longrightarrow> (seg A B C p \<Longrightarrow> Q16 (u16_at B j)) \<Longrightarrow>
     wp (ld16 p (i + j)) Q16"
  "seg A B C p \<Longrightarrow> i = length A \<Longrightarrow> j + 4 \<le> length B \<Longrightarrow> (seg A B C p \<Longrightarrow> Q32 (u32_at B j)) \<Longrightarrow>
     wp (ld32 p (i + j)) Q32"
  by (simp_all add: wp_simps seg_def nth_append)

lemma seg_csum [seg_elim]:
  "seg A B C p \<Longrightarrow> i = length A \<Longrightarrow> length B = 20 \<Longrightarrow>
     (\<And>c. seg A B C p \<Longrightarrow> c = csum_fold_helper (of_nat (sum16 B)) \<Longrightarrow> Q (ucast c)) \<Longrightarrow> wp (ipv4_csum_inline p i 0) Q"
  by (simp add: wp_ipv4_csum_inline inline_csum_def seg_def)

lemma hdr_csum_valid:
  assumes "length X = 20" and "bytes_at X 10 2 = [0, 0]" and "0 < sum16 X"
    and "c = csum_fold_helper (of_nat (sum16 X))"
  shows "ip_csum_ok (patch X 10 (le_bytes 2 c))"
proof -
  have "sum16 X < 2 ^ 64" using sum16_bound [of X] assms(1) by simp
  then have "unat c = 65535 - fold16 (sum16 X)" by (simp add: assms(4) unat_csum_fold_helper unat_of_nat)
  moreover have "sum16 (patch X 10 (le_bytes 2 c)) = sum16 X + unat c"
    using sum16_patch [of 10 "le_bytes 2 c" X] assms(1,2) by (simp add: sum16_le_bytes2)
  ultimately show ?thesis
    using csum_completes [of "unat c" "sum16 X"] assms(3) by (simp add: ip_csum_ok_def)
qed

section \<open>Echo replies\<close>

definition echo_ip :: "u8 list \<Rightarrow> u8 list" where
  "echo_ip ip = patch (patch (patch (patch ip 8 [DEFAULT_TTL]) 16 (bytes_at ip 12 4)) 12 (bytes_at ip 16 4)) 10 [0, 0]"

lemma swap_mac_and_send_wp:
  assumes "length d = 6" and "length s = 6" and "Q (XDP_TX, s @ d @ r)"
  shows "wp (swap_mac_and_send (d @ s @ r)) Q"
  using assms unfolding swap_mac_and_send_def by (simp add: wp_simps patch_def)

lemma echo_icmp_wp:
  assumes "length A = 34" and "8 \<le> length C"
    and "\<And>p. seg A (patch (patch C 0 [0]) 2 (le_bytes 2 (u16_at C 2 + 8 :: u16))) [] p \<Longrightarrow> wp (f p) Q"
  shows "wp (do { data \<leftarrow> st8 (A @ C) 34 ICMP_ECHOREPLY; checksum \<leftarrow> ld16 data 36;
     data \<leftarrow> st16 data 36 (checksum + 8); f data }) Q"
proof -
  have "bytes_at (patch C 0 [0]) 2 2 = bytes_at C 2 2"
    using assms(2) by (intro bytes_at_patch_other) auto
  moreover have "C \<noteq> []" using assms(2) by auto
  ultimately show ?thesis
    using assms patch_seg [of 0 "[0]" C A "[]"] patch_seg [of 2 _ "patch C 0 [0]" A "[]"]
    by (simp add: wp_simps seg_def ICMP_ECHOREPLY_def)
qed

lemma echo_ip_wp:
  assumes "length e = 14" and "length ip = 20" and "seg (e @ ip) C [] p"
    and "\<And>c. c = csum_fold_helper (of_nat (sum16 (echo_ip ip))) \<Longrightarrow>
      wp (f (e @ patch (echo_ip ip) 10 (le_bytes 2 c) @ C)) Q"
  shows "wp (do { data \<leftarrow> st8 p (14 + 8) DEFAULT_TTL;
        tmp_addr \<leftarrow> ld32 data (14 + 16);
        saddr \<leftarrow> ld32 data (14 + 12);
        data \<leftarrow> st32 data (14 + 16) saddr;
        data \<leftarrow> st32 data (14 + 12) tmp_addr;
        data \<leftarrow> st16 data (14 + 10) 0;
        csum \<leftarrow> ipv4_csum_inline data 14 0;
        data \<leftarrow> st16 data (14 + 10) (ucast csum);
        f data }) Q"
proof -
  let ?t = "patch ip 8 [DEFAULT_TTL]"
  have t: "bytes_at ?t 16 4 = bytes_at ip 16 4" "bytes_at ?t 12 4 = bytes_at ip 12 4"
    by (rule bytes_at_patch_other; simp add: assms(2))+
  have le4: "le_bytes 4 (u32_at ip k) = bytes_at ip k 4" if "k \<le> 16" for k
    using assms(2) that by (intro le_bytes_word) simp_all
  have b: "patch (patch (patch ?t 16 (le_bytes 4 (u32_at ?t 12))) 12 (le_bytes 4 (u32_at ?t 16)))
      10 (le_bytes 2 (0 :: u16)) = echo_ip ip"
    by (simp add: le4 t echo_ip_def le_bytes2_zero)
  have p: "seg e ip C p" using assms(3) by (simp add: seg_def)
  have fin: "wp (f p') Q" if "seg e (patch (echo_ip ip) 10 (le_bytes 2 (ucast (ucast c :: u64) :: u16))) C p'"
    "c = csum_fold_helper (of_nat (sum16 (echo_ip ip)))" for c p'
    using that(1) assms(4) [OF that(2)] by (simp add: seg_def)
  show ?thesis
    by (insert p, (rule wp_bindI | erule seg_elim | (simp add: assms(1,2); fail))+, simp only: b, erule fin, rule refl)
qed

text \<open>The ICMP message of a reply: type 0 and the checksum raised by 8.\<close>

definition echo_icmp :: "u8 list \<Rightarrow> u8 list" where
  "echo_icmp m = patch (patch m 0 [0]) 2 (le_bytes 2 (u16_at m 2 + 8 :: u16))"

lemma send_icmp_reply_bytes:
  assumes "length d = 6" and "length s = 6" and "length t = 2" and "length ip = 20" and "8 \<le> length m"
  shows "\<exists>c. c = csum_fold_helper (of_nat (sum16 (echo_ip ip))) \<and>
    send_icmp_reply (d @ s @ t @ ip @ m) =
      Some (XDP_TX, s @ d @ t @ patch (echo_ip ip) 10 (le_bytes 2 c) @ echo_icmp m)"
proof -
  let ?c = "csum_fold_helper (of_nat (sum16 (echo_ip ip)))"
  let ?A = "d @ s @ t @ ip"
  let ?R = "(XDP_TX, s @ d @ t @ patch (echo_ip ip) 10 (le_bytes 2 ?c) @ echo_icmp m)"
  have len: "(14 + 20 + 8 > length (?A @ m)) = False" using assms by simp
  have "wp (send_icmp_reply (?A @ m)) (\<lambda>x. x = ?R)"
    unfolding send_icmp_reply_def len if_False
  proof (rule echo_icmp_wp)
    fix p assume "seg ?A (patch (patch m 0 [0]) 2 (le_bytes 2 (u16_at m 2 + 8 :: u16))) [] p"
    then have p: "seg ((d @ s @ t) @ ip) (echo_icmp m) [] p" by (simp add: echo_icmp_def)
    show "wp (do { data \<leftarrow> st8 p (14 + 8) DEFAULT_TTL;
        tmp_addr \<leftarrow> ld32 data (14 + 16); saddr \<leftarrow> ld32 data (14 + 12);
        data \<leftarrow> st32 data (14 + 16) saddr; data \<leftarrow> st32 data (14 + 12) tmp_addr;
        data \<leftarrow> st16 data (14 + 10) 0; csum \<leftarrow> ipv4_csum_inline data 14 0;
        data \<leftarrow> st16 data (14 + 10) (ucast csum); swap_mac_and_send data }) (\<lambda>x. x = ?R)"
      using assms by (intro echo_ip_wp [OF _ _ p]) (simp_all add: swap_mac_and_send_wp)
  qed (use assms in simp_all)
  then show ?thesis by (auto simp: wp_def)
qed

lemma length_echo_ip [simp]: "length ip = 20 \<Longrightarrow> length (echo_ip ip) = 20"
  by (simp add: echo_ip_def)

lemma echo_ip_fields:
  assumes "length ip = 20"
  shows "bytes_at (echo_ip ip) 10 2 = [0, 0]" and "0 < sum16 (echo_ip ip)"
    and "bytes_at (patch (echo_ip ip) 10 (le_bytes 2 (c :: u16))) 12 4 = bytes_at ip 16 4"
    and "bytes_at (patch (echo_ip ip) 10 (le_bytes 2 c)) 16 4 = bytes_at ip 12 4"
proof -
  have t: "unat DEFAULT_TTL = 64" by (simp add: DEFAULT_TTL_def)
  show "bytes_at (echo_ip ip) 10 2 = [0, 0]" "0 < sum16 (echo_ip ip)"
    by (rule list20 [OF assms], simp add: echo_ip_def patch_def t)+
  show "bytes_at (patch (echo_ip ip) 10 (le_bytes 2 (c :: u16))) 12 4 = bytes_at ip 16 4"
    "bytes_at (patch (echo_ip ip) 10 (le_bytes 2 c)) 16 4 = bytes_at ip 12 4"
    by (rule list20 [OF assms], rule list2 [of "le_bytes 2 c"], simp, simp add: echo_ip_def patch_def)+
qed

lemma sum16_echo_icmp:
  assumes "8 \<le> length m" and "m ! 0 = 8"
  shows "sum16 (echo_icmp m) + 8 + unat (u16_at m 2 :: u16) = sum16 m + unat (u16_at m 2 + 8 :: u16)"
    and "echo_icmp m ! 0 = 0" and "drop 4 (echo_icmp m) = drop 4 m"
proof -
  from assms obtain b c d r where m: "m = 8 # b # c # d # r"
    by (cases m; cases "tl m"; cases "tl (tl m)"; cases "tl (tl (tl m))") auto
  have e: "echo_icmp m = 0 # b # le_bytes 2 (u16_at m 2 + 8 :: u16) @ r"
    by (simp add: echo_icmp_def m patch_def numeral_2_eq_2)
  have c: "unat (u16_at m 2 :: u16) = unat c + 256 * unat d" by (simp add: m unat_le_word16)
  show "sum16 (echo_icmp m) + 8 + unat (u16_at m 2 :: u16) = sum16 m + unat (u16_at m 2 + 8 :: u16)"
    unfolding e c by (simp add: sum16_append sum16_le_bytes2) (simp add: m)
  show "echo_icmp m ! 0 = 0" "drop 4 (echo_icmp m) = drop 4 m" by (simp_all add: e) (simp add: m)
qed

text \<open>C9: The balancer answers a ping correctly: the reply has the Ethernet and IP addresses of the
  request exchanged, an IP header with a valid checksum, type 0 and the data of the request, and
  its ICMP checksum is valid if that of the request was and is below 0xfff8.\<close>

theorem icmp_echo_reply_correct:
  assumes "length d = 6" and "length s = 6" and "length t = 2" and "length ip = 20" and "8 \<le> length m"
    and "m ! 0 = ICMP_ECHO" and "ip_csum_ok m" and "unat (u16_at m 2 :: u16) < 0xfff8"
  shows "\<exists>ip' m'. send_icmp_reply (d @ s @ t @ ip @ m) = Some (XDP_TX, s @ d @ t @ ip' @ m') \<and>
    ip_csum_ok ip' \<and> bytes_at ip' 12 4 = bytes_at ip 16 4 \<and> bytes_at ip' 16 4 = bytes_at ip 12 4 \<and>
    ip_csum_ok m' \<and> m' ! 0 = ICMP_ECHOREPLY \<and> drop 4 m' = drop 4 m"
proof -
  have m0: "m ! 0 = 8" using assms(6) by (simp add: ICMP_ECHO_def)
  have "unat (u16_at m 2 + 8 :: u16) = unat (u16_at m 2 :: u16) + 8"
    using assms(8) by (simp add: unat_word_ariths)
  then have "sum16 (echo_icmp m) = sum16 m" using sum16_echo_icmp(1) [OF assms(5) m0] by simp
  then have "ip_csum_ok (echo_icmp m)" using assms(7) by (simp add: ip_csum_ok_def)
  moreover obtain c where c: "c = csum_fold_helper (of_nat (sum16 (echo_ip ip)))"
    and r: "send_icmp_reply (d @ s @ t @ ip @ m) =
      Some (XDP_TX, s @ d @ t @ patch (echo_ip ip) 10 (le_bytes 2 c) @ echo_icmp m)"
    using send_icmp_reply_bytes [OF assms(1-5)] by blast
  moreover have "ip_csum_ok (patch (echo_ip ip) 10 (le_bytes 2 c))"
    using hdr_csum_valid [OF _ echo_ip_fields(1,2) [OF assms(4)] c] assms(4) by simp
  ultimately show ?thesis
    using echo_ip_fields(3,4) [OF assms(4)] sum16_echo_icmp(2,3) [OF assms(5) m0]
    by (intro exI [of _ "patch (echo_ip ip) 10 (le_bytes 2 c)"] exI [of _ "echo_icmp m"])
      (simp add: ICMP_ECHOREPLY_def)
qed

text \<open>The reply to a valid ping whose checksum field is 0xfff8 or more has a wrong ICMP checksum:
  the code adds 8 to the field without the end-around carry of one's complement arithmetic.\<close>

theorem icmp_echo_reply_bad_carry:
  assumes "length d = 6" and "length s = 6" and "length t = 2" and "length ip = 20" and "8 \<le> length m"
    and "m ! 0 = ICMP_ECHO" and "ip_csum_ok m" and "0xfff8 \<le> unat (u16_at m 2 :: u16)"
  shows "\<exists>ip' m'. send_icmp_reply (d @ s @ t @ ip @ m) = Some (XDP_TX, s @ d @ t @ ip' @ m') \<and>
    length ip' = 20 \<and> \<not> ip_csum_ok m'"
proof -
  have m0: "m ! 0 = 8" using assms(6) by (simp add: ICMP_ECHO_def)
  have "unat (u16_at m 2 + 8 :: u16) + 65536 = unat (u16_at m 2 :: u16) + 8"
    using assms(8) unat_u16_less [of "u16_at m 2"] by (simp add: unat_word_ariths le_mod_geq)
  then have s: "sum16 (echo_icmp m) + 65536 = sum16 m" using sum16_echo_icmp(1) [OF assms(5) m0] by simp
  have "\<not> ip_csum_ok (echo_icmp m)"
  proof
    assume "ip_csum_ok (echo_icmp m)"
    then have "sum16 (echo_icmp m) mod 65535 = 0" "(sum16 (echo_icmp m) + 65536) mod 65535 = 0"
      using assms(7) by (simp_all add: ip_csum_ok_iff s)
    then show False using mod_add_left_eq [of "sum16 (echo_icmp m)" 65535 65536] by simp
  qed
  moreover obtain c where "send_icmp_reply (d @ s @ t @ ip @ m) =
      Some (XDP_TX, s @ d @ t @ patch (echo_ip ip) 10 (le_bytes 2 (c :: u16)) @ echo_icmp m)"
    using send_icmp_reply_bytes [OF assms(1-5)] by blast
  ultimately show ?thesis using assms(4)
    by (intro exI [of _ "patch (echo_ip ip) 10 (le_bytes 2 c)"] exI [of _ "echo_icmp m"]) simp
qed

theorem icmp_echo_reply_correct_witness:
  "\<exists>ip' m'. send_icmp_reply (replicate 6 1 @ replicate 6 2 @ [8, 0] @ replicate 20 0 @ [8, 0, 0xf7, 0xff, 0, 0, 0, 0]) =
      Some (XDP_TX, replicate 6 2 @ replicate 6 1 @ [8, 0] @ ip' @ m') \<and> ip_csum_ok ip' \<and> ip_csum_ok m'"
proof -
  have "ip_csum_ok [8, 0, 0xf7, 0xff, 0, 0, 0, 0]" by (simp add: ip_csum_ok_iff)
  from icmp_echo_reply_correct [OF _ _ _ _ _ _ this, of "replicate 6 1" "replicate 6 2" "[8, 0]" "replicate 20 0"]
  show ?thesis by (auto simp: ICMP_ECHO_def unat_le_word16)
qed

theorem icmp_echo_reply_bad_carry_witness:
  "\<exists>ip' m'. send_icmp_reply (replicate 6 1 @ replicate 6 2 @ [8, 0] @ replicate 20 0 @ [8, 0, 0xf8, 0xff, 0xfe, 0xff, 0, 0]) =
      Some (XDP_TX, replicate 6 2 @ replicate 6 1 @ [8, 0] @ ip' @ m') \<and> \<not> ip_csum_ok m'"
proof -
  have "ip_csum_ok [8, 0, 0xf8, 0xff, 0xfe, 0xff, 0, 0]" by (simp add: ip_csum_ok_iff)
  from icmp_echo_reply_bad_carry [OF _ _ _ _ _ _ this, of "replicate 6 1" "replicate 6 2" "[8, 0]" "replicate 20 0"]
  show ?thesis by (auto simp: ICMP_ECHO_def unat_le_word16)
qed

section \<open>Checksums of GUE datagrams\<close>

text \<open>Four folds are enough: for every 64-bit sum \<open>csum_fold_helper\<close> returns the complement of its
  one's complement sum, that is the only 16-bit value that brings the sum to a multiple of 65535, the
  value 0xffff only for the sum 0.\<close>

theorem csum_fold_correct:
  "(unat (csum_fold_helper c) + unat c) mod 65535 = 0 \<and> (csum_fold_helper c = 0xffff \<longleftrightarrow> c = 0)"
proof -
  have u: "unat (csum_fold_helper c) = 65535 - fold16 (unat c)" by (rule unat_csum_fold_helper)
  have "(unat (csum_fold_helper c) + unat c) mod 65535 = (unat (csum_fold_helper c) + fold16 (unat c)) mod 65535"
    using fold16_mod [of "unat c"] by (metis mod_add_right_eq)
  also have "\<dots> = 0" using u fold16_le [of "unat c"] by simp
  finally have 1: "(unat (csum_fold_helper c) + unat c) mod 65535 = 0" .
  have "csum_fold_helper c = 0xffff \<longleftrightarrow> unat (csum_fold_helper c) = 65535"
    by (auto simp: word_unat_eq_iff)
  also have "\<dots> \<longleftrightarrow> fold16 (unat c) = 0" unfolding u using fold16_le [of "unat c"] by linarith
  also have "\<dots> \<longleftrightarrow> c = 0" by (simp only: fold16_zero unat_eq_zero)
  finally show ?thesis using 1 by blast
qed

lemma mod_cancel_parts:
  fixes v po u i pi l :: nat
  assumes "(int v + int po + int u + int i - int pi) mod 65535 = 0" and "(pi + l) mod 65535 = 0"
  shows "(v + po + (u + (i + l))) mod 65535 = 0"
proof -
  have "int ((pi + l) mod 65535) = 0" by (simp only: assms(2) of_nat_0)
  then have "(int pi + int l) mod 65535 = 0" by (simp only: zmod_int of_nat_add of_nat_numeral)
  then have "((int v + int po + int u + int i - int pi) + (int pi + int l)) mod 65535 = 0"
    using mod_add_eq [of "int v + int po + int u + int i - int pi" 65535 "int pi + int l"] assms(1) by simp
  then have "int (v + po + (u + (i + l))) mod 65535 = 0"
    by (simp add: algebra_simps)
  then have "int ((v + po + (u + (i + l))) mod 65535) = 0" by (simp only: zmod_int of_nat_numeral)
  then show ?thesis by (simp only: of_nat_eq_0_iff)
qed

lemma sum16_drop_parts:
  assumes "i + a + b \<le> length p" and "even a" and "even b"
  shows "sum16 (drop i p) = sum16 (bytes_at p i a) + (sum16 (bytes_at p (i + a) b) + sum16 (drop (i + a + b) p))"
proof -
  have "drop i p = bytes_at p i a @ drop (i + a) p" "drop (i + a) p = bytes_at p (i + a) b @ drop (i + a + b) p"
    using append_take_drop_id [of a "drop i p"] append_take_drop_id [of b "drop (i + a) p"]
    by (simp_all add: add_ac)
  then have "drop i p = bytes_at p i a @ bytes_at p (i + a) b @ drop (i + a + b) p" by simp
  then have "sum16 (drop i p) = sum16 (bytes_at p i a @ bytes_at p (i + a) b @ drop (i + a + b) p)"
    by (rule arg_cong)
  also have "\<dots> = sum16 (bytes_at p i a) + (sum16 (bytes_at p (i + a) b) + sum16 (drop (i + a + b) p))"
    using assms by (simp add: sum16_append)
  finally show ?thesis .
qed

text \<open>The outer UDP checksum of a GUE datagram is right without reading the payload: if the
  transport checksum of the inner packet is valid, the value \<open>gue_csum_v4\<close>, \<open>gue_csum_v6\<close> or
  \<open>gue_csum_v4_in_v6\<close> computes from the headers alone makes the sum over the outer pseudo header, the
  UDP header (its checksum field zero), the inner IP header and the payload a multiple of 65535.\<close>

theorem gue_checksum_valid:
  assumes k: "csum_diff_ok (bpf_csum_diff env)"
  shows "(62 \<le> length p \<longrightarrow> gue_csum_v4 env p 14 34 42 (ucast (c :: u16)) = Some (Some v) \<longrightarrow>
      (pseudo4 p 42 + sum16 (drop 62 p)) mod 65535 = 0 \<longrightarrow>
      (unat v + pseudo4 p 14 + sum16 (drop 34 p)) mod 65535 = 0) \<and>
    (102 \<le> length p \<longrightarrow> gue_csum_v6 env p 14 54 62 (ucast c) = Some (Some v) \<longrightarrow>
      (pseudo6 p 62 + sum16 (drop 102 p)) mod 65535 = 0 \<longrightarrow>
      (unat v + pseudo6 p 14 + sum16 (drop 54 p)) mod 65535 = 0) \<and>
    (82 \<le> length p \<longrightarrow> gue_csum_v4_in_v6 env p 14 54 62 (ucast c) = Some (Some v) \<longrightarrow>
      (pseudo4 p 62 + sum16 (drop 82 p)) mod 65535 = 0 \<longrightarrow>
      (unat v + pseudo6 p 14 + sum16 (drop 54 p)) mod 65535 = 0)"
proof -
  note ck = csum_kernel.intro [OF k]
  note v4 = csum_kernel.gue_csum_v4_cancels [OF ck, of 14 p 34 42, THEN wpD]
    and v6 = csum_kernel.gue_csum_v6_cancels [OF ck, of 14 p 54 62, THEN wpD]
    and v46 = csum_kernel.gue_csum_v4_in_v6_cancels [OF ck, of 14 p 54 62, THEN wpD]
  show ?thesis
    using mod_cancel_parts [OF v4 [rule_format]] mod_cancel_parts [OF v6 [rule_format]]
      mod_cancel_parts [OF v46 [rule_format]]
    by (simp add: sum16_drop_parts [of 34 8 20] sum16_drop_parts [of 54 8 40] sum16_drop_parts [of 54 8 20])
qed

text \<open>A datagram whose inner packet is an empty IPv4 packet of protocol 0, and a kernel that never
  fails on it.\<close>

definition gue_pkt :: packet where "gue_pkt = replicate 45 0 @ [20] @ replicate 16 0"

lemma csum_step_kernel:
  "length a mod 4 = 0 \<Longrightarrow> length b mod 4 = 0 \<Longrightarrow> csum_step kernel_env a b c =
     Inr (of_int ((uint (ucast c :: u32) + int (sum16 b) - int (sum16 a)) mod 65535))"
  by (simp add: csum_step_def kernel_env_def kernel_csum_diff_def Let_def not_less)

lemma gue_pkt_csum: "\<exists>v. gue_csum_v4 kernel_env gue_pkt 14 34 42 (ucast (0 :: u16)) = Some (Some v)"
proof -
  have "length gue_pkt = 62" by (simp add: gue_pkt_def)
  then have "wp (gue_csum_v4 kernel_env gue_pkt 14 34 42 (ucast (0 :: u16))) (\<lambda>r. r \<noteq> None)"
    by (simp add: gue_csum_v4_def gue_csum_seed_def rem_pseudo_ipv4_header_def add_pseudo_ipv4_header_def
        add_range_def rem_range_def wp_simps csum_step_kernel fold_result_def Let_def)
  then show ?thesis by (auto simp: wp_def)
qed

lemma sum16_replicate0: "sum16 (replicate n 0) = 0"
proof (induction n rule: nat_less_induct)
  case (1 n)
  then show ?case by (cases n; cases "n - 1") auto
qed

lemma le_enc_zero: "le_enc n 0 = replicate n 0"
  by (induction n) simp_all

lemma gue_pkt_valid: "(pseudo4 gue_pkt 42 + sum16 (drop 62 gue_pkt)) mod 65535 = 0"
proof -
  have "u16_at gue_pkt 44 = (0x1400 :: u16)" by (simp add: gue_pkt_def le_word_def)
  moreover have "bswap16 0x1400 = 20" "bswap32 0 = 0" by (simp_all add: bswap16_def bswap32_def)
  moreover have "le_bytes 4 (0 :: u32) = replicate 4 0" by (simp add: le_bytes_def le_enc_zero)
  moreover have "gue_pkt ! 51 = 0" "length gue_pkt = 62" "bytes_at gue_pkt 54 4 = replicate 4 0"
    "bytes_at gue_pkt 58 4 = replicate 4 0" by (simp_all add: gue_pkt_def nth_append)
  ultimately show ?thesis by (simp add: pseudo4_def sum16_replicate0)
qed

theorem gue_checksum_valid_witness:
  "\<exists>v. gue_csum_v4 kernel_env gue_pkt 14 34 42 (ucast (0 :: u16)) = Some (Some v) \<and>
     (unat v + pseudo4 gue_pkt 14 + sum16 (drop 34 gue_pkt)) mod 65535 = 0"
proof -
  have k: "csum_diff_ok (bpf_csum_diff kernel_env)" by (simp add: kernel_env_def kernel_csum_diff_ok)
  obtain v where v: "gue_csum_v4 kernel_env gue_pkt 14 34 42 (ucast (0 :: u16)) = Some (Some v)"
    using gue_pkt_csum by blast
  have len: "62 \<le> length gue_pkt" by (simp add: gue_pkt_def)
  note t = conjunct1 [OF gue_checksum_valid [OF k, of gue_pkt 0 v]]
  note r = t [THEN mp, OF len, THEN mp, OF v, THEN mp, OF gue_pkt_valid]
  show ?thesis by (rule exI [of _ v]) (rule conjI [OF v r])
qed

end
