(* ===== verification/Katran_Server_Id.thy ===== *)
theory Katran_Server_Id
  imports Katran_Parsing
begin

text \<open>
  The two ways a packet can name the real it belongs to: the connection id of QUIC and the server id option of
  TCP.  For both, what a server writes is what the balancer reads.
\<close>

section \<open>QUIC connection ids\<close>

text \<open>How a server puts its id into a connection id: version 1 has 16 bits of it after the two
  version bits, version 2 has 24 bits in the second to fourth byte.\<close>

definition quic_cid_v1 :: "u16 \<Rightarrow> u8 \<Rightarrow> u8 list" where
  "quic_cid_v1 x l = [push_bit 6 1 OR ucast (drop_bit 10 x), ucast (drop_bit 2 x),
     push_bit 6 (ucast x) OR (l AND mask 6)]"

definition quic_cid_v2 :: "u32 \<Rightarrow> u8 \<Rightarrow> u8 list" where
  "quic_cid_v2 x l = [push_bit 7 1 OR (l AND mask 6), ucast (drop_bit 16 x), ucast (drop_bit 8 x), ucast x]"

lemma bit_u16: "bit (x :: u16) n \<Longrightarrow> n < 16" and bit_u8: "bit (y :: u8) n \<Longrightarrow> n < 8"
  by (auto dest: bit_imp_le_length)

lemma bit_consts: "bit (64 :: u8) n \<longleftrightarrow> n = 6" "bit (128 :: u8) n \<longleftrightarrow> n = 7" "bit (2 :: u8) n \<longleftrightarrow> n = 1"
  using bit_push_bit_iff [of 6 "1 :: u8" n] bit_push_bit_iff [of 7 "1 :: u8" n] bit_push_bit_iff [of 1 "1 :: u8" n]
  by (auto simp: bit_1_iff)

lemma bit_int_consts: "bit (64 :: int) n \<longleftrightarrow> n = 6" "bit (128 :: int) n \<longleftrightarrow> n = 7" "bit (2 :: int) n \<longleftrightarrow> n = 1"
  using bit_push_bit_iff [of 6 "1 :: int" n] bit_push_bit_iff [of 7 "1 :: int" n] bit_push_bit_iff [of 1 "1 :: int" n]
  by (auto simp: bit_1_iff)

lemma Suc2_diff: "2 \<le> n \<Longrightarrow> Suc (Suc (n - 2)) = n"
  by simp

lemma quic_v1_version: "drop_bit 6 (push_bit 6 1 OR ucast (drop_bit 10 (x :: u16)) :: u8) = QUIC_CONNID_VERSION_V1"
  unfolding QUIC_CONNID_VERSION_V1_def
  by (rule bit_word_eqI) (auto simp: bit_simps bit_consts bit_int_consts dest: bit_u16)

lemma quic_v1_high: "(push_bit 6 1 OR ucast (drop_bit 10 (x :: u16)) :: u8) AND 0x3F = ucast (drop_bit 10 x)"
proof -
  have m: "(0x3F :: u8) = mask 6" by (simp add: mask_eq_exp_minus_1)
  show ?thesis unfolding m by (rule bit_word_eqI) (auto simp: bit_simps bit_consts bit_int_consts dest: bit_u16)
qed

lemma quic_v1_id:
  "(push_bit 10 (ucast (ucast (drop_bit 10 x) :: u8)) OR push_bit 2 (ucast (ucast (drop_bit 2 x) :: u8))
     OR drop_bit 6 (ucast (push_bit 6 (ucast x) OR (l AND mask 6) :: u8)) :: u32) = ucast (x :: u16)"
proof (rule bit_word_eqI)
  fix n assume "n < LENGTH(32)"
  then show "bit (push_bit 10 (ucast (ucast (drop_bit 10 x) :: u8))
     OR push_bit 2 (ucast (ucast (drop_bit 2 x) :: u8))
     OR drop_bit 6 (ucast (push_bit 6 (ucast x) OR (l AND mask 6) :: u8)) :: u32) n = bit (ucast x :: u32) n"
    using bit_u16 [of x n]
    by (cases "n < 2"; cases "n < 10") (auto simp: bit_simps Suc2_diff)
qed

lemma quic_v2_version: "drop_bit 6 (push_bit 7 1 OR (l AND mask 6) :: u8) = QUIC_CONNID_VERSION_V2"
  unfolding QUIC_CONNID_VERSION_V2_def
  by (rule bit_word_eqI) (auto simp: bit_simps bit_consts bit_int_consts)

lemma quic_v2_id:
  assumes "(x :: u32) < 2 ^ 24"
  shows "(push_bit 16 (ucast (ucast (drop_bit 16 x) :: u8)) OR push_bit 8 (ucast (ucast (drop_bit 8 x) :: u8))
     OR ucast (ucast x :: u8) :: u32) = x"
proof -
  have "unat x < 2 ^ 24" using assms by (simp add: word_less_nat_alt)
  then have "take_bit 24 (unat x) = unat x" by (simp add: take_bit_eq_mod)
  then have "unat (take_bit 24 x) = unat x" by (simp only: unsigned_take_bit_eq)
  then have "take_bit 24 x = x" by (simp only: word_unat_eq_iff)
  then have "bit x n \<Longrightarrow> n < 24" for n by (metis bit_take_bit_iff)
  then have x: "bit x n \<Longrightarrow> n < 24" for n .
  show ?thesis
  proof (rule bit_word_eqI)
    fix n assume "n < LENGTH(32)"
    then show "bit (push_bit 16 (ucast (ucast (drop_bit 16 x) :: u8))
        OR push_bit 8 (ucast (ucast (drop_bit 8 x) :: u8)) OR ucast (ucast x :: u8) :: u32) n = bit x n"
      using x [of n] by (cases "n < 8"; cases "n < 16"; cases "n < 24") (auto simp: bit_simps)
  qed
qed

definition quic_at :: "packet \<Rightarrow> nat \<Rightarrow> u8 list \<Rightarrow> bool" where
  "quic_at p i cid \<longleftrightarrow> bytes_at p i (length cid) = cid \<and> i + length cid \<le> length p"

text \<open>Where the code looks for the connection id: behind the type byte of a short header, or behind the
  fixed part of a long one.\<close>

definition quic_short :: "packet \<Rightarrow> nat \<Rightarrow> bool" where
  "quic_short p q \<longleftrightarrow> q + 9 \<le> length p \<and> p ! q AND QUIC_LONG_HEADER \<noteq> QUIC_LONG_HEADER"

definition quic_long :: "packet \<Rightarrow> nat \<Rightarrow> bool" where
  "quic_long p q \<longleftrightarrow> q + 14 \<le> length p \<and> p ! q AND QUIC_LONG_HEADER = QUIC_LONG_HEADER \<and>
     p ! q AND QUIC_PACKET_TYPE_MASK \<ge> QUIC_HANDSHAKE \<and> p ! (q + 5) \<ge> QUIC_MIN_CONNID_LEN"

lemma quic_at_nth: "quic_at p i cid \<Longrightarrow> j < length cid \<Longrightarrow> p ! (i + j) = cid ! j"
  by (metis quic_at_def nth_take nth_drop add_leE)

lemma parse_quic_cid:
  assumes "q = calc_offset v6 (is_icmp_pckt pckt) + 8" and "quic_short p q \<and> i = q + 1 \<or> quic_long p q \<and> i = q + 6"
  shows "parse_quic p v6 pckt = Some (
    if drop_bit 6 (p ! i) = QUIC_CONNID_VERSION_V1
    then uint (push_bit 10 (ucast (p ! i AND 0x3F)) OR push_bit 2 (ucast (p ! (i + 1)))
           OR drop_bit 6 (ucast (p ! (i + 2))) :: u32)
    else if drop_bit 6 (p ! i) = QUIC_CONNID_VERSION_V2
    then uint (push_bit 16 (ucast (p ! (i + 1))) OR push_bit 8 (ucast (p ! (i + 2)))
           OR ucast (p ! (i + 3)) :: u32)
    else FURTHER_PROCESSING)"
proof -
  let ?v = "if drop_bit 6 (p ! i) = QUIC_CONNID_VERSION_V1
    then uint (push_bit 10 (ucast (p ! i AND 0x3F)) OR push_bit 2 (ucast (p ! (i + 1)))
           OR drop_bit 6 (ucast (p ! (i + 2))) :: u32)
    else if drop_bit 6 (p ! i) = QUIC_CONNID_VERSION_V2
    then uint (push_bit 16 (ucast (p ! (i + 1))) OR push_bit 8 (ucast (p ! (i + 2)))
           OR ucast (p ! (i + 3)) :: u32)
    else FURTHER_PROCESSING"
  have "wp (parse_quic p v6 pckt) (\<lambda>r. r = ?v)"
    using assms(2) unfolding parse_quic_def Let_def assms(1) [symmetric]
    by (auto simp: wp_simps quic_short_def quic_long_def not_less)
  then show ?thesis by (auto simp: wp_def)
qed

text \<open>A server id that a server has put into the connection id of a QUIC packet, 16 bits with version
  1 or 24 bits with version 2, in a short header or in a long header of a handshake or later, is the
  one \<open>parse_quic\<close> returns, whatever the remaining bits of the connection id are.\<close>

theorem quic_server_id_roundtrip:
  assumes "q = calc_offset v6 (is_icmp_pckt pckt) + 8" and "quic_short p q \<and> i = q + 1 \<or> quic_long p q \<and> i = q + 6"
  shows "(quic_at p i (quic_cid_v1 x l) \<longrightarrow> parse_quic p v6 pckt = Some (uint (x :: u16))) \<and>
    (y < 2 ^ 24 \<and> quic_at p i (quic_cid_v2 y l) \<longrightarrow> parse_quic p v6 pckt = Some (uint (y :: u32)))"
proof (intro conjI impI)
  assume a: "quic_at p i (quic_cid_v1 x l)"
  have "p ! i = quic_cid_v1 x l ! 0" "p ! (i + 1) = quic_cid_v1 x l ! 1" "p ! (i + 2) = quic_cid_v1 x l ! 2"
    using quic_at_nth [OF a, of 0] quic_at_nth [OF a, of 1] quic_at_nth [OF a, of 2]
    by (simp_all add: quic_cid_v1_def)
  then show "parse_quic p v6 pckt = Some (uint x)"
    unfolding parse_quic_cid [OF assms] quic_cid_v1_def
    using quic_v1_version [of x] quic_v1_high [of x] quic_v1_id [of x l] by (simp add: uint_up_ucast is_up)
next
  assume a: "y < 2 ^ 24 \<and> quic_at p i (quic_cid_v2 y l)"
  then have "p ! i = quic_cid_v2 y l ! 0" "p ! (i + 1) = quic_cid_v2 y l ! 1"
    "p ! (i + 2) = quic_cid_v2 y l ! 2" "p ! (i + 3) = quic_cid_v2 y l ! 3"
    using quic_at_nth [of p i "quic_cid_v2 y l" 0] quic_at_nth [of p i "quic_cid_v2 y l" 1]
      quic_at_nth [of p i "quic_cid_v2 y l" 2] quic_at_nth [of p i "quic_cid_v2 y l" 3]
    by (simp_all add: quic_cid_v2_def)
  moreover have "QUIC_CONNID_VERSION_V2 \<noteq> QUIC_CONNID_VERSION_V1"
    by (simp add: QUIC_CONNID_VERSION_V1_def QUIC_CONNID_VERSION_V2_def)
  ultimately show "parse_quic p v6 pckt = Some (uint y)"
    unfolding parse_quic_cid [OF assms] quic_cid_v2_def
    using quic_v2_version [of l] quic_v2_id [of y] a by simp
qed

definition quic_pkt :: packet where
  "quic_pkt = replicate 43 0 @ quic_cid_v1 0x1234 0 @ replicate 8 0"

theorem quic_server_id_roundtrip_witness: "parse_quic quic_pkt False pckt0 = Some 0x1234"
proof -
  have o: "(42 :: nat) = calc_offset False (is_icmp_pckt pckt0) + 8"
    by (simp add: calc_offset_def is_icmp_pckt_def pckt0_def)
  have "length (quic_cid_v1 0x1234 0) = 3" by (simp add: quic_cid_v1_def)
  then have "quic_short quic_pkt 42" "quic_at quic_pkt 43 (quic_cid_v1 0x1234 0)"
    by (simp_all add: quic_short_def quic_at_def quic_pkt_def QUIC_LONG_HEADER_def nth_append)
  then show ?thesis using quic_server_id_roundtrip [OF o, where p = quic_pkt and i = 43 and x = "0x1234" and l = 0] by simp
qed

section \<open>The server id option of TCP\<close>

datatype tcp_opt = Nop | Opt u8 "u8 list"

fun enc_opt :: "tcp_opt \<Rightarrow> u8 list" where
  "enc_opt Nop = [TCP_OPT_NOP]"
| "enc_opt (Opt k d) = k # of_nat (2 + length d) # d"

fun wf_opt :: "tcp_opt \<Rightarrow> bool" where
  "wf_opt Nop = True"
| "wf_opt (Opt k d) \<longleftrightarrow> k \<noteq> TCP_OPT_EOL \<and> k \<noteq> TCP_OPT_NOP \<and> k \<noteq> TCP_HDR_OPT_KIND_TPR \<and> length d \<le> 38"

abbreviation tpr_opt :: "u32 \<Rightarrow> u8 list" where
  "tpr_opt sid \<equiv> [TCP_HDR_OPT_KIND_TPR, TCP_HDR_OPT_LEN_TPR] @ le_bytes 4 sid"

lemmas opt_defs = TCP_OPT_EOL_def TCP_OPT_NOP_def TCP_HDR_OPT_KIND_TPR_def TCP_HDR_OPT_LEN_TPR_def

lemma parse_tpr:
  assumes "data = pre @ tpr_opt sid @ post" and "length pre = unat (byte_offset st)"
    and "6 \<le> unat (hdr_bytes_remaining st)"
  shows "parse_hdr_opt data st = Some (1, st\<lparr>server_id := sid\<rparr>)"
proof -
  have "\<not> hdr_bytes_remaining st < 2" "\<not> hdr_bytes_remaining st < 6"
    using assms(3) by (simp_all add: word_less_nat_alt)
  moreover have "le_word (le_bytes 4 sid) = sid" by (rule le_word_bytes) simp
  ultimately have "wp (parse_hdr_opt data st) (\<lambda>r. r = (1, st\<lparr>server_id := sid\<rparr>))"
    using assms(2) unfolding parse_hdr_opt_def Let_def assms(1)
    by (simp add: wp_simps opt_defs nth_append)
  then show ?thesis by (auto simp: wp_def)
qed

lemma parse_other:
  assumes "data = pre @ enc_opt x @ post" and "length pre = unat (byte_offset st)" and "wf_opt x"
    and "length (enc_opt x) \<le> unat (hdr_bytes_remaining st)"
  shows "parse_hdr_opt data st = Some (0, st\<lparr>hdr_bytes_remaining := hdr_bytes_remaining st - of_nat (length (enc_opt x)),
     byte_offset := byte_offset st + of_nat (length (enc_opt x))\<rparr>)"
proof -
  have "wp (parse_hdr_opt data st) (\<lambda>r. r = (0, st\<lparr>hdr_bytes_remaining := hdr_bytes_remaining st - of_nat (length (enc_opt x)),
     byte_offset := byte_offset st + of_nat (length (enc_opt x))\<rparr>))"
  proof (cases x)
    case Nop
    then show ?thesis using assms(2) unfolding parse_hdr_opt_def Let_def assms(1)
      by (simp add: wp_simps opt_defs nth_append)
  next
    case (Opt k d)
    have u: "unat (of_nat (2 + length d) :: u8) = 2 + length d"
      using assms(3) Opt unfolding unat_of_nat by simp
    then have u: "unat (2 + of_nat (length d) :: u8) = 2 + length d" by simp
    have "\<not> hdr_bytes_remaining st < 2" "\<not> hdr_bytes_remaining st < 2 + of_nat (length d)"
      using assms(4) Opt by (simp_all add: word_less_nat_alt u)
    then show ?thesis using assms(2,3) Opt unfolding parse_hdr_opt_def Let_def assms(1)
      by (simp add: wp_simps opt_defs nth_append)
  qed
  then show ?thesis by (auto simp: wp_def)
qed

lemma hdr_opt_loop_finds:
  assumes "data = pre @ concat (map enc_opt os) @ tpr_opt sid @ post"
    and "length pre = unat (byte_offset st)" and "\<forall>x\<in>set os. wf_opt x" and "length os < n"
    and "length (concat (map enc_opt os)) + 6 \<le> unat (hdr_bytes_remaining st)"
    and "unat (byte_offset st) + length (concat (map enc_opt os)) < 256"
  shows "\<exists>st'. hdr_opt_loop n data st = Some st' \<and> server_id st' = sid"
  using assms
proof (induction os arbitrary: n pre st)
  case Nil
  then obtain m where n: "n = Suc m" by (cases n) auto
  have "parse_hdr_opt data st = Some (1, st\<lparr>server_id := sid\<rparr>)"
    using Nil by (intro parse_tpr [of data pre sid post]) simp_all
  then show ?case by (simp add: n)
next
  case (Cons x os)
  then obtain m where n: "n = Suc m" "length os < m" by (cases n) auto
  let ?k = "length (enc_opt x)"
  let ?st = "st\<lparr>hdr_bytes_remaining := hdr_bytes_remaining st - of_nat ?k, byte_offset := byte_offset st + of_nat ?k\<rparr>"
  have k: "?k < 256" "?k + 6 \<le> unat (hdr_bytes_remaining st)" "unat (byte_offset st) + ?k < 256"
    using Cons.prems(5,6) unat_u8_less [of "hdr_bytes_remaining st"] by auto
  have uk: "unat (of_nat ?k :: u8) = ?k" using k(1) by (simp add: unat_of_nat)
  have r: "unat (hdr_bytes_remaining st - of_nat ?k) = unat (hdr_bytes_remaining st) - ?k"
    using k(2) uk by (simp add: unat_sub word_le_nat_alt)
  have b: "unat (byte_offset st + of_nat ?k) = unat (byte_offset st) + ?k"
    using k(3) uk by (simp add: unat_word_ariths)
  have p: "parse_hdr_opt data st = Some (0, ?st)"
    using Cons.prems k by (intro parse_other [of data pre x "concat (map enc_opt os) @ tpr_opt sid @ post"]) simp_all
  have "unat (hdr_bytes_remaining st - of_nat ?k) \<noteq> 0" using r k(2) by simp
  then have "hdr_bytes_remaining st - of_nat ?k \<noteq> 0" by (metis unat_0)
  then have "hdr_bytes_remaining ?st \<noteq> 0" by simp
  moreover have "\<exists>st'. hdr_opt_loop m data ?st = Some st' \<and> server_id st' = sid"
    using Cons.prems n r b by (intro Cons.IH [of "pre @ enc_opt x"]) auto
  ultimately show ?case using p by (simp add: n)
qed

lemma nibble: "unat (drop_bit 4 (b :: u8)) < 16"
  using unat_u8_less [of b] by (simp only: unat_drop) (rule less_mult_imp_div_less, simp)

lemma tcp_opt_len:
  assumes "unat (drop_bit 4 (b :: u8)) * 4 = 20 + k"
  shows "unat (drop_bit 4 b * 4 - 20) = k"
proof -
  have m: "unat (drop_bit 4 b * 4) = 20 + k"
    using assms nibble [of b] by (simp add: unat_word_ariths)
  then have "(20 :: u8) \<le> drop_bit 4 b * 4" by (simp add: word_le_nat_alt)
  then show ?thesis using m by (simp add: unat_sub)
qed

text \<open>A TCP packet whose options hold up to fourteen well-formed options and then the server id option
  with a known, non-zero id is sent to the real of that id: \<open>tcp_hdr_opt_lookup\<close> succeeds with that
  real, whatever the options before and the bytes behind are, and if the connection table is bypassed
  it changes no map.\<close>

theorem tcp_server_id_found:
  assumes "data = pre @ concat (map enc_opt os) @ tpr_opt sid @ post"
    and "length pre = calc_offset v6 False + 20"
    and "unat (drop_bit 4 (data ! (calc_offset v6 False + 12))) * 4 = 20 + k"
    and "length (concat (map enc_opt os)) + 6 \<le> k"
    and "\<forall>x\<in>set os. wf_opt x" and "length os < TCP_HDR_OPT_MAX_OPT_CHECKS"
    and "sid \<noteq> 0" and "server_id_map s sid = Some key" and "key \<noteq> 0" and "reals s key = Some r"
  shows "\<exists>s'. tcp_hdr_opt_lookup env data v6 real pckt byp lru s = Some (0, Some r, pckt\<lparr>real_index := key\<rparr>, s') \<and>
    (byp \<longrightarrow> s' = s)"
proof -
  let ?o = "calc_offset v6 False"
  let ?b = "data ! (?o + 12)"
  let ?st = "\<lparr>server_id = 0, byte_offset = of_nat (20 + ?o), hdr_bytes_remaining = drop_bit 4 ?b * 4 - 20\<rparr>"
  have o: "?o \<le> 54" by (simp add: calc_offset_def)
  then have u: "unat (of_nat (20 + ?o) :: u8) = 20 + ?o" unfolding unat_of_nat by simp
  have l: "unat (drop_bit 4 ?b * 4 - 20) = k" by (rule tcp_opt_len [OF assms(3)])
  have k: "k \<le> 40" using assms(3) nibble [of ?b] by linarith
  have "\<exists>st'. hdr_opt_loop TCP_HDR_OPT_MAX_OPT_CHECKS data ?st = Some st' \<and> server_id st' = sid"
    using assms o k l u by (intro hdr_opt_loop_finds [of data pre os sid post]) simp_all
  then obtain st' where st: "hdr_opt_loop TCP_HDR_OPT_MAX_OPT_CHECKS data ?st = Some st'" "server_id st' = sid"
    by blast
  have n: "\<not> drop_bit 4 ?b * 4 - 20 < TCP_HDR_OPT_LEN_TPR"
    using l assms(4) by (simp add: word_less_nat_alt TCP_HDR_OPT_LEN_TPR_def)
  have d: "\<not> ?o + 20 > length data" using assms(1,2) by simp
  then have "?o + 12 < length data" by simp
  then have b: "ld8 data (?o + 12) = Some ?b"
    using wp_ld8 [of data "?o + 12" "\<lambda>x. x = ?b"] by (auto simp: wp_def)
  show ?thesis
    unfolding tcp_hdr_opt_lookup_def Let_def using d n b st assms(7-10)
    by (auto split: option.splits)
qed

definition tpr_pkt :: packet where
  "tpr_pkt = replicate 46 0 @ 0x80 # replicate 7 0 @ enc_opt (Opt 2 [5, 0xb4]) @ enc_opt Nop @ tpr_opt 7 @ [0]"

theorem tcp_server_id_found_witness:
  "tcp_hdr_opt_lookup katran_kernel tpr_pkt False None pckt0 True Lru_fallback loaded_maps =
     Some (0, Some real1, pckt0\<lparr>real_index := 1\<rparr>, loaded_maps)"
proof -
  let ?os = "[Opt 2 [5, 0xb4], Nop]"
  have "tpr_pkt = (replicate 46 0 @ 0x80 # replicate 7 0) @ concat (map enc_opt ?os) @ tpr_opt 7 @ [0]"
    "length (replicate 46 0 @ 0x80 # replicate 7 (0 :: u8)) = calc_offset False False + 20"
    "unat (drop_bit 4 (tpr_pkt ! (calc_offset False False + 12))) * 4 = 20 + 12"
    "length (concat (map enc_opt ?os)) + 6 \<le> 12" "\<forall>x\<in>set ?os. wf_opt x"
    "length ?os < TCP_HDR_OPT_MAX_OPT_CHECKS" "(7 :: u32) \<noteq> 0"
    "server_id_map loaded_maps 7 = Some 1" "(1 :: u32) \<noteq> 0" "reals loaded_maps 1 = Some real1"
    by (simp_all add: tpr_pkt_def calc_offset_def nth_append opt_defs TCP_HDR_OPT_MAX_OPT_CHECKS_def
        loaded_maps_def array_of_def MAX_QUIC_REALS_def MAX_REALS_def)
  from tcp_server_id_found [OF this] show ?thesis by (metis (full_types))
qed

end
