(* ===== verification/Loxi_State.thy ===== *)
theory Loxi_State
  imports Bpf_Prelude
begin

text \<open>
  The data model of the loxilb datapath: the metadata \<open>struct xfi\<close> a packet carries through the pipeline
  (\<open>llb_dp_mdi.h\<close>) and the entries of the maps (\<open>llb_dpapi.h\<close>).  A \<open>__u32[4]\<close> address is a
  quadruple.  Padding and the fields nothing reads are left out; spin locks are too, since a model run is one
  program on one packet.
\<close>

section \<open>Addresses\<close>

type_synonym xaddr = "u32 \<times> u32 \<times> u32 \<times> u32"

definition DP_XADDR_ISZR :: "xaddr \<Rightarrow> bool" where
  "DP_XADDR_ISZR a \<longleftrightarrow> a = (0, 0, 0, 0)"

definition XADDR0 :: xaddr where
  "XADDR0 = (0, 0, 0, 0)"

abbreviation addr4 :: "xaddr \<Rightarrow> u32" where
  "addr4 a \<equiv> fst a"

definition set_addr4 :: "u32 \<Rightarrow> xaddr \<Rightarrow> xaddr" where
  "set_addr4 v a = (v, snd a)"

section \<open>Metadata of a packet\<close>

definition LLB_PIPE_TRAP :: u8 where "LLB_PIPE_TRAP = 0x1"
definition LLB_PIPE_DROP :: u8 where "LLB_PIPE_DROP = 0x2"
definition LLB_PIPE_RDR :: u8 where "LLB_PIPE_RDR = 0x4"
definition LLB_PIPE_PASS :: u8 where "LLB_PIPE_PASS = 0x8"
definition LLB_PIPE_REWIRE :: u8 where "LLB_PIPE_REWIRE = 0x10"
definition LLB_PIPE_RDR_PRIO :: u8 where "LLB_PIPE_RDR_PRIO = 0x20"
definition LLB_PIPE_RDR_MASK :: u8 where "LLB_PIPE_RDR_MASK = LLB_PIPE_RDR OR LLB_PIPE_RDR_PRIO"
definition LLB_PIPE_RC_PARSER :: u8 where "LLB_PIPE_RC_PARSER = 0x1"
definition LLB_PIPE_RC_ACL_MISS :: u8 where "LLB_PIPE_RC_ACL_MISS = 0x2"
definition LLB_PIPE_RC_TUN_DECAP :: u8 where "LLB_PIPE_RC_TUN_DECAP = 0x4"
definition LLB_PIPE_RC_FW_RDR :: u8 where "LLB_PIPE_RC_FW_RDR = 0x8"

lemmas pipe_defs = LLB_PIPE_TRAP_def LLB_PIPE_DROP_def LLB_PIPE_RDR_def LLB_PIPE_PASS_def LLB_PIPE_REWIRE_def
  LLB_PIPE_RDR_PRIO_def LLB_PIPE_RDR_MASK_def

definition LLB_DP_TMAC_HIT :: u8 where "LLB_DP_TMAC_HIT = 0x1"
definition LLB_DP_ACL_HIT :: u8 where "LLB_DP_ACL_HIT = 0x2"
definition LLB_XDP_RT_HIT :: u8 where "LLB_XDP_RT_HIT = 0x8"
definition LLB_DP_FC_HIT :: u8 where "LLB_DP_FC_HIT = 0x10"
definition LLB_DP_SESS_HIT :: u8 where "LLB_DP_SESS_HIT = 0x20"
definition LLB_DP_RES_HIT :: u8 where "LLB_DP_RES_HIT = 0x40"
definition LLB_DP_FW_HIT :: u8 where "LLB_DP_FW_HIT = 0x80"

lemmas hit_defs = LLB_DP_TMAC_HIT_def LLB_DP_ACL_HIT_def LLB_XDP_RT_HIT_def LLB_DP_FC_HIT_def LLB_DP_SESS_HIT_def
  LLB_DP_RES_HIT_def LLB_DP_FW_HIT_def

definition LLB_TCP_FIN :: u8 where "LLB_TCP_FIN = 0x01"
definition LLB_TCP_SYN :: u8 where "LLB_TCP_SYN = 0x02"
definition LLB_TCP_RST :: u8 where "LLB_TCP_RST = 0x04"
definition LLB_TCP_ACK :: u8 where "LLB_TCP_ACK = 0x10"

definition LLB_NAT_DST :: u8 where "LLB_NAT_DST = 0x01"
definition LLB_NAT_SRC :: u8 where "LLB_NAT_SRC = 0x02"
definition LLB_NAT_HDST :: u8 where "LLB_NAT_HDST = 0x04"
definition LLB_NAT_HSRC :: u8 where "LLB_NAT_HSRC = 0x08"

lemmas nat_flag_defs = LLB_NAT_DST_def LLB_NAT_SRC_def LLB_NAT_HDST_def LLB_NAT_HSRC_def
lemmas tcp_flag_defs = LLB_TCP_FIN_def LLB_TCP_SYN_def LLB_TCP_RST_def LLB_TCP_ACK_def

record dp_pi_mdi =
  pm_bd :: u16
  pm_py_bytes :: u16
  pm_pipe_act :: u8
  pm_rcode :: u8
  pm_tc :: u8
  pm_l3_off :: u8
  pm_nh_num :: u16
  pm_phit :: u8
  pm_pprop :: u8
  pm_lkup_dmac :: "u8 list"
  pm_iport :: u16
  pm_oport :: u16
  pm_sess_id :: u32
  pm_zone :: u16
  pm_l4_off :: u8
  pm_table_id :: u8
  pm_mirr :: u16
  pm_tcp_flags :: u8
  pm_nf :: u8
  pm_rule_id :: u32
  pm_il3_off :: u8
  pm_il4_off :: u8
  pm_itcp_flags :: u8
  pm_l4fin :: bool
  pm_il4fin :: bool
  pm_l3_len :: u16
  pm_l3_plen :: u16
  pm_il3_len :: u16
  pm_il3_plen :: u16
  pm_dp_mark :: u16
  pm_dp_rec :: u16
  pm_tun_off :: u16
  pm_fw_mid :: u16
  pm_fw_lid :: u16
  pm_fw_rid :: u16

record dp_l2_mdi =
  vlan0 :: u16
  vlan1 :: u16
  dl_type :: u16
  dl_dst :: "u8 list"
  dl_src :: "u8 list"
  vlan_pcp :: u8
  l2_valid :: u8

record dp_l34_mdi =
  l34_tos :: u8
  nw_proto :: u8
  l34_valid :: u8
  l34_source :: u16
  l34_dest :: u16
  l34_seq :: u32
  l34_ack :: u32
  l34_saddr :: xaddr
  l34_daddr :: xaddr

record dp_qos_mdi =
  q_icol :: u8
  q_ocol :: u8
  q_qfi :: u8
  q_ipolid :: u16
  q_opolid :: u16

record dp_nat_mdi =
  nm_nxip :: xaddr
  nm_nrip :: xaddr
  nm_nxport :: u16
  nm_ct_sts :: u8
  nm_sel_aid :: u8
  nm_nv6 :: u8
  nm_xlate_proto :: u8
  nm_dsr :: u8
  nm_ito :: u64

record dp_tun_mdi =
  tm_new_tunnel_id :: u32
  tm_tun_encap :: u16
  tm_tun_decap :: u16
  tm_tunnel_id :: u32
  tm_tun_type :: u32
  tm_tun_rip :: u32
  tm_tun_sip :: u32

text \<open>\<open>skey\<close> is the scratch space \<open>km.skey\<close>, sixteen bytes that the stages read and write as they like.\<close>

record xfi =
  l2m :: dp_l2_mdi
  l34m :: dp_l34_mdi
  il2m :: dp_l2_mdi
  il34m :: dp_l34_mdi
  tm :: dp_tun_mdi
  nm :: dp_nat_mdi
  skey :: "u8 list"
  qm :: dp_qos_mdi
  pm :: dp_pi_mdi

definition LLBS_PPLN :: "u8 \<Rightarrow> xfi \<Rightarrow> xfi" where
  "LLBS_PPLN act xf = xf\<lparr>pm := (pm xf)\<lparr>pm_pipe_act := pm_pipe_act (pm xf) OR act\<rparr>\<rparr>"

abbreviation LLBS_PPLN_DROP :: "xfi \<Rightarrow> xfi" where
  "LLBS_PPLN_DROP \<equiv> LLBS_PPLN LLB_PIPE_DROP"

definition is_v6 :: "xfi \<Rightarrow> bool" where
  "is_v6 xf \<longleftrightarrow> dl_type (l2m xf) = bswap16 ETH_P_IPV6"

lemma LLBS_PPLN_simps [simp]:
  "l2m (LLBS_PPLN a xf) = l2m xf" "l34m (LLBS_PPLN a xf) = l34m xf" "nm (LLBS_PPLN a xf) = nm xf"
  "qm (LLBS_PPLN a xf) = qm xf" "tm (LLBS_PPLN a xf) = tm xf" "il2m (LLBS_PPLN a xf) = il2m xf"
  "il34m (LLBS_PPLN a xf) = il34m xf" "skey (LLBS_PPLN a xf) = skey xf"
  "pm (LLBS_PPLN a xf) = (pm xf)\<lparr>pm_pipe_act := pm_pipe_act (pm xf) OR a\<rparr>"
  by (simp_all add: LLBS_PPLN_def)

text \<open>The metadata after \<open>memset\<close>.\<close>

definition l2m0 :: dp_l2_mdi where
  "l2m0 = \<lparr>vlan0 = 0, vlan1 = 0, dl_type = 0, dl_dst = replicate 6 0, dl_src = replicate 6 0, vlan_pcp = 0, l2_valid = 0\<rparr>"

definition l34m0 :: dp_l34_mdi where
  "l34m0 = \<lparr>l34_tos = 0, nw_proto = 0, l34_valid = 0, l34_source = 0, l34_dest = 0, l34_seq = 0, l34_ack = 0,
     l34_saddr = XADDR0, l34_daddr = XADDR0\<rparr>"

definition xfi0 :: xfi where
  "xfi0 = \<lparr>l2m = l2m0, l34m = l34m0, il2m = l2m0, il34m = l34m0,
     tm = \<lparr>tm_new_tunnel_id = 0, tm_tun_encap = 0, tm_tun_decap = 0, tm_tunnel_id = 0, tm_tun_type = 0, tm_tun_rip = 0,
           tm_tun_sip = 0\<rparr>,
     nm = \<lparr>nm_nxip = XADDR0, nm_nrip = XADDR0, nm_nxport = 0, nm_ct_sts = 0, nm_sel_aid = 0, nm_nv6 = 0,
           nm_xlate_proto = 0, nm_dsr = 0, nm_ito = 0\<rparr>,
     skey = replicate 16 0,
     qm = \<lparr>q_icol = 0, q_ocol = 0, q_qfi = 0, q_ipolid = 0, q_opolid = 0\<rparr>,
     pm = \<lparr>pm_bd = 0, pm_py_bytes = 0, pm_pipe_act = 0, pm_rcode = 0, pm_tc = 0, pm_l3_off = 0, pm_nh_num = 0, pm_phit = 0,
           pm_pprop = 0, pm_lkup_dmac = replicate 6 0, pm_iport = 0, pm_oport = 0, pm_sess_id = 0, pm_zone = 0,
           pm_l4_off = 0, pm_table_id = 0, pm_mirr = 0, pm_tcp_flags = 0, pm_nf = 0, pm_rule_id = 0,
           pm_il3_off = 0, pm_il4_off = 0, pm_itcp_flags = 0, pm_l4fin = False, pm_il4fin = False,
           pm_l3_len = 0, pm_l3_plen = 0, pm_il3_len = 0, pm_il3_plen = 0, pm_dp_mark = 0, pm_dp_rec = 0, pm_tun_off = 0,
           pm_fw_mid = 0, pm_fw_lid = 0, pm_fw_rid = 0\<rparr>\<rparr>"

section \<open>Actions\<close>

definition DP_SET_DROP :: u8 where "DP_SET_DROP = 0"
definition DP_SET_SNAT :: u8 where "DP_SET_SNAT = 1"
definition DP_SET_DNAT :: u8 where "DP_SET_DNAT = 2"
definition DP_SET_TOCP :: u8 where "DP_SET_TOCP = 10"
definition DP_SET_NOP :: u8 where "DP_SET_NOP = 12"
definition DP_SET_RT_NHNUM :: u8 where "DP_SET_RT_NHNUM = 14"
definition DP_SET_SESS_FWD_ACT :: u8 where "DP_SET_SESS_FWD_ACT = 15"
definition DP_SET_RDR_PORT :: u8 where "DP_SET_RDR_PORT = 16"
definition DP_SET_DO_CT :: u8 where "DP_SET_DO_CT = 20"
definition DP_SET_NEIGH_L2 :: u8 where "DP_SET_NEIGH_L2 = 3"
definition DP_SET_RM_L2VLAN :: u8 where "DP_SET_RM_L2VLAN = 4"
definition DP_SET_ADD_L2VLAN :: u8 where "DP_SET_ADD_L2VLAN = 5"
definition DP_SET_NEIGH_VXLAN :: u8 where "DP_SET_NEIGH_VXLAN = 6"
definition DP_SET_RM_VXLAN :: u8 where "DP_SET_RM_VXLAN = 7"
definition DP_SET_RT_TUN_NH :: u8 where "DP_SET_RT_TUN_NH = 8"
definition DP_SET_L3RT_TUN_NH :: u8 where "DP_SET_L3RT_TUN_NH = 9"
definition DP_SET_IFI :: u8 where "DP_SET_IFI = 11"
definition DP_SET_L3_EN :: u8 where "DP_SET_L3_EN = 13"
definition DP_SET_RM_GTP :: u8 where "DP_SET_RM_GTP = 21"
definition DP_SET_NEIGH_IPIP :: u8 where "DP_SET_NEIGH_IPIP = 23"
definition DP_SET_RM_IPIP :: u8 where "DP_SET_RM_IPIP = 24"

lemmas dp_set_defs = DP_SET_DROP_def DP_SET_SNAT_def DP_SET_DNAT_def DP_SET_TOCP_def DP_SET_NOP_def
  DP_SET_RT_NHNUM_def DP_SET_SESS_FWD_ACT_def DP_SET_RDR_PORT_def DP_SET_DO_CT_def
  DP_SET_NEIGH_L2_def DP_SET_RM_L2VLAN_def DP_SET_ADD_L2VLAN_def DP_SET_NEIGH_VXLAN_def DP_SET_RM_VXLAN_def DP_SET_RT_TUN_NH_def
  DP_SET_L3RT_TUN_NH_def DP_SET_IFI_def DP_SET_L3_EN_def DP_SET_RM_GTP_def DP_SET_NEIGH_IPIP_def DP_SET_RM_IPIP_def

record dp_cmn_act =
  act_type :: u8
  ftrap :: u8
  oaux :: u16
  cidx :: u32
  fwrid :: u32
  ca_mark :: u16
  ca_record :: u16

definition cmn_act0 :: dp_cmn_act where
  "cmn_act0 = \<lparr>act_type = 0, ftrap = 0, oaux = 0, cidx = 0, fwrid = 0, ca_mark = 0, ca_record = 0\<rparr>"

record dp_nat_act =
  na_xip :: xaddr
  na_rip :: xaddr
  na_xport :: u16
  na_fr :: u8
  na_doct :: u8
  na_rid :: u32
  na_aid :: u32
  na_nv6 :: u8
  na_dsr :: u8

text \<open>\<open>struct mf_xfrm_inf\<close>, also called \<open>nxfrm_inf_t\<close>.\<close>

record mf_xfrm_inf =
  nat_flags :: u8
  inactive :: u8
  wprio :: u16
  nv6 :: u8
  dsr :: u8
  nat_xport :: u16
  nat_xip :: xaddr
  nat_rip :: xaddr

definition xfrm0 :: mf_xfrm_inf where
  "xfrm0 = \<lparr>nat_flags = 0, inactive = 0, wprio = 0, nv6 = 0, dsr = 0, nat_xport = 0, nat_xip = XADDR0,
     nat_rip = XADDR0\<rparr>"

end
