(* ===== verification/Loxi_Policer.thy ===== *)
theory Loxi_Policer
  imports Loxi_State
begin

text \<open>
  The two-rate policer of \<open>llb_kern_policer.c\<close>: two token buckets that fill with the time passed since
  they were last filled, and the colour a packet gets from them.  The theorems are those a token bucket has to
  satisfy: it never holds more than its size, what it lets through is bounded by its size and its rate, and
  after enough idle time a packet that fits the buckets is green.
\<close>

section \<open>Definitions\<close>

definition NSECS_IN_USEC :: u64 where "NSECS_IN_USEC = 1000"

definition LLB_PIPE_COL_NONE :: u8 where "LLB_PIPE_COL_NONE = 0"
definition LLB_PIPE_COL_GREEN :: u8 where "LLB_PIPE_COL_GREEN = 1"
definition LLB_PIPE_COL_YELLOW :: u8 where "LLB_PIPE_COL_YELLOW = 2"
definition LLB_PIPE_COL_RED :: u8 where "LLB_PIPE_COL_RED = 3"

lemmas col_defs = LLB_PIPE_COL_NONE_def LLB_PIPE_COL_GREEN_def LLB_PIPE_COL_YELLOW_def LLB_PIPE_COL_RED_def

record dp_pol_stats =
  drop_packets :: u64
  pass_packets :: u64

record dp_policer_act =
  color_aware :: u8
  drop_prio :: u16
  cbs :: u32
  ebs :: u32
  tok_c :: u32
  tok_e :: u32
  toksc_pus :: u64
  tokse_pus :: u64
  lastc_uts :: u64
  laste_uts :: u64
  ps :: dp_pol_stats

text \<open>Filling one bucket; the code has it twice, for the committed and for the excess bucket.\<close>

definition refill :: "u64 \<Rightarrow> u32 \<Rightarrow> u64 \<Rightarrow> u32 \<Rightarrow> u64 \<Rightarrow> u32 \<times> u64" where
  "refill toks_pus bs ts_now tok ts_last = (
     let usecs_elapsed = (ts_now - ts_last) div NSECS_IN_USEC;
         acc_toks = toks_pus * usecs_elapsed
     in if acc_toks > 0 then
          (if bs > tok then
             (let ntoks = bs - tok
              in if acc_toks > ucast ntoks then (tok + ntoks, ts_now)
                 else (tok + ucast acc_toks, ts_now))
           else (tok, ts_now))
        else (tok, ts_last))"

text \<open>The colour of a packet and what it takes from the buckets; \<open>None\<close> is the early exit with -1.\<close>

definition pol_color :: "u32 \<Rightarrow> u8 \<Rightarrow> u8 \<Rightarrow> dp_policer_act \<Rightarrow> int \<times> u8 \<times> dp_policer_act" where
  "pol_color inbytes icol ocol pol = (
     if color_aware pol = 0 then
       (if tok_e pol < inbytes then (0, LLB_PIPE_COL_RED, pol)
        else if tok_c pol < inbytes then (0, LLB_PIPE_COL_YELLOW, pol\<lparr>tok_e := tok_e pol - inbytes\<rparr>)
        else (0, LLB_PIPE_COL_GREEN, pol\<lparr>tok_c := tok_c pol - inbytes, tok_e := tok_e pol - inbytes\<rparr>))
     else if icol = LLB_PIPE_COL_NONE then (-1, ocol, pol)
     else if icol = LLB_PIPE_COL_RED then (0, LLB_PIPE_COL_RED, pol)
     else if tok_e pol < inbytes then (0, LLB_PIPE_COL_RED, pol)
     else if tok_c pol < inbytes then
       (0, if icol = LLB_PIPE_COL_GREEN then LLB_PIPE_COL_YELLOW else icol, pol\<lparr>tok_e := tok_e pol - inbytes\<rparr>)
     else (0, icol, pol\<lparr>tok_c := tok_c pol - inbytes, tok_e := tok_e pol - inbytes\<rparr>))"

definition pol_step :: "u64 \<Rightarrow> xfi \<Rightarrow> dp_policer_act \<Rightarrow> int \<times> xfi \<times> dp_policer_act" where
  "pol_step ts_now xf pol = (
     let inbytes = ucast (pm_l3_len (pm xf));
         (tc, lc) = refill (toksc_pus pol) (cbs pol) ts_now (tok_c pol) (lastc_uts pol);
         (te, le) = refill (tokse_pus pol) (ebs pol) ts_now (tok_e pol) (laste_uts pol);
         pol = pol\<lparr>tok_c := tc, tok_e := te, lastc_uts := lc, laste_uts := le\<rparr>;
         (ret, ocol, pol) = pol_color inbytes (q_icol (qm xf)) (q_ocol (qm xf)) pol;
         xf = xf\<lparr>qm := (qm xf)\<lparr>q_ocol := ocol\<rparr>\<rparr>
     in if drop_prio pol < ucast ocol then
          (1, LLBS_PPLN_DROP xf, pol\<lparr>ps := (ps pol)\<lparr>drop_packets := drop_packets (ps pol) + 1\<rparr>\<rparr>)
        else (ret, xf, pol\<lparr>ps := (ps pol)\<lparr>pass_packets := pass_packets (ps pol) + 1\<rparr>\<rparr>))"

definition do_dp_policer ::
  "u64 \<Rightarrow> xfi \<Rightarrow> bool \<Rightarrow> (u32 \<rightharpoonup> dp_policer_act) \<Rightarrow> int \<times> xfi \<times> (u32 \<rightharpoonup> dp_policer_act)" where
  "do_dp_policer ts_now xf egr polx_map = (
     let polid = ucast (if egr then q_opolid (qm xf) else q_ipolid (qm xf)) :: u32
     in case polx_map polid of
          None \<Rightarrow> (0, xf, polx_map)
        | Some pla \<Rightarrow> (let (ret, xf, pla) = pol_step ts_now xf pla in (ret, xf, polx_map(polid \<mapsto> pla))))"

section \<open>One bucket\<close>

text \<open>
  The interface of a bucket: tokens and the time of the last filling.  A filling never goes over the size,
  never loses a token and adds at most what the rate allows for the time that is now accounted for.
\<close>

locale token_bucket =
  fixes fill :: "u64 \<Rightarrow> u32 \<Rightarrow> u64 \<Rightarrow> u32 \<times> u64" and rate :: nat and size :: u32
  assumes fill_size: "tok \<le> size \<Longrightarrow> fill now tok lst = (tok', lst') \<Longrightarrow> tok' \<le> size"
    and fill_mono: "fill now tok lst = (tok', lst') \<Longrightarrow> tok \<le> tok'"
    and fill_time: "lst \<le> now \<Longrightarrow> fill now tok lst = (tok', lst') \<Longrightarrow> lst \<le> lst' \<and> lst' \<le> now"
    and fill_rate: "lst \<le> now \<Longrightarrow> fill now tok lst = (tok', lst') \<Longrightarrow>
      1000 * unat tok' + rate * unat lst \<le> 1000 * unat tok + rate * unat lst'"
begin

text \<open>A run of the bucket: at each time some bytes are asked for and taken if they are there and wanted.\<close>

fun drain :: "(u64 \<times> u32 \<times> bool) list \<Rightarrow> u32 \<Rightarrow> u64 \<Rightarrow> nat \<times> u32 \<times> u64" where
  "drain [] tok lst = (0, tok, lst)"
| "drain ((now, n, want) # rs) tok lst = (
     let (tok, lst) = fill now tok lst;
         (taken, tok) = (if want \<and> n \<le> tok then (unat n, tok - n) else (0, tok));
         (used, tok, lst) = drain rs tok lst
     in (taken + used, tok, lst))"

lemma drain_bound:
  assumes "sorted (map fst rs)" and "\<forall>r\<in>set rs. lst \<le> fst r" and "drain rs tok lst = (used, tok', lst')"
  shows "lst \<le> lst' \<and> 1000 * (used + unat tok') + rate * unat lst \<le> 1000 * unat tok + rate * unat lst' \<and>
    (\<forall>t. (\<forall>r\<in>set rs. fst r \<le> t) \<longrightarrow> lst \<le> t \<longrightarrow> lst' \<le> t)"
  using assms
proof (induction rs arbitrary: tok lst used)
  case (Cons r rs)
  obtain now n want where r: "r = (now, n, want)" by (cases r)
  obtain t1 l1 where f: "fill now tok lst = (t1, l1)" by fastforce
  define t2 where "t2 = (if want \<and> n \<le> t1 then t1 - n else t1)"
  obtain s2 where d: "drain rs t2 l1 = (s2, tok', lst')" and s: "used = (unat t1 - unat t2) + s2"
    using Cons.prems(3) unfolding r
    by (auto simp: f t2_def unat_sub word_le_nat_alt Let_def split: prod.splits if_splits)
  have ln: "lst \<le> now" using Cons.prems(2) by (simp add: r)
  note time = fill_time [OF ln f] and rt = fill_rate [OF ln f]
  have "\<forall>r\<in>set rs. l1 \<le> fst r" using Cons.prems(1) time by (fastforce simp: r)
  with Cons.IH [OF _ this d] Cons.prems(1)
  have ih: "l1 \<le> lst' \<and> 1000 * (s2 + unat tok') + rate * unat l1 \<le> 1000 * unat t2 + rate * unat lst' \<and>
    (\<forall>t. (\<forall>r\<in>set rs. fst r \<le> t) \<longrightarrow> l1 \<le> t \<longrightarrow> lst' \<le> t)" by (simp add: r)
  moreover have "t2 \<le> t1" by (simp add: t2_def word_sub_le)
  then have "unat t2 \<le> unat t1" by (simp add: word_le_nat_alt)
  ultimately show ?case using rt time s by (fastforce simp: r)
qed simp

end

lemma unat_u32_u64: "unat (ucast (w :: u32) :: u64) = unat w"
  using unsigned_less [of w, where 'a = nat] by (simp add: unat_ucast_mod)

lemma refill_cases:
  assumes "refill r bs now tok lst = (tok', lst')"
  obtains (none) "tok' = tok" "lst' = lst"
    | (some) k where "lst' = now" "unat tok' = unat tok + k" "k \<le> unat r * (unat (now - lst) div 1000)"
        "k = 0 \<or> unat tok + k \<le> unat bs"
proof -
  define acc where "acc = r * ((now - lst) div NSECS_IN_USEC)"
  have "unat ((now - lst) div NSECS_IN_USEC) = unat (now - lst) div 1000"
    by (simp add: unat_div NSECS_IN_USEC_def)
  then have acc: "unat acc \<le> unat r * (unat (now - lst) div 1000)"
    by (simp add: acc_def unat_mult_lem [symmetric] unat_word_ariths)
  show thesis
  proof (cases "acc > 0 \<and> bs > tok")
    case True
    then have n: "unat (bs - tok) = unat bs - unat tok" "unat tok < unat bs"
      by (simp_all add: unat_sub word_less_nat_alt less_imp_le)
    show thesis
    proof (cases "acc > ucast (bs - tok)")
      case b: True
      then have "unat (bs - tok) < unat acc" by (simp add: word_less_nat_alt unat_u32_u64)
      moreover have "tok' = bs" "lst' = now"
        using assms True b by (auto simp: refill_def Let_def acc_def)
      ultimately show thesis using some [of "unat bs - unat tok"] n acc by simp
    next
      case b: False
      then have a: "unat acc \<le> unat bs - unat tok"
        using n by (simp add: word_less_nat_alt unat_u32_u64)
      then have "unat acc < 2 ^ 32" using n unsigned_less [of bs, where 'a = nat] by simp
      then have "unat (ucast acc :: u32) = unat acc" by (simp add: unat_ucast_mod)
      moreover have "tok' = tok + ucast acc" "lst' = now"
        using assms True b by (auto simp: refill_def Let_def acc_def)
      moreover have "unat tok + unat acc \<le> unat bs" using a n by simp
      ultimately show thesis using some [of "unat acc"] acc unsigned_less [of bs, where 'a = nat]
        by (simp add: unat_word_ariths)
    qed
  next
    case False
    then show thesis using assms none some [of 0]
      by (auto simp: refill_def Let_def acc_def split: if_splits)
  qed
qed

interpretation bucket: token_bucket "refill r bs" "unat r" bs for r bs
proof
  fix now tok lst tok' lst'
  assume f: "refill r bs now tok lst = (tok', lst')"
  show "tok \<le> tok'"
    using f by (elim refill_cases) (simp_all add: word_le_nat_alt)
  show "tok' \<le> bs" if "tok \<le> bs"
    using f that by (elim refill_cases) (auto simp: word_le_nat_alt)
  show "lst \<le> lst' \<and> lst' \<le> now" if "lst \<le> now"
    using f that by (elim refill_cases) auto
  show "1000 * unat tok' + unat r * unat lst \<le> 1000 * unat tok + unat r * unat lst'" if "lst \<le> now"
    using f that
  proof (cases rule: refill_cases)
    case (some k)
    have d: "unat (now - lst) = unat now - unat lst" using that by (rule unat_sub)
    have "1000 * k \<le> unat r * (1000 * (unat (now - lst) div 1000))" using some(3) by simp
    also have "\<dots> \<le> unat r * unat (now - lst)" by (intro mult_le_mono) simp_all
    also have "\<dots> = unat r * unat now - unat r * unat lst" by (simp add: d diff_mult_distrib2)
    finally have "1000 * k \<le> unat r * unat now - unat r * unat lst" .
    moreover have "unat r * unat lst \<le> unat r * unat now" using that by (simp add: word_le_nat_alt)
    moreover have "1000 * k \<le> a - b \<Longrightarrow> b \<le> a \<Longrightarrow> 1000 * (t + k) + b \<le> 1000 * t + a" for a b t :: nat by simp
    ultimately show ?thesis unfolding some(1,2) by blast
  qed simp
qed

section \<open>The policer\<close>

fun pol_run :: "(u64 \<times> xfi) list \<Rightarrow> dp_policer_act \<Rightarrow> (u8 \<times> u16) list \<times> dp_policer_act" where
  "pol_run [] pol = ([], pol)"
| "pol_run ((now, xf) # rs) pol = (
     let (_, xf', pol) = pol_step now xf pol;
         (out, pol) = pol_run rs pol
     in ((q_ocol (qm xf'), pm_l3_len (pm xf)) # out, pol))"

definition bytes_of :: "u8 set \<Rightarrow> (u8 \<times> u16) list \<Rightarrow> nat" where
  "bytes_of cols out = sum_list (map (\<lambda>(c, n). if c \<in> cols then unat n else 0) out)"

lemma unat_u16_u32: "unat (ucast (w :: u16) :: u32) = unat w"
  using unsigned_less [of w, where 'a = nat] by (simp add: unat_ucast_mod)

lemma pol_color_cases:
  assumes "pol_color n icol ocol pol = (ret, ocol', pol')"
  shows "pol' = pol \<and> (ocol' = LLB_PIPE_COL_RED \<or> ocol' = ocol) \<or>
    n \<le> tok_e pol \<and> pol' = pol\<lparr>tok_e := tok_e pol - n\<rparr> \<and> ocol' \<noteq> LLB_PIPE_COL_GREEN \<or>
    n \<le> tok_e pol \<and> n \<le> tok_c pol \<and> pol' = pol\<lparr>tok_c := tok_c pol - n, tok_e := tok_e pol - n\<rparr>"
  using assms unfolding pol_color_def not_less by (simp add: col_defs split: if_splits) (simp_all add: not_less)

lemma pol_step_buckets:
  assumes "pol_step now xf pol = (ret, xf', pol')" and "q_ocol (qm xf) = LLB_PIPE_COL_NONE"
    and "refill (toksc_pus pol) (cbs pol) now (tok_c pol) (lastc_uts pol) = (tc, lc)"
    and "refill (tokse_pus pol) (ebs pol) now (tok_e pol) (laste_uts pol) = (te, le)"
    and "n = ucast (pm_l3_len (pm xf))"
  shows "cbs pol' = cbs pol" "toksc_pus pol' = toksc_pus pol" "lastc_uts pol' = lc"
    "ebs pol' = ebs pol" "tokse_pus pol' = tokse_pus pol" "laste_uts pol' = le"
    "tok_c pol' = tc \<and> q_ocol (qm xf') \<noteq> LLB_PIPE_COL_GREEN \<or> n \<le> tc \<and> tok_c pol' = tc - n"
    "tok_e pol' = te \<and> q_ocol (qm xf') \<notin> {LLB_PIPE_COL_GREEN, LLB_PIPE_COL_YELLOW} \<or> n \<le> te \<and> tok_e pol' = te - n"
proof -
  obtain r c p where pc: "pol_color n (q_icol (qm xf)) (q_ocol (qm xf))
      (pol\<lparr>tok_c := tc, tok_e := te, lastc_uts := lc, laste_uts := le\<rparr>) = (r, c, p)"
    by (cases "pol_color n (q_icol (qm xf)) (q_ocol (qm xf))
      (pol\<lparr>tok_c := tc, tok_e := te, lastc_uts := lc, laste_uts := le\<rparr>)")
  have q: "q_ocol (qm xf') = c" "pol' = p\<lparr>ps := ps pol'\<rparr>"
    using assms(1) pc unfolding pol_step_def by (auto simp: assms(3-5) Let_def split: if_splits)
  have f: "cbs pol' = cbs p" "toksc_pus pol' = toksc_pus p" "lastc_uts pol' = lastc_uts p" "tok_c pol' = tok_c p"
    "ebs pol' = ebs p" "tokse_pus pol' = tokse_pus p" "laste_uts pol' = laste_uts p" "tok_e pol' = tok_e p"
    by (subst q(2), simp)+
  from pc show "cbs pol' = cbs pol" "toksc_pus pol' = toksc_pus pol" "lastc_uts pol' = lc"
    "ebs pol' = ebs pol" "tokse_pus pol' = tokse_pus pol" "laste_uts pol' = le"
    unfolding f using pol_color_cases [OF pc] by auto
  from pc show "tok_c pol' = tc \<and> q_ocol (qm xf') \<noteq> LLB_PIPE_COL_GREEN \<or> n \<le> tc \<and> tok_c pol' = tc - n"
    unfolding f q(1) using pol_color_cases [OF pc] by (auto simp: assms(2) col_defs)
  from pc show "tok_e pol' = te \<and> q_ocol (qm xf') \<notin> {LLB_PIPE_COL_GREEN, LLB_PIPE_COL_YELLOW} \<or> n \<le> te \<and> tok_e pol' = te - n"
    unfolding f q(1) using pol_color_cases [OF pc] by (auto simp: assms(2) col_defs)
qed

lemma bytes_of_simps [simp]:
  "bytes_of cols [] = 0"
  "bytes_of cols ((c, n) # out) = (if c \<in> cols then unat n else 0) + bytes_of cols out"
  by (simp_all add: bytes_of_def)

text \<open>A run of the policer is a run of either bucket, which hands out at least the bytes of that colour.\<close>

lemma pol_run_drains:
  assumes "pol_run rs pol = (out, pol')" and "\<forall>r\<in>set rs. q_ocol (qm (snd r)) = LLB_PIPE_COL_NONE"
  shows "(\<exists>ds used. map fst ds = map fst rs \<and> bytes_of {LLB_PIPE_COL_GREEN} out \<le> used \<and>
      bucket.drain (toksc_pus pol) (cbs pol) ds (tok_c pol) (lastc_uts pol) = (used, tok_c pol', lastc_uts pol')) \<and>
    (\<exists>ds used. map fst ds = map fst rs \<and> bytes_of {LLB_PIPE_COL_GREEN, LLB_PIPE_COL_YELLOW} out \<le> used \<and>
      bucket.drain (tokse_pus pol) (ebs pol) ds (tok_e pol) (laste_uts pol) = (used, tok_e pol', laste_uts pol'))"
  using assms
proof (induction rs arbitrary: pol out)
  case Nil
  then show ?case by (intro conjI exI [of _ "[]"]) simp_all
next
  case (Cons r rs)
  obtain now xf where r: "r = (now, xf)" by (cases r)
  obtain ret xf' p where st: "pol_step now xf pol = (ret, xf', p)" by (cases "pol_step now xf pol")
  obtain out' where out: "pol_run rs p = (out', pol')" "out = (q_ocol (qm xf'), pm_l3_len (pm xf)) # out'"
    using Cons.prems(1) by (auto simp: r st split: prod.splits)
  obtain tc lc te le where
    c: "refill (toksc_pus pol) (cbs pol) now (tok_c pol) (lastc_uts pol) = (tc, lc)" and
    e: "refill (tokse_pus pol) (ebs pol) now (tok_e pol) (laste_uts pol) = (te, le)" by (metis surj_pair)
  let ?n = "ucast (pm_l3_len (pm xf)) :: u32"
  have o: "q_ocol (qm xf) = LLB_PIPE_COL_NONE" "\<forall>r\<in>set rs. q_ocol (qm (snd r)) = LLB_PIPE_COL_NONE"
    using Cons.prems(2) by (simp_all add: r)
  note b = pol_step_buckets [OF st o(1) c e refl]
  show ?case
  proof (intro conjI)
    obtain ds used where ds: "map fst ds = map fst rs" "bytes_of {LLB_PIPE_COL_GREEN} out' \<le> used"
        "bucket.drain (toksc_pus pol) (cbs pol) ds (tok_c p) lc = (used, tok_c pol', lastc_uts pol')"
      using Cons.IH [OF out(1) o(2)] by (auto simp: b(1-3))
    from b(7) show "\<exists>ds used. map fst ds = map fst (r # rs) \<and> bytes_of {LLB_PIPE_COL_GREEN} out \<le> used \<and>
      bucket.drain (toksc_pus pol) (cbs pol) ds (tok_c pol) (lastc_uts pol) = (used, tok_c pol', lastc_uts pol')"
    proof
      assume "tok_c p = tc \<and> q_ocol (qm xf') \<noteq> LLB_PIPE_COL_GREEN"
      then show ?thesis using ds by (intro exI [of _ "(now, ?n, False) # ds"] exI [of _ used]) (simp add: r c out(2))
    next
      assume "?n \<le> tc \<and> tok_c p = tc - ?n"
      then show ?thesis using ds
        by (intro exI [of _ "(now, ?n, True) # ds"] exI [of _ "unat ?n + used"]) (simp add: r c out(2) unat_u16_u32)
    qed
  next
    obtain ds used where ds: "map fst ds = map fst rs"
        "bytes_of {LLB_PIPE_COL_GREEN, LLB_PIPE_COL_YELLOW} out' \<le> used"
        "bucket.drain (tokse_pus pol) (ebs pol) ds (tok_e p) le = (used, tok_e pol', laste_uts pol')"
      using Cons.IH [OF out(1) o(2)] by (auto simp: b(4-6))
    from b(8) show "\<exists>ds used. map fst ds = map fst (r # rs) \<and>
      bytes_of {LLB_PIPE_COL_GREEN, LLB_PIPE_COL_YELLOW} out \<le> used \<and>
      bucket.drain (tokse_pus pol) (ebs pol) ds (tok_e pol) (laste_uts pol) = (used, tok_e pol', laste_uts pol')"
    proof
      assume "tok_e p = te \<and> q_ocol (qm xf') \<notin> {LLB_PIPE_COL_GREEN, LLB_PIPE_COL_YELLOW}"
      then show ?thesis using ds by (intro exI [of _ "(now, ?n, False) # ds"] exI [of _ used]) (simp add: r e out(2))
    next
      assume "?n \<le> te \<and> tok_e p = te - ?n"
      then show ?thesis using ds
        by (intro exI [of _ "(now, ?n, True) # ds"] exI [of _ "unat ?n + used"]) (simp add: r e out(2) unat_u16_u32)
    qed
  qed
qed

lemma drain_rate:
  assumes "map fst ds = ts" and "sorted ts" and "\<forall>t\<in>set ts. lst \<le> t \<and> t \<le> fin" and "lst \<le> fin"
    and "bucket.drain r bs ds tok lst = (used, tok', lst')"
  shows "1000 * used \<le> 1000 * unat tok + unat r * (unat fin - unat lst)"
proof -
  have "\<forall>d\<in>set ds. lst \<le> fst d" "\<forall>d\<in>set ds. fst d \<le> fin" "sorted (map fst ds)"
    using assms(2,3) unfolding assms(1) [symmetric] by simp_all
  with bucket.drain_bound [OF _ _ assms(5)] assms(4)
  have b: "1000 * (used + unat tok') + unat r * unat lst \<le> 1000 * unat tok + unat r * unat lst'"
    and "lst' \<le> fin" by auto
  then have "unat r * unat lst' \<le> unat r * unat fin" by (simp add: word_le_nat_alt)
  moreover have "unat r * unat lst \<le> unat r * unat fin" using assms(4) by (simp add: word_le_nat_alt)
  moreover have "1000 * (u + t') + a \<le> 1000 * t + b \<Longrightarrow> b \<le> c \<Longrightarrow> a \<le> c \<Longrightarrow> 1000 * u \<le> 1000 * t + (c - a)"
    for u t' t a b c :: nat by simp
  ultimately show ?thesis using b unfolding diff_mult_distrib2 by blast
qed

text \<open>C18: What the policer lets through is bounded by bucket and rate.  Over any sequence of packets between
  the last filling and time \<open>fin\<close>, the green packets have at most the bytes that were in the committed
  bucket plus the committed rate times the time passed (times are in nanoseconds, rates in bytes per
  microsecond), and the green and yellow packets together at most those of the excess bucket.\<close>

theorem policer_rate_bound:
  assumes "pol_run rs pol = (out, pol')" and "sorted (map fst rs)"
    and "\<forall>r\<in>set rs. lastc_uts pol \<le> fst r \<and> laste_uts pol \<le> fst r \<and> fst r \<le> fin"
    and "lastc_uts pol \<le> fin" and "laste_uts pol \<le> fin"
    and "\<forall>r\<in>set rs. q_ocol (qm (snd r)) = LLB_PIPE_COL_NONE"
  shows "1000 * bytes_of {LLB_PIPE_COL_GREEN} out
      \<le> 1000 * unat (tok_c pol) + unat (toksc_pus pol) * (unat fin - unat (lastc_uts pol)) \<and>
    1000 * bytes_of {LLB_PIPE_COL_GREEN, LLB_PIPE_COL_YELLOW} out
      \<le> 1000 * unat (tok_e pol) + unat (tokse_pus pol) * (unat fin - unat (laste_uts pol))"
proof -
  have t: "\<forall>t\<in>set (map fst rs). lastc_uts pol \<le> t \<and> t \<le> fin" "\<forall>t\<in>set (map fst rs). laste_uts pol \<le> t \<and> t \<le> fin"
    using assms(3) by auto
  from pol_run_drains [OF assms(1,6)] obtain ds1 u1 ds2 u2 where
    "map fst ds1 = map fst rs" "bytes_of {LLB_PIPE_COL_GREEN} out \<le> u1"
    "bucket.drain (toksc_pus pol) (cbs pol) ds1 (tok_c pol) (lastc_uts pol) = (u1, tok_c pol', lastc_uts pol')" and
    "map fst ds2 = map fst rs" "bytes_of {LLB_PIPE_COL_GREEN, LLB_PIPE_COL_YELLOW} out \<le> u2"
    "bucket.drain (tokse_pus pol) (ebs pol) ds2 (tok_e pol) (laste_uts pol) = (u2, tok_e pol', laste_uts pol')"
    by blast
  with drain_rate [OF _ assms(2) t(1) assms(4)] drain_rate [OF _ assms(2) t(2) assms(5)] show ?thesis
    by (meson le_trans mult_le_mono2)
qed

definition pol0 :: dp_policer_act where
  "pol0 = \<lparr>color_aware = 0, drop_prio = 2, cbs = 2000, ebs = 3000, tok_c = 2000, tok_e = 3000, toksc_pus = 1,
     tokse_pus = 2, lastc_uts = 0, laste_uts = 0, ps = \<lparr>drop_packets = 0, pass_packets = 0\<rparr>\<rparr>"

definition xf_len :: "u16 \<Rightarrow> xfi" where
  "xf_len n = xfi0\<lparr>pm := (pm xfi0)\<lparr>pm_l3_len := n\<rparr>\<rparr>"

theorem policer_rate_bound_witness:
  "1000 * bytes_of {LLB_PIPE_COL_GREEN} (fst (pol_run [(0, xf_len 1500), (1000, xf_len 1500)] pol0)) \<le> 2001000"
  using policer_rate_bound [of "[(0, xf_len 1500), (1000, xf_len 1500)]" pol0
      "fst (pol_run [(0, xf_len 1500), (1000, xf_len 1500)] pol0)"
      "snd (pol_run [(0, xf_len 1500), (1000, xf_len 1500)] pol0)" 1000]
  by (simp add: pol0_def xf_len_def xfi0_def l34m0_def l2m0_def LLB_PIPE_COL_NONE_def)

text \<open>The buckets never hold more tokens than their sizes, whatever the packets, the clock and the rates are,
  and every packet the policer sees is counted once, as passed or as dropped, and is dropped exactly when it
  is counted so.\<close>

theorem policer_invariant:
  assumes "tok_c pol \<le> cbs pol" and "tok_e pol \<le> ebs pol" and "pol_step now xf pol = (ret, xf', pol')"
  shows "tok_c pol' \<le> cbs pol' \<and> tok_e pol' \<le> ebs pol' \<and> cbs pol' = cbs pol \<and> ebs pol' = ebs pol \<and>
    (if drop_prio pol < ucast (q_ocol (qm xf')) then ret = 1 \<and> xf' = LLBS_PPLN_DROP (xf\<lparr>qm := qm xf'\<rparr>) \<and>
       ps pol' = (ps pol)\<lparr>drop_packets := drop_packets (ps pol) + 1\<rparr>
     else xf' = xf\<lparr>qm := qm xf'\<rparr> \<and> ps pol' = (ps pol)\<lparr>pass_packets := pass_packets (ps pol) + 1\<rparr>)"
proof -
  let ?n = "ucast (pm_l3_len (pm xf)) :: u32"
  obtain tc lc te le where
    c: "refill (toksc_pus pol) (cbs pol) now (tok_c pol) (lastc_uts pol) = (tc, lc)" and
    e: "refill (tokse_pus pol) (ebs pol) now (tok_e pol) (laste_uts pol) = (te, le)" by (metis surj_pair)
  have tc: "tc \<le> cbs pol" "te \<le> ebs pol"
    using bucket.fill_size [OF assms(1) c] bucket.fill_size [OF assms(2) e] .
  let ?p = "pol\<lparr>tok_c := tc, tok_e := te, lastc_uts := lc, laste_uts := le\<rparr>"
  obtain r oc p where pc: "pol_color ?n (q_icol (qm xf)) (q_ocol (qm xf)) ?p = (r, oc, p)"
    by (cases "pol_color ?n (q_icol (qm xf)) (q_ocol (qm xf)) ?p")
  have p: "tok_c p \<le> cbs pol" "tok_e p \<le> ebs pol" "cbs p = cbs pol" "ebs p = ebs pol" "ps p = ps pol"
      "drop_prio p = drop_prio pol"
    using pol_color_cases [OF pc] tc by (auto intro: order_trans [OF word_sub_le])
  show ?thesis using assms(3) p unfolding pol_step_def Let_def c e prod.case pc
    by (auto simp: LLBS_PPLN_def split: if_splits)
qed

theorem policer_invariant_witness:
  "tok_c (snd (snd (pol_step 1000 (xf_len 1500) pol0))) \<le> 2000"
proof -
  have "tok_c pol0 \<le> cbs pol0" "tok_e pol0 \<le> ebs pol0" "cbs pol0 = 2000" by (simp_all add: pol0_def)
  then show ?thesis using policer_invariant [of pol0 1000 "xf_len 1500"] by (metis surjective_pairing)
qed

lemma refill_full:
  assumes "tok \<le> bs" and "unat bs \<le> unat r * (unat (now - lst) div 1000)"
    and "unat r * (unat (now - lst) div 1000) < 2 ^ 64"
  shows "fst (refill r bs now tok lst) = bs"
proof -
  define acc where "acc = r * ((now - lst) div NSECS_IN_USEC)"
  have "unat ((now - lst) div NSECS_IN_USEC) = unat (now - lst) div 1000"
    by (simp add: unat_div NSECS_IN_USEC_def)
  then have acc: "unat bs \<le> unat acc" using assms(2,3) by (simp add: acc_def unat_word_ariths)
  show ?thesis
  proof (cases "acc > ucast (bs - tok)")
    case True
    then show ?thesis using assms(1) by (auto simp: refill_def Let_def acc_def [symmetric] not_less)
  next
    case False
    then have "unat acc \<le> unat bs - unat tok"
      using assms(1) by (simp add: word_less_nat_alt unat_u32_u64 unat_sub)
    then have "unat acc = unat bs" "unat tok = 0 \<or> unat bs = 0" using acc by auto
    then have "ucast acc = bs" "tok = 0 \<or> bs = 0"
      using unsigned_less [of bs, where 'a = nat] by (auto simp: word_unat_eq_iff unat_ucast_mod)
    then show ?thesis using assms(1) False
      by (auto simp: refill_def Let_def acc_def [symmetric] word_neq_0_conv not_less)
  qed
qed

text \<open>The policer does not starve anyone: in colour-blind mode a packet that fits both buckets is green and
  passes once the link has been idle long enough for the rates to fill the buckets, however empty they
  were.\<close>

theorem policer_recovers:
  assumes "color_aware pol = 0" and "1 \<le> drop_prio pol"
    and "ucast (pm_l3_len (pm xf)) \<le> cbs pol" and "ucast (pm_l3_len (pm xf)) \<le> ebs pol"
    and "tok_c pol \<le> cbs pol" and "tok_e pol \<le> ebs pol"
    and "unat (cbs pol) \<le> unat (toksc_pus pol) * (unat (now - lastc_uts pol) div 1000)"
    and "unat (ebs pol) \<le> unat (tokse_pus pol) * (unat (now - laste_uts pol) div 1000)"
    and "unat (toksc_pus pol) * (unat (now - lastc_uts pol) div 1000) < 2 ^ 64"
    and "unat (tokse_pus pol) * (unat (now - laste_uts pol) div 1000) < 2 ^ 64"
  shows "\<exists>pol'. pol_step now xf pol = (0, xf\<lparr>qm := (qm xf)\<lparr>q_ocol := LLB_PIPE_COL_GREEN\<rparr>\<rparr>, pol')"
proof -
  obtain tc lc te le where
    c: "refill (toksc_pus pol) (cbs pol) now (tok_c pol) (lastc_uts pol) = (tc, lc)" and
    e: "refill (tokse_pus pol) (ebs pol) now (tok_e pol) (laste_uts pol) = (te, le)" by (metis surj_pair)
  have t: "tc = cbs pol" "te = ebs pol"
    using refill_full [OF assms(5,7,9)] refill_full [OF assms(6,8,10)] c e by simp_all
  have "\<not> drop_prio pol < ucast LLB_PIPE_COL_GREEN" using assms(2) by (simp add: LLB_PIPE_COL_GREEN_def word_less_nat_alt word_le_nat_alt)
  then show ?thesis using assms(1,3,4)
    unfolding pol_step_def Let_def c e prod.case t pol_color_def by (simp add: not_less)
qed

theorem policer_recovers_witness:
  "\<exists>pol'. pol_step 4000000 (xf_len 1500) (pol0\<lparr>tok_c := 0, tok_e := 0\<rparr>) =
     (0, (xf_len 1500)\<lparr>qm := (qm (xf_len 1500))\<lparr>q_ocol := LLB_PIPE_COL_GREEN\<rparr>\<rparr>, pol')"
  by (rule policer_recovers) (simp_all add: pol0_def xf_len_def)

end
