(* ===== verification/Loxi_Nat.thy ===== *)
theory Loxi_Nat
  imports Loxi_State
begin

text \<open>
  The load balancer of \<open>llb_kern_natlbfwd.c\<close>: the lookup of a service and the choice of one of its
  endpoints, in turn or by the hash of the packet.  The hash is the kernel's and an argument here.  A remainder
  by zero leaves the dividend as it is, in eBPF and in HOL alike.
\<close>

section \<open>Definitions\<close>

definition LLB_MAX_NXFRMS :: nat where "LLB_MAX_NXFRMS = 16"
definition NAT_LB_SEL_RR :: u16 where "NAT_LB_SEL_RR = 0"
definition NAT_LB_SEL_HASH :: u16 where "NAT_LB_SEL_HASH = 1"
definition NAT_LB_SEL_PRIO :: u16 where "NAT_LB_SEL_PRIO = 2"
definition LL_DP_NAT_MAP :: u8 where "LL_DP_NAT_MAP = 23"

record dp_nat_key =
  nk_daddr :: xaddr
  nk_dport :: u16
  nk_zone :: u16
  nk_mark :: u16
  nk_l4proto :: u8
  nk_v6 :: u8

record dp_nat_tacts =
  nt_ca :: dp_cmn_act
  nt_ito :: u64
  nxfrm :: u32
  sel_hint :: u16
  sel_type :: u16
  nxfrms :: "mf_xfrm_inf list"

text \<open>The loop of the round robin: the first active endpoint from \<open>i\<close> on, in cyclic order.\<close>

fun sel_rr :: "nat \<Rightarrow> u16 \<Rightarrow> dp_nat_tacts \<Rightarrow> int \<times> dp_nat_tacts" where
  "sel_rr 0 i act = (-1, act)"
| "sel_rr (Suc n) i act =
     (if unat i < LLB_MAX_NXFRMS \<and> inactive (nxfrms act ! unat i) = 0
      then (int (unat i), act\<lparr>sel_hint := ucast ((ucast i + 1) mod nxfrm act)\<rparr>)
      else sel_rr n (ucast (ucast (i + 1) mod nxfrm act)) act)"

text \<open>The fallback of the hash selection: the first active slot of the whole array.\<close>

fun sel_first :: "nat \<Rightarrow> nat \<Rightarrow> int \<Rightarrow> dp_nat_tacts \<Rightarrow> int" where
  "sel_first 0 i sel act = sel"
| "sel_first (Suc n) i sel act =
     (if inactive (nxfrms act ! i) = 0 then int i else sel_first n (Suc i) sel act)"

definition dp_sel_nat_ep :: "u32 \<Rightarrow> dp_nat_tacts \<Rightarrow> int \<times> dp_nat_tacts" where
  "dp_sel_nat_ep hash act = (
     if sel_type act = NAT_LB_SEL_RR then sel_rr LLB_MAX_NXFRMS (sel_hint act) act
     else if sel_type act = NAT_LB_SEL_HASH then
       (let sel = sint (hash mod nxfrm act)
        in if 0 \<le> sel \<and> sel < int LLB_MAX_NXFRMS \<and> inactive (nxfrms act ! nat sel) \<noteq> 0
           then (sel_first LLB_MAX_NXFRMS 0 sel act, act) else (sel, act))
     else (-1, act))"

definition nat_key :: "xfi \<Rightarrow> dp_nat_key" where
  "nat_key xf = \<lparr>nk_daddr = l34_daddr (l34m xf),
     nk_dport = (if nw_proto (l34m xf) \<noteq> IPPROTO_ICMP then l34_dest (l34m xf) else 0),
     nk_zone = pm_zone (pm xf), nk_mark = pm_dp_mark (pm xf), nk_l4proto = nw_proto (l34m xf),
     nk_v6 = (if is_v6 xf then 1 else 0)\<rparr>"

text \<open>What the chosen endpoint puts into the metadata, with the special case of host DNAT.\<close>

definition set_ep :: "dp_nat_tacts \<Rightarrow> u32 \<Rightarrow> xfi \<Rightarrow> xfi" where
  "set_ep act sel xf = (
     let ep = nxfrms act ! unat sel;
         xf = xf\<lparr>nm := (nm xf)\<lparr>nm_nxip := nat_xip ep, nm_nrip := nat_rip ep, nm_nxport := nat_xport ep,
                    nm_nv6 := (if nv6 ep \<noteq> 0 then 1 else 0), nm_sel_aid := ucast sel, nm_ito := nt_ito act\<rparr>,
                 pm := (pm xf)\<lparr>pm_rule_id := cidx (nt_ca act)\<rparr>\<rparr>
     in if addr4 (l34_saddr (l34m xf)) = addr4 (nm_nxip (nm xf)) \<and> pm_nf (pm xf) = LLB_NAT_DST
        then xf\<lparr>nm := (nm xf)\<lparr>nm_nxip := set_addr4 0 (nm_nxip (nm xf))\<rparr>\<rparr> else xf)"

definition dp_do_nat ::
  "u32 \<Rightarrow> xfi \<Rightarrow> (dp_nat_key \<rightharpoonup> dp_nat_tacts) \<Rightarrow> int \<times> xfi \<times> (dp_nat_key \<rightharpoonup> dp_nat_tacts)" where
  "dp_do_nat hash xf nat_map = (
     let key = nat_key xf;
         xf = xf\<lparr>pm := (pm xf)\<lparr>pm_table_id := LL_DP_NAT_MAP\<rparr>\<rparr>
     in case nat_map key of
          None \<Rightarrow> (0, xf\<lparr>pm := (pm xf)\<lparr>pm_nf := pm_nf (pm xf) AND NOT LLB_NAT_SRC\<rparr>\<rparr>, nat_map)
        | Some act \<Rightarrow>
            if act_type (nt_ca act) = DP_SET_SNAT \<or> act_type (nt_ca act) = DP_SET_DNAT then
              (let (s, act) = dp_sel_nat_ep hash act;
                   sel = word_of_int s :: u32;
                   nat_map = nat_map(key \<mapsto> act);
                   xf = xf\<lparr>nm := (nm xf)\<lparr>nm_dsr := (if oaux (nt_ca act) \<noteq> 0 then 1 else 0)\<rparr>,
                           pm := (pm xf)\<lparr>pm_nf := (if act_type (nt_ca act) = DP_SET_SNAT then LLB_NAT_SRC
                                                   else LLB_NAT_DST)\<rparr>\<rparr>
               in if sel < of_nat LLB_MAX_NXFRMS then (1, set_ep act sel xf, nat_map)
                  else (1, xf\<lparr>pm := (pm xf)\<lparr>pm_nf := 0\<rparr>\<rparr>, nat_map))
            else (1, LLBS_PPLN_DROP xf, nat_map))"

section \<open>Round robin\<close>

text \<open>A service as the control plane writes it.\<close>

definition nat_ok :: "dp_nat_tacts \<Rightarrow> bool" where
  "nat_ok act \<longleftrightarrow> length (nxfrms act) = LLB_MAX_NXFRMS \<and> 0 < unat (nxfrm act) \<and> unat (nxfrm act) \<le> LLB_MAX_NXFRMS \<and>
     unat (sel_hint act) < unat (nxfrm act)"

definition active :: "dp_nat_tacts \<Rightarrow> nat \<Rightarrow> bool" where
  "active act j \<longleftrightarrow> j < unat (nxfrm act) \<and> inactive (nxfrms act ! j) = 0"

lemma next_index:
  assumes "unat (i :: u16) < m" and "m \<le> LLB_MAX_NXFRMS" and "m = unat (n :: u32)"
  shows "unat (ucast ((ucast i + 1) mod n) :: u16) = Suc (unat i) mod m"
    and "unat (ucast (ucast (i + 1) mod n) :: u16) = Suc (unat i) mod m"
proof -
  have m: "m \<le> 16" "unat i < 16" using assms by (simp_all add: LLB_MAX_NXFRMS_def)
  have "unat (ucast i + 1 :: u32) = Suc (unat i)" "unat (ucast (i + 1) :: u32) = Suc (unat i)"
    using m by (simp_all add: unat_word_ariths unat_ucast_mod)
  then have u: "unat ((ucast i + 1) mod n) = Suc (unat i) mod m" "unat (ucast (i + 1) mod n) = Suc (unat i) mod m"
    using assms(3) by (simp_all add: unat_mod_distrib)
  have "Suc (unat i) mod m < m" using assms(1) by (intro mod_less_divisor) simp
  then have "Suc (unat i) mod m < 2 ^ 16" using m by simp
  then show "unat (ucast ((ucast i + 1) mod n) :: u16) = Suc (unat i) mod m"
    "unat (ucast (ucast (i + 1) mod n) :: u16) = Suc (unat i) mod m"
    unfolding unat_ucast_mod u by simp_all
qed

text \<open>The cyclic distance from \<open>h\<close> to \<open>j\<close>.\<close>

definition dist :: "nat \<Rightarrow> nat \<Rightarrow> nat \<Rightarrow> nat" where
  "dist m h j = (if h \<le> j then j - h else j + m - h)"

lemma dist_step: "h < m \<Longrightarrow> j < m \<Longrightarrow> h \<noteq> j \<Longrightarrow> dist m h j = Suc (dist m (Suc h mod m) j)"
  by (cases "Suc h = m") (auto simp: dist_def)

lemma dist_less: "h < m \<Longrightarrow> j < m \<Longrightarrow> dist m h j < m"
  by (auto simp: dist_def)

text \<open>From an index below the number of endpoints the loop finds an active endpoint that is no further away
  than any other, and puts the hint behind it.\<close>

lemma sel_rr_finds:
  assumes "nat_ok act" and "active act j" and "unat i < unat (nxfrm act)" and "dist (unat (nxfrm act)) (unat i) j < n"
  shows "\<exists>k hint. sel_rr n i act = (int k, act\<lparr>sel_hint := hint\<rparr>) \<and> active act k \<and>
    unat hint = Suc k mod unat (nxfrm act) \<and>
    dist (unat (nxfrm act)) (unat i) k \<le> dist (unat (nxfrm act)) (unat i) j"
  using assms(3,4)
proof (induction n arbitrary: i)
  case (Suc n)
  let ?m = "unat (nxfrm act)"
  have m: "?m \<le> LLB_MAX_NXFRMS" using assms(1) by (simp add: nat_ok_def)
  note nx = next_index [OF Suc.prems(1) m refl]
  have i: "unat i < LLB_MAX_NXFRMS" using Suc.prems(1) m by simp
  show ?case
  proof (cases "inactive (nxfrms act ! unat i) = 0")
    case True
    then show ?thesis using i nx(1) Suc.prems(1)
      by (intro exI [of _ "unat i"] exI [of _ "ucast ((ucast i + 1) mod nxfrm act)"]) (simp add: active_def dist_def)
  next
    case False
    let ?i = "ucast (ucast (i + 1) mod nxfrm act) :: u16"
    have j: "j < ?m" "j \<noteq> unat i" using assms(2) False by (auto simp: active_def)
    have l: "unat ?i < ?m" using nx(2) j by simp
    have d: "dist ?m (unat i) j = Suc (dist ?m (unat ?i) j)" unfolding nx(2) using Suc.prems(1) j by (intro dist_step) auto
    then obtain k hint where k: "sel_rr n ?i act = (int k, act\<lparr>sel_hint := hint\<rparr>)" "active act k"
        "unat hint = Suc k mod ?m" "dist ?m (unat ?i) k \<le> dist ?m (unat ?i) j"
      using Suc.IH [OF l] Suc.prems(2) by auto
    have "k \<noteq> unat i" "k < ?m" using k(2) False by (auto simp: active_def)
    then have "dist ?m (unat i) k = Suc (dist ?m (unat ?i) k)"
      unfolding nx(2) using Suc.prems(1) by (intro dist_step) auto
    then show ?thesis using k d False by auto
  qed
qed simp

section \<open>Fairness\<close>

text \<open>
  The contract of a fair scheduler: a pick either is \<open>j\<close> or brings \<open>j\<close> nearer.  Then \<open>j\<close> is picked
  after at most as many picks as it was away.
\<close>

locale fair_scheduler =
  fixes pick :: "'s \<Rightarrow> int \<times> 's" and inv :: "'s \<Rightarrow> bool" and wanted :: "'s \<Rightarrow> nat \<Rightarrow> bool"
    and away :: "'s \<Rightarrow> nat \<Rightarrow> nat"
  assumes pick_inv: "inv s \<Longrightarrow> wanted s j \<Longrightarrow> pick s = (k, s') \<Longrightarrow> inv s' \<and> wanted s' j"
    and pick_nearer: "inv s \<Longrightarrow> wanted s j \<Longrightarrow> pick s = (k, s') \<Longrightarrow> k \<noteq> int j \<Longrightarrow> away s' j < away s j"
begin

fun picks :: "nat \<Rightarrow> 's \<Rightarrow> int list" where
  "picks 0 s = []"
| "picks (Suc n) s = (let (k, s') = pick s in k # picks n s')"

lemma picked:
  assumes "inv s" and "wanted s j" and "away s j < n"
  shows "int j \<in> set (picks n s)"
  using assms
proof (induction n arbitrary: s)
  case (Suc n)
  obtain k s' where p: "pick s = (k, s')" by fastforce
  show ?case
  proof (cases "k = int j")
    case False
    then have "away s' j < n" using pick_nearer [OF Suc.prems(1,2) p] Suc.prems(3) by simp
    then show ?thesis using Suc.IH [of s'] pick_inv [OF Suc.prems(1,2) p] by (simp add: p)
  qed (simp add: p)
qed simp

end

lemma sel_ep_finds:
  assumes "nat_ok act" and "sel_type act = NAT_LB_SEL_RR" and "active act j"
  shows "\<exists>k hint. dp_sel_nat_ep h act = (int k, act\<lparr>sel_hint := hint\<rparr>) \<and> active act k \<and>
    unat hint = Suc k mod unat (nxfrm act) \<and>
    dist (unat (nxfrm act)) (unat (sel_hint act)) k \<le> dist (unat (nxfrm act)) (unat (sel_hint act)) j"
proof -
  have h: "unat (sel_hint act) < unat (nxfrm act)" "unat (nxfrm act) \<le> LLB_MAX_NXFRMS"
    using assms(1) by (simp_all add: nat_ok_def)
  have "dist (unat (nxfrm act)) (unat (sel_hint act)) j < LLB_MAX_NXFRMS"
    using dist_less [OF h(1)] assms(3) h(2) by (fastforce simp: active_def)
  then show ?thesis using sel_rr_finds [OF assms(1,3) h(1)] assms(2) by (simp add: dp_sel_nat_ep_def)
qed

lemma sel_ep_none:
  assumes "nat_ok act" and "sel_type act = NAT_LB_SEL_RR" and "\<nexists>j. active act j"
  shows "dp_sel_nat_ep h act = (-1, act)"
proof -
  have "sel_rr n i act = (-1, act)" if "unat i < unat (nxfrm act)" for n i
    using that
  proof (induction n arbitrary: i)
    case (Suc n)
    have m: "unat (nxfrm act) \<le> LLB_MAX_NXFRMS" using assms(1) by (simp add: nat_ok_def)
    have "unat (ucast (ucast (i + 1) mod nxfrm act) :: u16) < unat (nxfrm act)"
      using next_index(2) [OF Suc.prems m refl] Suc.prems by simp
    then show ?case using Suc.IH assms(3) Suc.prems by (simp add: active_def)
  qed simp
  then show ?thesis using assms(1,2) by (simp add: dp_sel_nat_ep_def nat_ok_def)
qed

lemma nat_ok_hint: "nat_ok act \<Longrightarrow> unat hint < unat (nxfrm act) \<Longrightarrow> nat_ok (act\<lparr>sel_hint := hint\<rparr>)"
  by (simp add: nat_ok_def)

definition rr_inv :: "dp_nat_tacts \<Rightarrow> bool" where
  "rr_inv act \<longleftrightarrow> nat_ok act \<and> sel_type act = NAT_LB_SEL_RR"

interpretation rr: fair_scheduler "dp_sel_nat_ep h" rr_inv active
  "\<lambda>act j. dist (unat (nxfrm act)) (unat (sel_hint act)) j" for h
proof
  fix act j k act'
  assume a: "rr_inv act" "active act j" "dp_sel_nat_ep h act = (k, act')"
  let ?m = "unat (nxfrm act)"
  have i: "nat_ok act" "sel_type act = NAT_LB_SEL_RR" using a(1) by (simp_all add: rr_inv_def)
  obtain k' hint where s: "k = int k'" "act' = act\<lparr>sel_hint := hint\<rparr>" "active act k'" "unat hint = Suc k' mod ?m"
      "dist ?m (unat (sel_hint act)) k' \<le> dist ?m (unat (sel_hint act)) j"
    using sel_ep_finds [OF i a(2), of h] a(3) by auto
  have m: "k' < ?m" "j < ?m" "unat (sel_hint act) < ?m" using s(3) a(2) i(1) by (auto simp: active_def nat_ok_def)
  then have "unat hint < ?m" using s(4) by simp
  then show "rr_inv act' \<and> active act' j"
    using i a(2) nat_ok_hint unfolding s(2) rr_inv_def by (simp add: active_def)
  assume "k \<noteq> int j"
  then have "k' \<noteq> j" using s(1) by simp
  then have "dist ?m (Suc k' mod ?m) j < dist ?m (unat (sel_hint act)) j"
    using m s(5) by (cases "Suc k' = ?m") (auto simp: dist_def split: if_splits)
  then show "dist (unat (nxfrm act')) (unat (sel_hint act')) j < dist ?m (unat (sel_hint act)) j"
    unfolding s(2) by (simp add: s(4))
qed

text \<open>Round robin chooses well: with at least one active endpoint \<open>dp_sel_nat_ep\<close> returns an active one,
  the nearest from the hint on, moves the hint just behind it and keeps the service well-formed; with none
  it returns -1 and changes nothing.\<close>

theorem nat_rr_selects:
  assumes "nat_ok act" and "sel_type act = NAT_LB_SEL_RR" and "dp_sel_nat_ep h act = (s, act')"
  shows "(if \<exists>j. active act j
     then \<exists>k. s = int k \<and> active act k \<and> unat (sel_hint act') = Suc k mod unat (nxfrm act) \<and> nat_ok act' \<and>
       (\<forall>j. active act j \<longrightarrow> dist (unat (nxfrm act)) (unat (sel_hint act)) k \<le> dist (unat (nxfrm act)) (unat (sel_hint act)) j)
     else s = -1 \<and> act' = act)"
proof (cases "\<exists>j. active act j")
  case True
  then obtain j where j: "active act j" by blast
  from sel_ep_finds [OF assms(1,2) j, of h] obtain k hint where k: "s = int k" "act' = act\<lparr>sel_hint := hint\<rparr>"
    "active act k" "unat hint = Suc k mod unat (nxfrm act)" using assms(3) by auto
  have "dist (unat (nxfrm act)) (unat (sel_hint act)) k \<le> dist (unat (nxfrm act)) (unat (sel_hint act)) i"
    if "active act i" for i
    using sel_ep_finds [OF assms(1,2) that, of h] assms(3) k(1) by auto
  moreover have "nat_ok act'" using k assms(1) nat_ok_hint by (simp add: active_def)
  ultimately show ?thesis using True k by auto
next
  case False
  then show ?thesis using sel_ep_none [OF assms(1,2)] assms(3) by simp
qed

text \<open>C20: Round robin is fair: every active endpoint is chosen at least once in any row of as many selections as
  the service has endpoints.\<close>

theorem nat_rr_fair:
  assumes "nat_ok act" and "sel_type act = NAT_LB_SEL_RR" and "active act j"
  shows "int j \<in> set (rr.picks h (unat (nxfrm act)) act)"
proof (rule rr.picked)
  show "rr_inv act" "active act j" using assms by (simp_all add: rr_inv_def)
  show "dist (unat (nxfrm act)) (unat (sel_hint act)) j < unat (nxfrm act)"
    using assms dist_less by (simp add: nat_ok_def active_def)
qed

definition svc0 :: dp_nat_tacts where
  "svc0 = \<lparr>nt_ca = cmn_act0\<lparr>act_type := DP_SET_DNAT\<rparr>, nt_ito = 0, nxfrm = 3, sel_hint = 1, sel_type = NAT_LB_SEL_RR,
     nxfrms = xfrm0 # xfrm0\<lparr>inactive := 1\<rparr> # replicate 14 xfrm0\<rparr>"

lemma svc0_ok: "nat_ok svc0" "sel_type svc0 = NAT_LB_SEL_RR" "active svc0 0" "active svc0 2"
  by (simp_all add: nat_ok_def svc0_def LLB_MAX_NXFRMS_def active_def xfrm0_def)

theorem nat_rr_selects_witness: "\<exists>k. fst (dp_sel_nat_ep 0 svc0) = int k \<and> active svc0 k"
  using nat_rr_selects [OF svc0_ok(1,2), of 0] svc0_ok(3) by (metis surjective_pairing)

theorem nat_rr_fair_witness: "int 0 \<in> set (rr.picks 0 3 svc0)"
  using nat_rr_fair [OF svc0_ok(1-3), of 0] by (simp add: svc0_def)

text \<open>What \<open>dp_do_nat\<close> does with a packet to a round-robin service: if an endpoint is active the packet gets
  the address, port and index of an active endpoint and the direction of the translation, except that a
  packet from the endpoint itself gets the address 0; if none is active the packet is not translated and the
  service stays as it is.\<close>

theorem dp_do_nat_endpoint:
  assumes "nat_map (nat_key xf) = Some act" and "act_type (nt_ca act) \<in> {DP_SET_SNAT, DP_SET_DNAT}"
    and "nat_ok act" and "sel_type act = NAT_LB_SEL_RR" and "dp_do_nat h xf nat_map = (r, xf', nat_map')"
  shows "r = 1 \<and> pm_pipe_act (pm xf') = pm_pipe_act (pm xf) \<and>
    (if \<exists>j. active act j
     then \<exists>k. active act k \<and> nm_nxport (nm xf') = nat_xport (nxfrms act ! k) \<and> nm_sel_aid (nm xf') = of_nat k \<and>
       pm_nf (pm xf') = (if act_type (nt_ca act) = DP_SET_SNAT then LLB_NAT_SRC else LLB_NAT_DST) \<and>
       nm_nxip (nm xf') =
         (if addr4 (l34_saddr (l34m xf)) = addr4 (nat_xip (nxfrms act ! k)) \<and> act_type (nt_ca act) = DP_SET_DNAT
          then set_addr4 0 (nat_xip (nxfrms act ! k)) else nat_xip (nxfrms act ! k))
     else pm_nf (pm xf') = 0 \<and> nat_map' = nat_map)"
proof (cases "\<exists>j. active act j")
  case True
  then obtain k hint where k: "dp_sel_nat_ep h act = (int k, act\<lparr>sel_hint := hint\<rparr>)" "active act k"
    using sel_ep_finds [OF assms(3,4), of _ h] by blast
  have "k < 16" using k(2) assms(3) by (simp add: active_def nat_ok_def LLB_MAX_NXFRMS_def)
  then have u: "unat (of_nat k :: u32) = k" "(of_nat k :: u32) < of_nat LLB_MAX_NXFRMS" "(word_of_int (int k) :: u32) = of_nat k"
    by (simp_all add: unat_of_nat word_less_nat_alt LLB_MAX_NXFRMS_def)
  have "(ucast (of_nat k :: u32) :: u8) = of_nat k" using \<open>k < 16\<close> by (simp add: word_unat_eq_iff unat_ucast_mod unat_of_nat)
  then show ?thesis using True k(2) assms(2,5)
    by (intro conjI) (auto simp: dp_do_nat_def assms(1) k(1) u Let_def set_ep_def dp_set_defs nat_flag_defs
        intro!: exI [of _ k] split: if_splits)
next
  case False
  have m: "nat_map(nat_key xf \<mapsto> act) = nat_map" using assms(1) by auto
  have "\<not> (- 1 :: u32) < of_nat LLB_MAX_NXFRMS" by (simp add: LLB_MAX_NXFRMS_def)
  then show ?thesis using False assms(2,5)
    by (auto simp: dp_do_nat_def assms(1) sel_ep_none [OF assms(3,4) False] Let_def m)
qed

definition xf_tcp :: xfi where
  "xf_tcp = xfi0\<lparr>l34m := (l34m xfi0)\<lparr>nw_proto := IPPROTO_TCP, l34_dest := 80\<rparr>\<rparr>"

theorem dp_do_nat_endpoint_witness:
  "pm_nf (pm (fst (snd (dp_do_nat 0 xf_tcp [nat_key xf_tcp \<mapsto> svc0])))) = LLB_NAT_DST"
proof -
  have "act_type (nt_ca svc0) = DP_SET_DNAT" "DP_SET_DNAT \<noteq> DP_SET_SNAT"
    by (simp_all add: svc0_def dp_set_defs)
  then show ?thesis
    using dp_do_nat_endpoint [of "[nat_key xf_tcp \<mapsto> svc0]" xf_tcp svc0 0
        "fst (dp_do_nat 0 xf_tcp [nat_key xf_tcp \<mapsto> svc0])" "fst (snd (dp_do_nat 0 xf_tcp [nat_key xf_tcp \<mapsto> svc0]))"
        "snd (snd (dp_do_nat 0 xf_tcp [nat_key xf_tcp \<mapsto> svc0]))"] svc0_ok
    by (auto split: if_splits)
qed

text \<open>The fallback of the hash selection looks at all sixteen slots and not only at those in use: with both
  endpoints of a service of two down it returns the first unused slot, which has the address 0.\<close>

lemma nat_hash_unused_slot:
  "fst (dp_sel_nat_ep 0 (svc0\<lparr>sel_type := NAT_LB_SEL_HASH, nxfrm := 2,
     nxfrms := replicate 2 (xfrm0\<lparr>inactive := 1\<rparr>) @ replicate 14 xfrm0\<rparr>)) = 2"
  by (simp add: dp_sel_nat_ep_def NAT_LB_SEL_RR_def NAT_LB_SEL_HASH_def LLB_MAX_NXFRMS_def xfrm0_def numeral_eq_Suc)

end
