(* ===== verification/Loxi_Ct.thy ===== *)
theory Loxi_Ct
  imports Loxi_State
begin

text \<open>
  Connection tracking of loxilb, \<open>llb_kern_ct.c\<close>: the key of the reverse direction under address
  translation, one state machine per protocol, and \<open>dp_ct_in\<close>, which creates, advances and deletes the two
  entries of a connection.

  A pointer to an entry is the key it is stored under, so that the two pointers of \<open>dp_ct_in\<close> alias exactly
  when the keys are equal.  The members of the union in \<open>ct_pinf_t\<close> are separate fields here;
  \<open>Loxi_Ct_Inv\<close> shows that an entry never uses a member of another protocol.
\<close>

section \<open>Data\<close>

datatype ct_dir = CT_DIR_IN | CT_DIR_OUT

fun other_dir :: "ct_dir \<Rightarrow> ct_dir" where
  "other_dir CT_DIR_IN = CT_DIR_OUT"
| "other_dir CT_DIR_OUT = CT_DIR_IN"

definition CT_SMR_ERR :: int where "CT_SMR_ERR = -1"
definition CT_SMR_INPROG :: int where "CT_SMR_INPROG = 0"
definition CT_SMR_EST :: int where "CT_SMR_EST = 1"
definition CT_SMR_UEST :: int where "CT_SMR_UEST = 2"
definition CT_SMR_FIN :: int where "CT_SMR_FIN = 3"
definition CT_SMR_CTD :: int where "CT_SMR_CTD = 4"
definition CT_SMR_UNT :: int where "CT_SMR_UNT = 100"
definition CT_SMR_INIT :: int where "CT_SMR_INIT = 200"

lemmas smr_defs = CT_SMR_ERR_def CT_SMR_INPROG_def CT_SMR_EST_def CT_SMR_UEST_def CT_SMR_FIN_def
  CT_SMR_CTD_def CT_SMR_UNT_def CT_SMR_INIT_def

definition CT_TCP_CLOSED :: u32 where "CT_TCP_CLOSED = 0x0"
definition CT_TCP_SS :: u32 where "CT_TCP_SS = 0x1"
definition CT_TCP_SA :: u32 where "CT_TCP_SA = 0x2"
definition CT_TCP_EST :: u32 where "CT_TCP_EST = 0x4"
definition CT_TCP_FINI :: u32 where "CT_TCP_FINI = 0x10"
definition CT_TCP_FINI2 :: u32 where "CT_TCP_FINI2 = 0x20"
definition CT_TCP_FINI3 :: u32 where "CT_TCP_FINI3 = 0x40"
definition CT_TCP_CW :: u32 where "CT_TCP_CW = 0x80"
definition CT_TCP_ERR :: u32 where "CT_TCP_ERR = 0x100"
definition CT_TCP_FIN_MASK :: u32 where
  "CT_TCP_FIN_MASK = CT_TCP_FINI OR CT_TCP_FINI2 OR CT_TCP_FINI3 OR CT_TCP_CW"
definition CT_TCP_INIT_ACK_THRESHOLD :: u16 where "CT_TCP_INIT_ACK_THRESHOLD = 3"

lemmas tcp_state_defs = CT_TCP_CLOSED_def CT_TCP_SS_def CT_TCP_SA_def CT_TCP_EST_def CT_TCP_FINI_def
  CT_TCP_FINI2_def CT_TCP_FINI3_def CT_TCP_CW_def CT_TCP_ERR_def

record ct_tcp_pinfd =
  init_acks :: u16
  seq :: u32
  pack :: u32
  pseq :: u32

record ct_tcp_pinf =
  t_state :: u32
  t_fndir :: ct_dir
  tcp_cts :: "ct_dir \<Rightarrow> ct_tcp_pinfd"

definition CT_UDP_CNI :: u16 where "CT_UDP_CNI = 0x0"
definition CT_UDP_UEST :: u16 where "CT_UDP_UEST = 0x1"
definition CT_UDP_EST :: u16 where "CT_UDP_EST = 0x2"
definition CT_UDP_CONN_THRESHOLD :: u16 where "CT_UDP_CONN_THRESHOLD = 4"

lemmas udp_state_defs = CT_UDP_CNI_def CT_UDP_UEST_def CT_UDP_EST_def

record ct_udp_pinf =
  u_state :: u16
  pkts_seen :: u16
  rpkts_seen :: u16

definition CT_ICMP_CLOSED :: u8 where "CT_ICMP_CLOSED = 0x0"
definition CT_ICMP_REQS :: u8 where "CT_ICMP_REQS = 0x1"
definition CT_ICMP_REPS :: u8 where "CT_ICMP_REPS = 0x2"
definition CT_ICMP_DUNR :: u8 where "CT_ICMP_DUNR = 0x8"
definition CT_ICMP_TTL :: u8 where "CT_ICMP_TTL = 0x10"
definition CT_ICMP_RDR :: u8 where "CT_ICMP_RDR = 0x20"
definition CT_ICMP_UNK :: u8 where "CT_ICMP_UNK = 0x40"

lemmas icmp_state_defs = CT_ICMP_CLOSED_def CT_ICMP_REQS_def CT_ICMP_REPS_def CT_ICMP_DUNR_def CT_ICMP_TTL_def
  CT_ICMP_RDR_def CT_ICMP_UNK_def

record ct_icmp_pinf =
  i_state :: u8
  i_errs :: u8
  lseq :: u16

definition CT_SCTP_CLOSED :: u32 where "CT_SCTP_CLOSED = 0x0"
definition CT_SCTP_INIT :: u32 where "CT_SCTP_INIT = 0x1"
definition CT_SCTP_INITA :: u32 where "CT_SCTP_INITA = 0x2"
definition CT_SCTP_COOKIE :: u32 where "CT_SCTP_COOKIE = 0x4"
definition CT_SCTP_COOKIEA :: u32 where "CT_SCTP_COOKIEA = 0x10"
definition CT_SCTP_EST :: u32 where "CT_SCTP_EST = 0x10"
definition CT_SCTP_SHUT :: u32 where "CT_SCTP_SHUT = 0x20"
definition CT_SCTP_SHUTA :: u32 where "CT_SCTP_SHUTA = 0x40"
definition CT_SCTP_SHUTC :: u32 where "CT_SCTP_SHUTC = 0x80"
definition CT_SCTP_ERR :: u32 where "CT_SCTP_ERR = 0x100"
definition CT_SCTP_ABRT :: u32 where "CT_SCTP_ABRT = 0x200"
definition CT_SCTP_FIN_MASK :: u32 where
  "CT_SCTP_FIN_MASK = CT_SCTP_SHUT OR CT_SCTP_SHUTA OR CT_SCTP_SHUTC OR CT_SCTP_ABRT"

lemmas sctp_state_defs = CT_SCTP_CLOSED_def CT_SCTP_INIT_def CT_SCTP_INITA_def CT_SCTP_COOKIE_def
  CT_SCTP_COOKIEA_def CT_SCTP_EST_def CT_SCTP_SHUT_def CT_SCTP_SHUTA_def CT_SCTP_SHUTC_def CT_SCTP_ERR_def
  CT_SCTP_ABRT_def

definition SCTP_INIT_CHUNK :: u8 where "SCTP_INIT_CHUNK = 1"
definition SCTP_INIT_CHUNK_ACK :: u8 where "SCTP_INIT_CHUNK_ACK = 2"
definition SCTP_ABORT :: u8 where "SCTP_ABORT = 6"
definition SCTP_SHUT :: u8 where "SCTP_SHUT = 7"
definition SCTP_SHUT_ACK :: u8 where "SCTP_SHUT_ACK = 8"
definition SCTP_ERROR :: u8 where "SCTP_ERROR = 9"
definition SCTP_COOKIE_ECHO :: u8 where "SCTP_COOKIE_ECHO = 10"
definition SCTP_COOKIE_ACK :: u8 where "SCTP_COOKIE_ACK = 11"
definition SCTP_SHUT_COMPLETE :: u8 where "SCTP_SHUT_COMPLETE = 14"

lemmas sctp_chunk_defs = SCTP_INIT_CHUNK_def SCTP_INIT_CHUNK_ACK_def SCTP_ABORT_def SCTP_SHUT_def SCTP_SHUT_ACK_def
  SCTP_ERROR_def SCTP_COOKIE_ECHO_def SCTP_COOKIE_ACK_def SCTP_SHUT_COMPLETE_def

record ct_sctp_pinf =
  s_state :: u32
  itag :: u32
  otag :: u32
  cookie :: u32

record ct_pinf =
  pi_t :: ct_tcp_pinf
  pi_u :: ct_udp_pinf
  pi_i :: ct_icmp_pinf
  pi_s :: ct_sctp_pinf
  frag :: u32
  l3i :: u32

record dp_pb_stats =
  pb_bytes :: u64
  pb_packets :: u64

record dp_ct_dat =
  ctd_rid :: u32
  ctd_aid :: u32
  pi :: ct_pinf
  ctd_dir :: ct_dir
  ctd_smr :: int
  ctd_xi :: mf_xfrm_inf
  pb :: dp_pb_stats

record dp_ct_tact =
  ca :: dp_cmn_act
  ctd :: dp_ct_dat
  ito :: u64
  lts :: u64
  nat_act :: dp_nat_act

record dp_ct_key =
  daddr :: xaddr
  saddr :: xaddr
  ct_sport :: u16
  ct_dport :: u16
  zone :: u16
  l4proto :: u8
  v6 :: u8

record dp_ct_ctrtact =
  ctr_start :: u32
  ctr_counter :: u32
  ctr_entries :: u32

type_synonym ct_map = "dp_ct_key \<rightharpoonup> dp_ct_tact"

record ct_state =
  ct_map :: ct_map
  ct_ctr :: "u32 \<rightharpoonup> dp_ct_ctrtact"
  xctk :: "int \<rightharpoonup> dp_ct_tact"

text \<open>Zeroed memory.\<close>

definition pinfd0 :: ct_tcp_pinfd where "pinfd0 = \<lparr>init_acks = 0, seq = 0, pack = 0, pseq = 0\<rparr>"
definition tcp0 :: ct_tcp_pinf where "tcp0 = \<lparr>t_state = 0, t_fndir = CT_DIR_IN, tcp_cts = (\<lambda>_. pinfd0)\<rparr>"
definition udp0 :: ct_udp_pinf where "udp0 = \<lparr>u_state = 0, pkts_seen = 0, rpkts_seen = 0\<rparr>"
definition icmp0 :: ct_icmp_pinf where "icmp0 = \<lparr>i_state = 0, i_errs = 0, lseq = 0\<rparr>"
definition sctp0 :: ct_sctp_pinf where "sctp0 = \<lparr>s_state = 0, itag = 0, otag = 0, cookie = 0\<rparr>"
definition pinf0 :: ct_pinf where "pinf0 = \<lparr>pi_t = tcp0, pi_u = udp0, pi_i = icmp0, pi_s = sctp0, frag = 0, l3i = 0\<rparr>"

definition tact0 :: dp_ct_tact where
  "tact0 = \<lparr>ca = cmn_act0,
     ctd = \<lparr>ctd_rid = 0, ctd_aid = 0, pi = pinf0, ctd_dir = CT_DIR_IN, ctd_smr = 0, ctd_xi = xfrm0,
            pb = \<lparr>pb_bytes = 0, pb_packets = 0\<rparr>\<rparr>,
     ito = 0, lts = 0,
     nat_act = \<lparr>na_xip = XADDR0, na_rip = XADDR0, na_xport = 0, na_fr = 0, na_doct = 0, na_rid = 0, na_aid = 0,
                na_nv6 = 0, na_dsr = 0\<rparr>\<rparr>"

section \<open>Access through a pointer\<close>

text \<open>Reading and writing the entry a pointer points to; a write through a pointer that is not in the map
  does nothing (the code never does it).\<close>

definition ct_at :: "ct_map \<Rightarrow> dp_ct_key \<Rightarrow> dp_ct_tact" where
  "ct_at m k = (case m k of Some a \<Rightarrow> a | None \<Rightarrow> tact0)"

definition ct_mod :: "dp_ct_key \<Rightarrow> (dp_ct_tact \<Rightarrow> dp_ct_tact) \<Rightarrow> ct_map \<Rightarrow> ct_map" where
  "ct_mod k f m = (case m k of Some a \<Rightarrow> m(k \<mapsto> f a) | None \<Rightarrow> m)"

definition on_ctd :: "(dp_ct_dat \<Rightarrow> dp_ct_dat) \<Rightarrow> dp_ct_tact \<Rightarrow> dp_ct_tact" where
  "on_ctd f a = a\<lparr>ctd := f (ctd a)\<rparr>"

definition on_pi :: "(ct_pinf \<Rightarrow> ct_pinf) \<Rightarrow> dp_ct_tact \<Rightarrow> dp_ct_tact" where
  "on_pi f = on_ctd (\<lambda>d. d\<lparr>pi := f (pi d)\<rparr>)"

definition on_t :: "(ct_tcp_pinf \<Rightarrow> ct_tcp_pinf) \<Rightarrow> dp_ct_tact \<Rightarrow> dp_ct_tact" where
  "on_t f = on_pi (\<lambda>p. p\<lparr>pi_t := f (pi_t p)\<rparr>)"

definition on_u :: "(ct_udp_pinf \<Rightarrow> ct_udp_pinf) \<Rightarrow> dp_ct_tact \<Rightarrow> dp_ct_tact" where
  "on_u f = on_pi (\<lambda>p. p\<lparr>pi_u := f (pi_u p)\<rparr>)"

definition on_i :: "(ct_icmp_pinf \<Rightarrow> ct_icmp_pinf) \<Rightarrow> dp_ct_tact \<Rightarrow> dp_ct_tact" where
  "on_i f = on_pi (\<lambda>p. p\<lparr>pi_i := f (pi_i p)\<rparr>)"

definition on_s :: "(ct_sctp_pinf \<Rightarrow> ct_sctp_pinf) \<Rightarrow> dp_ct_tact \<Rightarrow> dp_ct_tact" where
  "on_s f = on_pi (\<lambda>p. p\<lparr>pi_s := f (pi_s p)\<rparr>)"

definition on_cts :: "ct_dir \<Rightarrow> (ct_tcp_pinfd \<Rightarrow> ct_tcp_pinfd) \<Rightarrow> ct_tcp_pinf \<Rightarrow> ct_tcp_pinf" where
  "on_cts d f t = t\<lparr>tcp_cts := (tcp_cts t)(d := f (tcp_cts t d))\<rparr>"

definition count_pb :: "u16 \<Rightarrow> dp_ct_tact \<Rightarrow> dp_ct_tact" where
  "count_pb n = on_ctd (\<lambda>d. d\<lparr>pb := \<lparr>pb_bytes = pb_bytes (pb d) + ucast n, pb_packets = pb_packets (pb d) + 1\<rparr>\<rparr>)"

lemmas on_defs = on_ctd_def on_pi_def on_t_def on_u_def on_i_def on_s_def on_cts_def count_pb_def

section \<open>Counters\<close>

definition dp_ct_get_newctr :: "ct_state \<Rightarrow> u32 \<times> ct_state" where
  "dp_ct_get_newctr s = (case ct_ctr s 0 of
     None \<Rightarrow> (0, s)
   | Some ctr \<Rightarrow>
       (let c = ctr_counter ctr + 2;
            ctr' = ctr\<lparr>ctr_counter := (if c \<ge> ctr_entries ctr then ctr_start ctr else c)\<rparr>
        in (ctr_counter ctr, s\<lparr>ct_ctr := (ct_ctr s)(0 \<mapsto> ctr')\<rparr>)))"

section \<open>The key of the reverse direction\<close>

text \<open>\<open>xi\<close> says how the packet is translated, \<open>xxi\<close> how a reply is.  Each step of the code
  changes the triple of reverse key, \<open>xi\<close> and \<open>xxi\<close>.\<close>

type_synonym xfk = "dp_ct_key \<times> mf_xfrm_inf \<times> mf_xfrm_inf"

definition xfk_swap :: "dp_ct_key \<Rightarrow> dp_ct_key" where
  "xfk_swap key = \<lparr>daddr = saddr key, saddr = daddr key, ct_sport = ct_dport key, ct_dport = ct_sport key,
     zone = zone key, l4proto = l4proto key, v6 = v6 key\<rparr>"

definition xfk_dsr :: "dp_ct_key \<Rightarrow> xfk \<Rightarrow> xfk" where
  "xfk_dsr key = (\<lambda>(xkey, xi, xxi).
     let xxi = (if nat_flags xi AND LLB_NAT_DST \<noteq> 0
                then xxi\<lparr>nat_flags := LLB_NAT_SRC, nat_xip := daddr key, nat_xport := ct_dport key, nv6 := nv6 xi\<rparr>
                else xxi)
     in (xkey, xi, xxi\<lparr>dsr := dsr xi\<rparr>))"

definition xfk_dst :: "dp_ct_key \<Rightarrow> xfk \<Rightarrow> xfk" where
  "xfk_dst key = (\<lambda>(xkey, xi, xxi).
     let xkey = xkey\<lparr>v6 := nv6 xi, saddr := nat_xip xi\<rparr>;
         (xkey, xxi) = (if \<not> DP_XADDR_ISZR (nat_rip xi)
                        then (xkey\<lparr>daddr := nat_rip xi\<rparr>, xxi\<lparr>nat_rip := saddr key\<rparr>) else (xkey, xxi));
         (xkey, xi) = (if l4proto key \<noteq> IPPROTO_ICMP then
                         (if nat_xport xi \<noteq> 0 then (xkey\<lparr>ct_sport := nat_xport xi\<rparr>, xi)
                          else (xkey, xi\<lparr>nat_xport := ct_dport key\<rparr>))
                       else (xkey, xi));
         xxi = xxi\<lparr>nat_flags := LLB_NAT_SRC, nv6 := v6 key, nat_xip := daddr key\<rparr>;
         xxi = (if l4proto key \<noteq> IPPROTO_ICMP then xxi\<lparr>nat_xport := ct_dport key\<rparr> else xxi)
     in (xkey, xi, xxi))"

definition xfk_src :: "dp_ct_key \<Rightarrow> xfk \<Rightarrow> xfk" where
  "xfk_src key = (\<lambda>(xkey, xi, xxi).
     let xkey = xkey\<lparr>v6 := nv6 xi, daddr := nat_xip xi\<rparr>;
         (xkey, xxi) = (if \<not> DP_XADDR_ISZR (nat_rip xi)
                        then (xkey\<lparr>saddr := nat_rip xi\<rparr>, xxi\<lparr>nat_rip := daddr key\<rparr>) else (xkey, xxi));
         (xkey, xi) = (if l4proto key \<noteq> IPPROTO_ICMP then
                         (if nat_xport xi \<noteq> 0 then (xkey\<lparr>ct_dport := nat_xport xi\<rparr>, xi)
                          else (xkey, xi\<lparr>nat_xport := ct_sport key\<rparr>))
                       else (xkey, xi));
         xxi = xxi\<lparr>nat_flags := LLB_NAT_DST, nv6 := v6 key, nat_xip := saddr key\<rparr>;
         xxi = (if l4proto key \<noteq> IPPROTO_ICMP then xxi\<lparr>nat_xport := ct_sport key\<rparr> else xxi)
     in (xkey, xi, xxi))"

definition xfk_hdst :: "dp_ct_key \<Rightarrow> xfk \<Rightarrow> xfk" where
  "xfk_hdst key = (\<lambda>(xkey, xi, xxi).
     let xkey = xkey\<lparr>saddr := saddr key, daddr := daddr key\<rparr>;
         (xkey, xi) = (if l4proto key \<noteq> IPPROTO_ICMP then
                         (if nat_xport xi \<noteq> 0 then (xkey\<lparr>ct_sport := nat_xport xi\<rparr>, xi)
                          else (xkey, xi\<lparr>nat_xport := ct_dport key\<rparr>))
                       else (xkey, xi));
         xxi = xxi\<lparr>nat_flags := LLB_NAT_HSRC, nv6 := v6 key, nat_xip := XADDR0\<rparr>;
         xi = xi\<lparr>nat_xip := XADDR0\<rparr>;
         xxi = (if l4proto key \<noteq> IPPROTO_ICMP then xxi\<lparr>nat_xport := ct_dport key\<rparr> else xxi)
     in (xkey, xi, xxi))"

definition xfk_hsrc :: "dp_ct_key \<Rightarrow> xfk \<Rightarrow> xfk" where
  "xfk_hsrc key = (\<lambda>(xkey, xi, xxi).
     let xkey = xkey\<lparr>saddr := saddr key, daddr := daddr key\<rparr>;
         (xkey, xi) = (if l4proto key \<noteq> IPPROTO_ICMP then
                         (if nat_xport xi \<noteq> 0 then (xkey\<lparr>ct_dport := nat_xport xi\<rparr>, xi)
                          else (xkey, xi\<lparr>nat_xport := ct_sport key\<rparr>))
                       else (xkey, xi));
         xxi = xxi\<lparr>nat_flags := LLB_NAT_HDST, nv6 := v6 key, nat_xip := XADDR0\<rparr>;
         xi = xi\<lparr>nat_xip := XADDR0\<rparr>;
         xxi = (if l4proto key \<noteq> IPPROTO_ICMP then xxi\<lparr>nat_xport := ct_sport key\<rparr> else xxi)
     in (xkey, xi, xxi))"

definition on_flag :: "u8 \<Rightarrow> (xfk \<Rightarrow> xfk) \<Rightarrow> xfk \<Rightarrow> xfk" where
  "on_flag fl f x = (if nat_flags (fst (snd x)) AND fl \<noteq> 0 then f x else x)"

definition dp_ct_proto_xfk_init :: "dp_ct_key \<Rightarrow> mf_xfrm_inf \<Rightarrow> mf_xfrm_inf \<Rightarrow> xfk" where
  "dp_ct_proto_xfk_init key xi xxi = (
     let x = (xfk_swap key, xi, xxi)
     in if dsr xi \<noteq> 0 then xfk_dsr key x
        else on_flag LLB_NAT_HSRC (xfk_hsrc key) (on_flag LLB_NAT_HDST (xfk_hdst key)
               (on_flag LLB_NAT_SRC (xfk_src key) (on_flag LLB_NAT_DST (xfk_dst key) x))))"

section \<open>The generic state machine\<close>

definition CT_STATE_NONE :: u32 where "CT_STATE_NONE = 0x0"
definition CT_STATE_REQ :: u32 where "CT_STATE_REQ = 0x1"
definition CT_STATE_REP :: u32 where "CT_STATE_REP = 0x2"
definition CT_STATE_EST :: u32 where "CT_STATE_EST = 0x4"

definition dp_ct3_sm :: "dp_ct_dat \<Rightarrow> ct_dir \<Rightarrow> int \<times> dp_ct_dat" where
  "dp_ct3_sm tdat dir = (
     let st = l3i (pi tdat);
         done = (\<lambda>n. (if n = CT_STATE_EST then 1 else 0, tdat\<lparr>pi := (pi tdat)\<lparr>l3i := n\<rparr>\<rparr>))
     in if st = CT_STATE_NONE then (if dir = CT_DIR_IN then done CT_STATE_REQ else (-1, tdat))
        else if st = CT_STATE_REQ then done (if dir = CT_DIR_OUT then CT_STATE_REP else st)
        else if st = CT_STATE_REP then done (if dir = CT_DIR_IN then CT_STATE_EST else st)
        else done st)"

section \<open>TCP\<close>

text \<open>The switch over the states: the entry with the sequence numbers and counters it records, and the next
  state.  \<open>td\<close> is the sending side, \<open>rtd\<close> the other.\<close>

definition tcp_switch ::
  "u8 \<Rightarrow> u32 \<Rightarrow> u32 \<Rightarrow> ct_dir \<Rightarrow> bool \<Rightarrow> ct_tcp_pinf \<Rightarrow> ct_tcp_pinf \<times> u32" where
  "tcp_switch tcp_flags sq ack dir is_dsr ts = (
     let td = tcp_cts ts dir;
         rtd = tcp_cts ts (other_dir dir);
         has = (\<lambda>fl. tcp_flags AND fl \<noteq> 0);
         has_all = (\<lambda>fl. tcp_flags AND fl = fl);
         seen = on_cts dir (\<lambda>d. d\<lparr>seq := sq\<rparr>) ts
     in if has LLB_TCP_RST then (ts, CT_TCP_CW)
        else if t_state ts = CT_TCP_CLOSED then
          (if is_dsr then (ts, CT_TCP_EST)
           else if has LLB_TCP_ACK then
             (if init_acks td \<noteq> 0 \<and> ack > seq rtd + 2 then (seen, CT_TCP_ERR)
              else (let ts' = on_cts dir (\<lambda>d. d\<lparr>init_acks := init_acks d + 1\<rparr>) seen
                    in if init_acks (tcp_cts ts' dir) \<ge> CT_TCP_INIT_ACK_THRESHOLD \<and>
                          init_acks rtd \<ge> CT_TCP_INIT_ACK_THRESHOLD
                       then (ts', CT_TCP_EST) else (ts', CT_TCP_ERR)))
           else if \<not> has_all LLB_TCP_SYN then (ts, CT_TCP_ERR)
           else if ack \<noteq> 0 \<and> dir \<noteq> CT_DIR_IN then (ts, CT_TCP_ERR)
           else (seen, CT_TCP_SS))
        else if t_state ts = CT_TCP_SS then
          (if dir \<noteq> CT_DIR_OUT then
             (if has_all LLB_TCP_SYN then (seen, CT_TCP_SS) else (ts, CT_TCP_ERR))
           else if \<not> has_all (LLB_TCP_SYN OR LLB_TCP_ACK) then (ts, CT_TCP_ERR)
           else if ack \<noteq> seq rtd + 1 then (ts, CT_TCP_ERR)
           else (seen, CT_TCP_SA))
        else if t_state ts = CT_TCP_SA then
          (if dir \<noteq> CT_DIR_IN then
             (if \<not> has_all (LLB_TCP_SYN OR LLB_TCP_ACK) then (ts, CT_TCP_ERR)
              else if ack \<noteq> seq rtd + 1 then (ts, CT_TCP_ERR)
              else (ts, CT_TCP_SA))
           else if has_all LLB_TCP_SYN then (seen, CT_TCP_SS)
           else if \<not> has_all LLB_TCP_ACK then (ts, CT_TCP_ERR)
           else if ack \<noteq> seq rtd + 1 then (ts, CT_TCP_ERR)
           else (seen, CT_TCP_EST))
        else if t_state ts = CT_TCP_EST then
          (if has LLB_TCP_FIN then (on_cts dir (\<lambda>d. d\<lparr>seq := sq\<rparr>) (ts\<lparr>t_fndir := dir\<rparr>), CT_TCP_FINI)
           else (ts, CT_TCP_EST))
        else if t_state ts = CT_TCP_FINI then
          (if t_fndir ts \<noteq> dir then
             (if has_all (LLB_TCP_FIN OR LLB_TCP_ACK) then
                (if ack \<noteq> seq rtd + 1 then (ts, CT_TCP_ERR) else (seen, CT_TCP_FINI3))
              else if has LLB_TCP_ACK then
                (if ack \<noteq> seq rtd + 1 then (ts, CT_TCP_ERR) else (seen, CT_TCP_FINI2))
              else (ts, 0))
           else (ts, 0))
        else if t_state ts = CT_TCP_FINI2 then
          (if t_fndir ts \<noteq> dir \<and> has LLB_TCP_FIN then (seen, CT_TCP_FINI3) else (ts, 0))
        else if t_state ts = CT_TCP_FINI3 then
          (if t_fndir ts = dir \<and> has LLB_TCP_ACK then
             (if ack \<noteq> seq rtd + 1 then (ts, CT_TCP_ERR) else (ts, CT_TCP_CW))
           else (ts, 0))
        else (ts, 0))"

definition tcp_smr :: "u32 \<Rightarrow> int" where
  "tcp_smr nstate = (
     if nstate = CT_TCP_EST then CT_SMR_EST
     else if nstate AND CT_TCP_CW \<noteq> 0 then CT_SMR_CTD
     else if nstate AND CT_TCP_ERR \<noteq> 0 then CT_SMR_ERR
     else if nstate AND CT_TCP_FIN_MASK \<noteq> 0 then CT_SMR_FIN
     else CT_SMR_INPROG)"

definition set_tstate :: "u32 \<Rightarrow> ct_tcp_pinf \<Rightarrow> ct_tcp_pinf" where
  "set_tstate n t = t\<lparr>t_state := n\<rparr>"

text \<open>\<open>at\<close> and \<open>xt\<close> are the pointers to the two entries.\<close>

definition dp_ct_tcp_sm ::
  "packet \<Rightarrow> xfi \<Rightarrow> dp_ct_key \<Rightarrow> dp_ct_key \<Rightarrow> ct_dir \<Rightarrow> ct_map \<Rightarrow> (int \<times> xfi \<times> ct_map) option" where
  "dp_ct_tcp_sm data xf at xt dir m = (
     let t = unat (pm_l4_off (pm xf))
     in if t + 20 > length data then Some (-1, LLBS_PPLN_DROP xf, m)
        else do {
          t_seq \<leftarrow> ld32 data (t + 4);
          t_ack \<leftarrow> ld32 data (t + 8);
          let sq = bswap32 t_seq;
          let ack = bswap32 t_ack;
          let m = ct_mod (if dir = CT_DIR_IN then at else xt)
            (count_pb (pm_l3_len (pm xf)) \<circ> on_t (on_cts CT_DIR_IN (\<lambda>d. d\<lparr>pseq := t_seq, pack := t_ack\<rparr>))) m;
          let (ts, nstate) = tcp_switch (pm_tcp_flags (pm xf)) sq ack dir (nm_dsr (nm xf) \<noteq> 0)
            (pi_t (pi (ctd (ct_at m at))));
          let m = ct_mod at (on_t (\<lambda>_. set_tstate nstate ts)) m;
          let m = ct_mod xt (on_t (set_tstate nstate)) m;
          let m = (if nstate \<noteq> CT_TCP_ERR \<and> dir = CT_DIR_OUT
                   then ct_mod xt (on_t (on_cts CT_DIR_IN (\<lambda>d. d\<lparr>seq := sq\<rparr>))) m else m);
          Some (tcp_smr nstate, xf, m) })"

section \<open>UDP\<close>

definition udp_switch :: "ct_dir \<Rightarrow> bool \<Rightarrow> ct_udp_pinf \<Rightarrow> ct_udp_pinf" where
  "udp_switch dir is_dsr us = (
     let us = (if dir = CT_DIR_IN then us\<lparr>pkts_seen := pkts_seen us + 1\<rparr>
               else us\<lparr>rpkts_seen := rpkts_seen us + 1\<rparr>)
     in if u_state us = CT_UDP_CNI then
          (if is_dsr then us\<lparr>u_state := CT_UDP_EST\<rparr>
           else if pkts_seen us \<noteq> 0 \<and> rpkts_seen us \<noteq> 0 then us\<lparr>u_state := CT_UDP_EST\<rparr>
           else if pkts_seen us > CT_UDP_CONN_THRESHOLD then us\<lparr>u_state := CT_UDP_UEST\<rparr>
           else us)
        else if u_state us = CT_UDP_UEST then
          (if rpkts_seen us \<noteq> 0 then us\<lparr>u_state := CT_UDP_EST\<rparr> else us)
        else us)"

definition udp_smr :: "u16 \<Rightarrow> int" where
  "udp_smr nstate = (if nstate = CT_UDP_UEST then CT_SMR_UEST else if nstate = CT_UDP_EST then CT_SMR_EST
     else CT_SMR_INPROG)"

definition dp_ct_udp_sm ::
  "xfi \<Rightarrow> dp_ct_key \<Rightarrow> dp_ct_key \<Rightarrow> ct_dir \<Rightarrow> ct_map \<Rightarrow> int \<times> xfi \<times> ct_map" where
  "dp_ct_udp_sm xf at xt dir m = (
     let m = ct_mod (if dir = CT_DIR_IN then at else xt) (count_pb (pm_l3_len (pm xf))) m;
         us = udp_switch dir (nm_dsr (nm xf) \<noteq> 0) (pi_u (pi (ctd (ct_at m at))));
         m = ct_mod at (on_u (\<lambda>_. us)) m;
         m = ct_mod xt (on_u (\<lambda>u. u\<lparr>u_state := u_state us\<rparr>)) m
     in (udp_smr (u_state us), xf, m))"

section \<open>ICMP\<close>

text \<open>Both versions differ in the types of the messages only: the pair of request and reply, and the flag an
  error message sets in the state (which the code overwrites at \<open>end\<close>).\<close>

definition icmp_switch ::
  "u8 \<Rightarrow> u8 \<Rightarrow> (u8 \<Rightarrow> u8) \<Rightarrow> u8 \<Rightarrow> u16 \<Rightarrow> bool \<Rightarrow> ct_icmp_pinf \<Rightarrow> ct_icmp_pinf \<times> u8" where
  "icmp_switch request reply err_flag type sq is_dsr is = (
     let nstate = i_state is
     in if type \<noteq> reply \<and> type \<noteq> request then (is\<lparr>i_state := i_state is OR err_flag type\<rparr>, nstate)
        else if i_state is = CT_ICMP_CLOSED then
          (if is_dsr then (is, CT_ICMP_REPS)
           else if type \<noteq> request then (is\<lparr>i_errs := 1\<rparr>, nstate)
           else (is\<lparr>lseq := sq\<rparr>, CT_ICMP_REQS))
        else if i_state is = CT_ICMP_REQS then
          (if type = request then (is\<lparr>lseq := sq\<rparr>, nstate)
           else if lseq is \<noteq> sq then (is\<lparr>i_errs := 1\<rparr>, nstate)
           else (is\<lparr>lseq := sq\<rparr>, CT_ICMP_REPS))
        else (is, nstate))"

definition icmp_err_flag :: "u8 \<Rightarrow> u8" where
  "icmp_err_flag type = (if type = ICMP_DEST_UNREACH then CT_ICMP_DUNR
     else if type = ICMP_TIME_EXCEEDED then CT_ICMP_TTL
     else if type = ICMP_REDIRECT then CT_ICMP_RDR else CT_ICMP_UNK)"

definition icmp6_err_flag :: "u8 \<Rightarrow> u8" where
  "icmp6_err_flag type = (if type = ICMPV6_DEST_UNREACH then CT_ICMP_DUNR
     else if type = ICMPV6_TIME_EXCEED then CT_ICMP_TTL else CT_ICMP_UNK)"

definition icmp_sm ::
  "u8 \<Rightarrow> u8 \<Rightarrow> (u8 \<Rightarrow> u8) \<Rightarrow> packet \<Rightarrow> xfi \<Rightarrow> dp_ct_key \<Rightarrow> dp_ct_key \<Rightarrow> ct_dir \<Rightarrow> ct_map
     \<Rightarrow> (int \<times> xfi \<times> ct_map) option" where
  "icmp_sm request reply err_flag data xf at xt dir m = (
     let i = unat (pm_l4_off (pm xf))
     in if i + 8 > length data then Some (-1, LLBS_PPLN_DROP xf, m)
        else do {
          be_seq \<leftarrow> ld16 data (i + 6);
          type \<leftarrow> ld8 data i;
          let m = ct_mod (if dir = CT_DIR_IN then at else xt) (count_pb (pm_l3_len (pm xf))) m;
          let (is, nstate) = icmp_switch request reply err_flag type (bswap16 be_seq) (nm_dsr (nm xf) \<noteq> 0)
            (pi_i (pi (ctd (ct_at m at))));
          let m = ct_mod at (on_i (\<lambda>_. is\<lparr>i_state := nstate\<rparr>)) m;
          let m = ct_mod xt (on_i (\<lambda>x. x\<lparr>i_state := nstate\<rparr>)) m;
          Some (if nstate = CT_ICMP_REPS then CT_SMR_EST else CT_SMR_INPROG, xf, m) })"

definition dp_ct_icmp_sm ::
  "packet \<Rightarrow> xfi \<Rightarrow> dp_ct_key \<Rightarrow> dp_ct_key \<Rightarrow> ct_dir \<Rightarrow> ct_map \<Rightarrow> (int \<times> xfi \<times> ct_map) option" where
  "dp_ct_icmp_sm = icmp_sm ICMP_ECHO ICMP_ECHOREPLY icmp_err_flag"

definition dp_ct_icmp6_sm ::
  "packet \<Rightarrow> xfi \<Rightarrow> dp_ct_key \<Rightarrow> dp_ct_key \<Rightarrow> ct_dir \<Rightarrow> ct_map \<Rightarrow> (int \<times> xfi \<times> ct_map) option" where
  "dp_ct_icmp6_sm = icmp_sm ICMPV6_ECHO_REQUEST ICMPV6_ECHO_REPLY icmp6_err_flag"

section \<open>SCTP\<close>

text \<open>The switches over the chunk and the state.  \<open>vtag\<close> is the tag of the header, \<open>c\<close> the offset of
  the first chunk; the last component tells whether the packet is dropped because the chunk is cut off.\<close>

definition sctp_switch ::
  "packet \<Rightarrow> u32 \<Rightarrow> nat \<Rightarrow> u8 \<Rightarrow> ct_dir \<Rightarrow> bool \<Rightarrow> ct_sctp_pinf \<Rightarrow> (ct_sctp_pinf \<times> u32 \<times> bool) option" where
  "sctp_switch data vtag c type dir is_dsr ss = (
     let nstate = s_state ss; b = c + 4
     in if type = SCTP_ERROR then Some (ss, CT_SCTP_ERR, False)
        else if type = SCTP_SHUT then Some (ss, CT_SCTP_SHUT, False)
        else if type = SCTP_ABORT then Some (ss, CT_SCTP_ABRT, False)
        else if s_state ss = CT_SCTP_CLOSED then
          (if is_dsr then Some (ss, CT_SCTP_EST, False)
           else if type \<noteq> SCTP_INIT_CHUNK \<and> dir \<noteq> CT_DIR_IN then Some (ss, CT_SCTP_ERR, False)
           else if b + 16 > length data then Some (ss, nstate, True)
           else do { tag \<leftarrow> ld32 data b; Some (ss\<lparr>itag := tag\<rparr>, CT_SCTP_INIT, False) })
        else if s_state ss = CT_SCTP_INIT then
          (if (type \<noteq> SCTP_INIT_CHUNK \<and> dir \<noteq> CT_DIR_IN) \<and> (type \<noteq> SCTP_INIT_CHUNK_ACK \<and> dir \<noteq> CT_DIR_OUT)
           then Some (ss, CT_SCTP_ERR, False)
           else if b + 16 > length data then Some (ss, nstate, True)
           else do {
             tag \<leftarrow> ld32 data b;
             if type = SCTP_INIT_CHUNK then Some (ss\<lparr>itag := tag, otag := 0\<rparr>, CT_SCTP_INIT, False)
             else if vtag \<noteq> itag ss then Some (ss, CT_SCTP_ERR, False)
             else Some (ss\<lparr>otag := tag\<rparr>, CT_SCTP_INITA, False) })
        else if s_state ss = CT_SCTP_INITA then
          (if (type \<noteq> SCTP_INIT_CHUNK \<and> dir \<noteq> CT_DIR_IN) \<and> (type \<noteq> SCTP_COOKIE_ECHO \<and> dir \<noteq> CT_DIR_IN)
           then Some (ss, CT_SCTP_ERR, False)
           else if type = SCTP_INIT_CHUNK then
             (if b + 16 > length data then Some (ss, nstate, True)
              else do { tag \<leftarrow> ld32 data b; Some (ss\<lparr>itag := tag, otag := 0\<rparr>, CT_SCTP_INIT, False) })
           else if b + 4 > length data then Some (ss, nstate, True)
           else if otag ss \<noteq> vtag then Some (ss, CT_SCTP_ERR, False)
           else do { ck \<leftarrow> ld32 data b; Some (ss\<lparr>cookie := ck\<rparr>, CT_SCTP_COOKIE, False) })
        else if s_state ss = CT_SCTP_COOKIE then
          (if type \<noteq> SCTP_COOKIE_ACK \<and> dir \<noteq> CT_DIR_OUT then Some (ss, CT_SCTP_ERR, False)
           else if itag ss \<noteq> vtag then Some (ss, CT_SCTP_ERR, False)
           else Some (ss, CT_SCTP_COOKIEA, False))
        else if s_state ss = CT_SCTP_COOKIEA then Some (ss, CT_SCTP_EST, False)
        else if s_state ss = CT_SCTP_ABRT then Some (ss, CT_SCTP_ABRT, False)
        else if s_state ss = CT_SCTP_SHUT then
          (if type \<noteq> SCTP_SHUT_ACK \<and> dir \<noteq> CT_DIR_OUT then Some (ss, CT_SCTP_ERR, False)
           else Some (ss, CT_SCTP_SHUTA, False))
        else if s_state ss = CT_SCTP_SHUTA then
          (if type \<noteq> SCTP_SHUT_COMPLETE \<and> dir \<noteq> CT_DIR_IN then Some (ss, CT_SCTP_ERR, False)
           else Some (ss, CT_SCTP_SHUTC, False))
        else Some (ss, nstate, False))"

definition sctp_smr :: "u32 \<Rightarrow> int" where
  "sctp_smr nstate = (
     if nstate = CT_SCTP_COOKIEA then CT_SMR_EST
     else if nstate AND CT_SCTP_SHUTC \<noteq> 0 then CT_SMR_CTD
     else if nstate AND CT_SCTP_ERR \<noteq> 0 then CT_SMR_ERR
     else if nstate AND CT_SCTP_FIN_MASK \<noteq> 0 then CT_SMR_FIN
     else CT_SMR_INPROG)"

definition dp_ct_sctp_sm ::
  "packet \<Rightarrow> xfi \<Rightarrow> dp_ct_key \<Rightarrow> dp_ct_key \<Rightarrow> ct_dir \<Rightarrow> ct_map \<Rightarrow> (int \<times> xfi \<times> ct_map) option" where
  "dp_ct_sctp_sm data xf at xt dir m = (
     let s = unat (pm_l4_off (pm xf)); c = s + 12
     in if s + 12 > length data then Some (-1, LLBS_PPLN_DROP xf, m)
        else if c + 4 > length data then Some (-1, LLBS_PPLN_DROP xf, m)
        else do {
          type \<leftarrow> ld8 data c;
          vtag \<leftarrow> ld32 data (s + 4);
          (ss, nstate, cut) \<leftarrow> sctp_switch data vtag c type dir (nm_dsr (nm xf) \<noteq> 0)
            (pi_s (pi (ctd (ct_at m at))));
          let m = ct_mod at (on_s (\<lambda>_. ss\<lparr>s_state := nstate\<rparr>)) m;
          let m = ct_mod xt (on_s (\<lambda>x. x\<lparr>s_state := nstate\<rparr>)) m;
          Some (sctp_smr nstate, if cut then LLBS_PPLN_DROP xf else xf, m) })"

section \<open>All protocols\<close>

definition dp_ct_sm ::
  "packet \<Rightarrow> xfi \<Rightarrow> dp_ct_key \<Rightarrow> dp_ct_key \<Rightarrow> ct_dir \<Rightarrow> ct_map \<Rightarrow> (int \<times> xfi \<times> ct_map) option" where
  "dp_ct_sm data xf at xt dir m = (
     if pm_l4_off (pm xf) = 0 then Some (CT_SMR_UNT, xf, ct_mod at (on_pi (\<lambda>p. p\<lparr>frag := 1\<rparr>)) m)
     else let m = ct_mod at (on_pi (\<lambda>p. p\<lparr>frag := 0\<rparr>)) m; proto = nw_proto (l34m xf)
       in if proto = IPPROTO_TCP then dp_ct_tcp_sm data xf at xt dir m
          else if proto = IPPROTO_UDP then Some (dp_ct_udp_sm xf at xt dir m)
          else if proto = IPPROTO_ICMP then dp_ct_icmp_sm data xf at xt dir m
          else if proto = IPPROTO_SCTP then dp_ct_sctp_sm data xf at xt dir m
          else if proto = IPPROTO_ICMPV6 then dp_ct_icmp6_sm data xf at xt dir m
          else Some (CT_SMR_UNT, xf, m))"

section \<open>dp\_ct\_in\<close>

definition ct_key :: "xfi \<Rightarrow> dp_ct_key" where
  "ct_key xf = \<lparr>daddr = l34_daddr (l34m xf), saddr = l34_saddr (l34m xf), ct_sport = l34_source (l34m xf),
     ct_dport = l34_dest (l34m xf), zone = pm_zone (pm xf), l4proto = nw_proto (l34m xf),
     v6 = (if is_v6 xf then 1 else 0)\<rparr>"

definition tracked_proto :: "u8 \<Rightarrow> bool" where
  "tracked_proto p \<longleftrightarrow> p = IPPROTO_TCP \<or> p = IPPROTO_UDP \<or> p = IPPROTO_ICMP \<or> p = IPPROTO_SCTP \<or> p = IPPROTO_ICMPV6"

text \<open>The translation a packet asks for, with the special flags for the address 0, and the cleared one of
  the other direction.\<close>

definition ct_xi :: "xfi \<Rightarrow> mf_xfrm_inf \<Rightarrow> mf_xfrm_inf" where
  "ct_xi xf x = (
     let nf = pm_nf (pm xf);
         x = x\<lparr>nat_flags := nf, nat_xip := nm_nxip (nm xf), nat_rip := nm_nrip (nm xf),
               nat_xport := nm_nxport (nm xf), nv6 := nm_nv6 (nm xf), dsr := nm_dsr (nm xf)\<rparr>
     in if nf AND (LLB_NAT_DST OR LLB_NAT_SRC) \<noteq> 0 \<and> DP_XADDR_ISZR (nat_xip x) then
          (if nf = LLB_NAT_DST then x\<lparr>nat_flags := LLB_NAT_HDST\<rparr>
           else if nf = LLB_NAT_SRC then x\<lparr>nat_flags := LLB_NAT_HSRC\<rparr> else x)
        else x)"

definition ct_xxi0 :: "mf_xfrm_inf \<Rightarrow> mf_xfrm_inf" where
  "ct_xxi0 x = x\<lparr>nat_flags := 0, nat_xport := 0, nat_xip := XADDR0, nat_rip := XADDR0\<rparr>"

text \<open>What both entries of a new connection have in common: \<open>na_v6\<close> is the value of \<open>nat_act.nv6\<close>.\<close>

definition new_entry :: "xfi \<Rightarrow> u8 \<Rightarrow> u32 \<Rightarrow> mf_xfrm_inf \<Rightarrow> dp_ct_tact \<Rightarrow> dp_ct_tact" where
  "new_entry xf na_v6 ci x a = (
     let a = a\<lparr>ca := (ca a)\<lparr>ftrap := 0, oaux := 0, cidx := ci, fwrid := ucast (pm_fw_rid (pm xf)),
                           ca_record := pm_dp_rec (pm xf)\<rparr>,
               ctd := (ctd a)\<lparr>pi := pinf0\<rparr>\<rparr>
     in if nat_flags x \<noteq> 0 then
          a\<lparr>ca := (ca a)\<lparr>act_type := (if nat_flags x AND (LLB_NAT_DST OR LLB_NAT_HDST) \<noteq> 0 then DP_SET_DNAT
                                       else DP_SET_SNAT)\<rparr>,
            nat_act := (nat_act a)\<lparr>na_xip := nat_xip x, na_rip := nat_rip x, na_xport := nat_xport x,
                          na_doct := 1, na_rid := pm_rule_id (pm xf), na_aid := ucast (nm_sel_aid (nm xf)),
                          na_nv6 := na_v6, na_dsr := nm_dsr (nm xf)\<rparr>,
            ito := nm_ito (nm xf)\<rparr>
        else a\<lparr>ito := 0, ca := (ca a)\<lparr>act_type := DP_SET_DO_CT\<rparr>\<rparr>)"

text \<open>A new connection, in the scratch entries and then in the map.  The map is a hash map of bounded size:
  \<open>room m k\<close> tells whether the kernel accepts a new key.\<close>

definition ct_update :: "(ct_map \<Rightarrow> dp_ct_key \<Rightarrow> bool) \<Rightarrow> dp_ct_key \<Rightarrow> dp_ct_tact \<Rightarrow> ct_map \<Rightarrow> ct_map" where
  "ct_update room k a m = (if m k \<noteq> None \<or> room m k then m(k \<mapsto> a) else m)"

definition ct_new ::
  "(ct_map \<Rightarrow> dp_ct_key \<Rightarrow> bool) \<Rightarrow> xfi \<Rightarrow> dp_ct_key \<Rightarrow> dp_ct_key \<Rightarrow> mf_xfrm_inf \<Rightarrow> mf_xfrm_inf
     \<Rightarrow> dp_ct_tact \<Rightarrow> dp_ct_tact \<Rightarrow> ct_state \<Rightarrow> ct_state" where
  "ct_new room xf key xkey x xx adat axdat s = (
     let (ci, s) = dp_ct_get_newctr s;
         adat = new_entry xf (if nm_nv6 (nm xf) \<noteq> 0 then 1 else 0) ci x adat;
         adat = on_ctd (\<lambda>d. d\<lparr>ctd_dir := CT_DIR_IN, ctd_rid := pm_rule_id (pm xf),
                              ctd_aid := ucast (nm_sel_aid (nm xf)), ctd_smr := CT_SMR_INIT\<rparr>) adat;
         axdat = new_entry xf (if v6 key \<noteq> 0 then 1 else 0) (ci + 1) xx axdat;
         axdat = (on_ctd (\<lambda>d. d\<lparr>ctd_dir := CT_DIR_OUT, ctd_smr := CT_SMR_INIT, ctd_rid := ctd_rid (ctd adat),
                                ctd_aid := ctd_aid (ctd adat)\<rparr>) axdat)\<lparr>lts := lts adat\<rparr>
     in s\<lparr>xctk := (xctk s)(0 \<mapsto> adat, 1 \<mapsto> axdat),
          ct_map := ct_update room key adat (ct_update room xkey axdat (ct_map s))\<rparr>)"

text \<open>What follows the state machine: an established connection needs no tracking any more, a broken or
  closed one is deleted.\<close>

definition ct_finish :: "int \<Rightarrow> mf_xfrm_inf \<Rightarrow> dp_ct_key \<Rightarrow> dp_ct_key \<Rightarrow> ct_map \<Rightarrow> ct_map" where
  "ct_finish smr x key xkey m = (
     if smr = CT_SMR_EST then
       (if nat_flags x \<noteq> 0 then
          (let f = (\<lambda>a. a\<lparr>nat_act := (nat_act a)\<lparr>na_doct := 0\<rparr>\<rparr>) in ct_mod xkey f (ct_mod key f m))
        else
          (let f = (\<lambda>a. a\<lparr>ca := (ca a)\<lparr>act_type := DP_SET_NOP\<rparr>\<rparr>) in ct_mod xkey f (ct_mod key f m)))
     else if smr = CT_SMR_ERR \<or> smr = CT_SMR_CTD then (m(xkey := None))(key := None)
     else m)"

text \<open>The first half of \<open>dp_ct_in\<close> finds the reverse key and creates the entries if one is missing; the
  second half runs the state machine on them.\<close>

definition ct_open ::
  "(ct_map \<Rightarrow> dp_ct_key \<Rightarrow> bool) \<Rightarrow> xfi \<Rightarrow> dp_ct_tact \<Rightarrow> dp_ct_tact \<Rightarrow> ct_state
     \<Rightarrow> dp_ct_key \<times> mf_xfrm_inf \<times> ct_state" where
  "ct_open room xf adat axdat s = (
     let key = ct_key xf;
         (xkey, x, xx) = dp_ct_proto_xfk_init key (ct_xi xf (ctd_xi (ctd adat))) (ct_xxi0 (ctd_xi (ctd axdat)));
         adat = on_ctd (\<lambda>d. d\<lparr>ctd_xi := x\<rparr>) adat;
         axdat = on_ctd (\<lambda>d. d\<lparr>ctd_xi := xx\<rparr>) axdat;
         s = s\<lparr>xctk := (xctk s)(0 \<mapsto> adat, 1 \<mapsto> axdat)\<rparr>
     in (xkey, x, if ct_map s key = None \<or> ct_map s xkey = None
                  then ct_new room xf key xkey x xx adat axdat s else s))"

definition ct_track ::
  "u64 \<Rightarrow> packet \<Rightarrow> xfi \<Rightarrow> dp_ct_key \<Rightarrow> dp_ct_key \<Rightarrow> mf_xfrm_inf \<Rightarrow> ct_map \<Rightarrow> (int \<times> xfi \<times> ct_map) option" where
  "ct_track now data xf key xkey x m = (
     if m key \<noteq> None \<and> m xkey \<noteq> None then do {
       let m = ct_mod xkey (\<lambda>a. a\<lparr>lts := now\<rparr>) (ct_mod key (\<lambda>a. a\<lparr>lts := now\<rparr>) m);
       (smr, xf, m) \<leftarrow>
         (if ctd_dir (ctd (ct_at m key)) = CT_DIR_IN then dp_ct_sm data xf key xkey CT_DIR_IN m
          else dp_ct_sm data xf xkey key CT_DIR_OUT m);
       Some (smr, xf, ct_finish smr x key xkey m) }
     else Some (CT_SMR_ERR, xf, m))"

definition dp_ct_in ::
  "(ct_map \<Rightarrow> dp_ct_key \<Rightarrow> bool) \<Rightarrow> u64 \<Rightarrow> packet \<Rightarrow> xfi \<Rightarrow> ct_state \<Rightarrow> (int \<times> xfi \<times> ct_state) option" where
  "dp_ct_in room now data xf s = (
     case (xctk s 0, xctk s 1) of
       (Some adat, Some axdat) \<Rightarrow>
         if \<not> tracked_proto (l4proto (ct_key xf)) then Some (0, xf, s)
         else do {
           let (xkey, x, s) = ct_open room xf adat axdat s;
           (smr, xf, m) \<leftarrow> ct_track now data xf (ct_key xf) xkey x (ct_map s);
           Some (smr, xf, s\<lparr>ct_map := m\<rparr>) }
     | _ \<Rightarrow> Some (CT_SMR_ERR, xf, s))"

section \<open>Applying an entry\<close>

text \<open>What the lookup of an entry in \<open>llb_kern_l3fwd.c\<close> puts into the metadata of a packet.\<close>

definition dp_pipe_set_nat :: "xfi \<Rightarrow> dp_nat_act \<Rightarrow> bool \<Rightarrow> xfi" where
  "dp_pipe_set_nat xf na do_snat =
     xf\<lparr>pm := (pm xf)\<lparr>pm_nf := (if do_snat then LLB_NAT_SRC else LLB_NAT_DST)\<rparr>,
        nm := (nm xf)\<lparr>nm_nxip := na_xip na, nm_nrip := na_rip na, nm_nxport := na_xport na,
                      nm_nv6 := (if na_nv6 na \<noteq> 0 then 1 else 0), nm_dsr := na_dsr na\<rparr>\<rparr>"

text \<open>After the establishment only the last numbers are kept (with \<open>HAVE_DP_EXTCT\<close>).\<close>

definition dp_run_ctact_helper :: "xfi \<Rightarrow> dp_ct_tact \<Rightarrow> dp_ct_tact" where
  "dp_run_ctact_helper xf a = (
     if act_type (ca a) = DP_SET_NOP \<or> act_type (ca a) = DP_SET_SNAT \<or> act_type (ca a) = DP_SET_DNAT
     then on_t (on_cts CT_DIR_IN (\<lambda>d. d\<lparr>pseq := l34_seq (l34m xf), pack := l34_ack (l34m xf)\<rparr>)) a else a)"

definition dp_run_ct_helper :: "xfi \<Rightarrow> ct_map \<Rightarrow> int \<times> ct_map" where
  "dp_run_ct_helper xf m = (case m (ct_key xf) of None \<Rightarrow> (-1, m)
     | Some _ \<Rightarrow> (0, ct_mod (ct_key xf) (dp_run_ctact_helper xf) m))"

end
