(* ===== verification/Loxi_Ct_Inv.thy ===== *)
theory Loxi_Ct_Inv
  imports Loxi_Ct
begin

text \<open>
  What holds of every entry of the connection table at all times.  The state machines read no byte outside the
  packet and touch no entry but the two they are called with; an invariant of a single entry that the state
  machines keep is kept by \<open>dp_ct_in\<close> (the locale \<open>ct_invariant\<close>), and there are two: an entry uses only the
  member of the union that belongs to its protocol, and a TCP entry has never counted an early acknowledgement.
\<close>

section \<open>Nothing faults\<close>

lemma tcp_sm_safe: "dp_ct_tcp_sm data xf at xt dir m \<noteq> None"
  unfolding wp_total dp_ct_tcp_sm_def by (auto simp: wp_simps Let_def split: prod.splits)

lemma icmp_sm_safe: "icmp_sm rq rp ef data xf at xt dir m \<noteq> None"
  unfolding wp_total icmp_sm_def by (auto simp: wp_simps Let_def split: prod.splits)

lemma sctp_switch_safe: "sctp_switch data vtag c ty dir d ss \<noteq> None"
  unfolding wp_total sctp_switch_def by (simp add: wp_simps Let_def)

lemma sctp_sm_safe: "dp_ct_sctp_sm data xf at xt dir m \<noteq> None"
  unfolding wp_total dp_ct_sctp_sm_def
  by (auto simp: wp_simps Let_def intro!: wpI [OF sctp_switch_safe])

lemma ct_sm_safe: "dp_ct_sm data xf at xt dir m \<noteq> None"
  by (simp add: dp_ct_sm_def Let_def tcp_sm_safe sctp_sm_safe icmp_sm_safe dp_ct_icmp_sm_def dp_ct_icmp6_sm_def
      del: not_None_eq)

lemma ct_track_safe: "ct_track now data xf key xkey x m \<noteq> None"
  unfolding wp_total ct_track_def Let_def by (auto simp: wp_ctrl intro!: wpI [OF ct_sm_safe])

lemma ct_in_safe: "dp_ct_in room now data xf s \<noteq> None"
  unfolding wp_total dp_ct_in_def Let_def
  by (auto simp: wp_ctrl intro!: wpI [OF ct_track_safe] split: option.splits)

section \<open>Pointers\<close>

lemma ct_mod_other [simp]: "k' \<noteq> k \<Longrightarrow> ct_mod k f m k' = m k'"
  by (auto simp: ct_mod_def split: option.splits)

lemma ct_mod_same: "ct_mod k f m k = map_option f (m k)"
  by (auto simp: ct_mod_def split: option.splits)

lemma ct_mod_None [simp]: "ct_mod k f m k' = None \<longleftrightarrow> m k' = None"
  by (cases "k' = k") (simp_all add: ct_mod_same)

lemma ct_at_mod: "m k \<noteq> None \<Longrightarrow> ct_at (ct_mod k f m) k' = (if k' = k then f (ct_at m k) else ct_at m k')"
  by (auto simp: ct_at_def ct_mod_same)

text \<open>What a state machine may touch.\<close>

definition ct_frame :: "dp_ct_key \<Rightarrow> dp_ct_key \<Rightarrow> ct_map \<Rightarrow> ct_map \<Rightarrow> bool" where
  "ct_frame at xt m m' \<longleftrightarrow> (\<forall>k. (m' k = None \<longleftrightarrow> m k = None) \<and> (k \<noteq> at \<longrightarrow> k \<noteq> xt \<longrightarrow> m' k = m k))"

lemma ct_frame_refl [intro!, simp]: "ct_frame at xt m m"
  by (simp add: ct_frame_def)

lemma ct_frame_mod [intro!]:
  "ct_frame at xt m m' \<Longrightarrow> ct_frame at xt m (ct_mod at f m')"
  "ct_frame at xt m m' \<Longrightarrow> ct_frame at xt m (ct_mod xt f m')"
  by (simp_all add: ct_frame_def)

lemma ct_sm_frame:
  assumes "dp_ct_sm data xf at xt dir m = Some (r, xf', m')"
  shows "ct_frame at xt m m'"
proof -
  have "wp (dp_ct_sm data xf at xt dir m) (\<lambda>(r, xf', m'). ct_frame at xt m m')"
    unfolding dp_ct_sm_def dp_ct_tcp_sm_def dp_ct_udp_sm_def dp_ct_icmp_sm_def dp_ct_icmp6_sm_def icmp_sm_def
      dp_ct_sctp_sm_def Let_def
    by (auto simp: wp_simps intro!: wpI [OF sctp_switch_safe] split: prod.splits)
  then show ?thesis using assms by (auto simp: wp_def)
qed


section \<open>Invariants of the entries\<close>

definition all_ct :: "(u8 \<Rightarrow> ct_pinf \<Rightarrow> bool) \<Rightarrow> ct_map \<Rightarrow> bool" where
  "all_ct P m \<longleftrightarrow> (\<forall>k a. m k = Some a \<longrightarrow> P (l4proto k) (pi (ctd a)))"

lemma all_ct_mod:
  assumes "all_ct P m" and "\<And>a. m k = Some a \<Longrightarrow> P (l4proto k) (pi (ctd a)) \<Longrightarrow> P (l4proto k) (pi (ctd (f a)))"
  shows "all_ct P (ct_mod k f m)"
  unfolding all_ct_def
proof (intro allI impI)
  fix k' a assume "ct_mod k f m k' = Some a"
  then show "P (l4proto k') (pi (ctd a))"
    using assms by (cases "k' = k") (auto simp: ct_mod_same all_ct_def)
qed

lemma ct_get_newctr_map [simp]: "ct_map (snd (dp_ct_get_newctr s)) = ct_map s"
  by (auto simp: dp_ct_get_newctr_def Let_def split: option.splits)

lemma new_entry_pi [simp]: "pi (ctd (new_entry xf v ci x a)) = pinf0"
  by (simp add: new_entry_def Let_def)

lemma ct_new_map:
  "\<exists>a b. pi (ctd a) = pinf0 \<and> pi (ctd b) = pinf0 \<and> ctd_dir (ctd a) = CT_DIR_IN \<and> ctd_dir (ctd b) = CT_DIR_OUT \<and>
     ct_map (ct_new room xf key xkey x xx adat axdat s) = ct_update room key a (ct_update room xkey b (ct_map s))"
proof -
  obtain ci s1 where c: "dp_ct_get_newctr s = (ci, s1)" by fastforce
  then have "ct_map s1 = ct_map s" by (metis ct_get_newctr_map snd_conv)
  then show ?thesis unfolding ct_new_def Let_def c prod.case
    by (intro exI conjI) (auto simp: on_ctd_def)
qed

lemma xfk_step_proto [simp]:
  "l4proto (fst (xfk_dsr key x)) = l4proto (fst x)" "l4proto (fst (xfk_dst key x)) = l4proto (fst x)"
  "l4proto (fst (xfk_src key x)) = l4proto (fst x)" "l4proto (fst (xfk_hdst key x)) = l4proto (fst x)"
  "l4proto (fst (xfk_hsrc key x)) = l4proto (fst x)"
  by (cases x, simp add: xfk_dsr_def xfk_dst_def xfk_src_def xfk_hdst_def xfk_hsrc_def Let_def)+

lemma on_flag_proto [simp]:
  "(\<And>x. l4proto (fst (f x)) = l4proto (fst x)) \<Longrightarrow> l4proto (fst (on_flag fl f x)) = l4proto (fst x)"
  by (simp add: on_flag_def)

lemma xfk_proto: "l4proto (fst (dp_ct_proto_xfk_init key x xx)) = l4proto key"
  by (simp add: dp_ct_proto_xfk_init_def Let_def xfk_swap_def)

lemma ct_open_proto: "ct_open room xf adat axdat s = (xkey, x, s') \<Longrightarrow> l4proto xkey = nw_proto (l34m xf)"
  using xfk_proto [of "ct_key xf"] by (auto simp: ct_open_def Let_def ct_key_def split: prod.splits) (metis fst_conv)

text \<open>
  An invariant of the entries is one that the state of a new entry satisfies and every run of the state
  machine keeps that does not end in the deletion of the entries.  It then holds after every packet.
\<close>

locale ct_invariant =
  fixes P :: "u8 \<Rightarrow> ct_pinf \<Rightarrow> bool"
  assumes fresh: "P p pinf0"
    and sm: "all_ct P m \<Longrightarrow> l4proto at = nw_proto (l34m xf) \<Longrightarrow> l4proto xt = nw_proto (l34m xf) \<Longrightarrow>
      dp_ct_sm data xf at xt dir m = Some (r, xf', m') \<Longrightarrow> r \<noteq> CT_SMR_ERR \<Longrightarrow> r \<noteq> CT_SMR_CTD \<Longrightarrow> all_ct P m'"
begin

lemma update: "all_ct P m \<Longrightarrow> pi (ctd a) = pinf0 \<Longrightarrow> all_ct P (ct_update room k a m)"
  using fresh by (simp add: all_ct_def ct_update_def)

lemma opened:
  assumes "all_ct P (ct_map s)" and "ct_open room xf adat axdat s = (xkey, x, s')"
  shows "all_ct P (ct_map s')"
proof -
  have new: "all_ct P (ct_map (ct_new room xf key xkey x xx adat axdat s))" if "all_ct P (ct_map s)"
    for key xkey x xx adat axdat s
    using ct_new_map [of room xf key xkey x xx adat axdat s] that by (elim exE conjE) (simp add: update)
  show ?thesis using assms by (auto simp: ct_open_def Let_def intro!: new split: prod.splits if_splits)
qed

lemma finished:
  assumes "all_ct P m \<or> smr = CT_SMR_ERR \<or> smr = CT_SMR_CTD"
    and "\<And>k a. k \<noteq> key \<Longrightarrow> k \<noteq> xkey \<Longrightarrow> m k = Some a \<Longrightarrow> P (l4proto k) (pi (ctd a))"
  shows "all_ct P (ct_finish smr x key xkey m)"
proof (cases "smr = CT_SMR_ERR \<or> smr = CT_SMR_CTD")
  case True
  then have "ct_finish smr x key xkey m = (m(xkey := None))(key := None)" by (auto simp: ct_finish_def smr_defs)
  then show ?thesis using assms(2) by (auto simp: all_ct_def)
next
  case False
  then show ?thesis using assms(1) by (auto simp: ct_finish_def Let_def intro!: all_ct_mod)
qed

lemma tracked:
  assumes "all_ct P m" and "l4proto key = nw_proto (l34m xf)" and "l4proto xkey = nw_proto (l34m xf)"
    and "ct_track now data xf key xkey x m = Some (r, xf', m')"
  shows "all_ct P m'"
proof (cases "m key \<noteq> None \<and> m xkey \<noteq> None")
  case True
  let ?m = "ct_mod xkey (\<lambda>a. a\<lparr>lts := now\<rparr>) (ct_mod key (\<lambda>a. a\<lparr>lts := now\<rparr>) m)"
  have m: "all_ct P ?m" using assms(1) by (auto intro!: all_ct_mod)
  obtain at xt dir m1 where d: "dp_ct_sm data xf at xt dir ?m = Some (r, xf', m1)" "{at, xt} = {key, xkey}"
      "m' = ct_finish r x key xkey m1"
    using assms(4) True unfolding ct_track_def Let_def
    by (auto split: if_splits simp: Option.bind_eq_Some_conv insert_commute)
  have "l4proto at = nw_proto (l34m xf)" "l4proto xt = nw_proto (l34m xf)" using d(2) assms(2,3) by (auto simp: doubleton_eq_iff)
  then have "all_ct P m1 \<or> r = CT_SMR_ERR \<or> r = CT_SMR_CTD" using sm [OF m _ _ d(1)] by blast
  moreover have "P (l4proto k) (pi (ctd a))" if "k \<noteq> key" "k \<noteq> xkey" "m1 k = Some a" for k a
    using ct_sm_frame [OF d(1)] m that d(2) by (auto simp: ct_frame_def all_ct_def doubleton_eq_iff)
  ultimately show ?thesis unfolding d(3) by (rule finished)
qed (use assms in \<open>auto simp: ct_track_def\<close>)

lemma kept:
  assumes "all_ct P (ct_map s)" and "dp_ct_in room now data xf s = Some (r, xf', s')"
  shows "all_ct P (ct_map s')"
proof -
  have "wp (dp_ct_in room now data xf s) (\<lambda>(r, xf', s'). all_ct P (ct_map s'))"
    unfolding dp_ct_in_def Let_def using assms(1)
    by (auto simp: wp_ctrl ct_key_def intro!: wpI [OF ct_track_safe]
        elim!: tracked [rotated 3] dest: ct_open_proto opened split: option.splits)
  then show ?thesis using assms(2) by (auto simp: wp_def)
qed

end

section \<open>The union\<close>

text \<open>Only the member of the entry's own protocol is in use.\<close>

definition union_ok :: "u8 \<Rightarrow> ct_pinf \<Rightarrow> bool" where
  "union_ok p q \<longleftrightarrow> (p \<noteq> IPPROTO_TCP \<longrightarrow> pi_t q = tcp0) \<and> (p \<noteq> IPPROTO_UDP \<longrightarrow> pi_u q = udp0) \<and>
     (p \<noteq> IPPROTO_ICMP \<and> p \<noteq> IPPROTO_ICMPV6 \<longrightarrow> pi_i q = icmp0) \<and> (p \<noteq> IPPROTO_SCTP \<longrightarrow> pi_s q = sctp0)"

lemma ct_sm_wp_all:
  assumes "all_ct P m"
    and "\<And>p q v. P p q \<Longrightarrow> P p (q\<lparr>frag := v\<rparr>)"
    and "nw_proto (l34m xf) = IPPROTO_TCP \<Longrightarrow> \<forall>m. all_ct P m \<longrightarrow> wp (dp_ct_tcp_sm data xf at xt dir m) Q"
    and "nw_proto (l34m xf) = IPPROTO_UDP \<Longrightarrow> \<forall>m. all_ct P m \<longrightarrow> Q (dp_ct_udp_sm xf at xt dir m)"
    and "nw_proto (l34m xf) = IPPROTO_ICMP \<or> nw_proto (l34m xf) = IPPROTO_ICMPV6 \<Longrightarrow>
      \<forall>m rq rp ef. all_ct P m \<longrightarrow> wp (icmp_sm rq rp ef data xf at xt dir m) Q"
    and "nw_proto (l34m xf) = IPPROTO_SCTP \<Longrightarrow> \<forall>m. all_ct P m \<longrightarrow> wp (dp_ct_sctp_sm data xf at xt dir m) Q"
    and "\<And>m. all_ct P m \<Longrightarrow> Q (CT_SMR_UNT, xf, m)"
  shows "wp (dp_ct_sm data xf at xt dir m) Q"
proof -
  have fr: "all_ct P (ct_mod at (on_pi (\<lambda>p. p\<lparr>frag := v\<rparr>)) m)" for v
    using assms(1,2) by (intro all_ct_mod) (auto simp: on_defs)
  show ?thesis unfolding dp_ct_sm_def Let_def dp_ct_icmp_sm_def dp_ct_icmp6_sm_def
    using fr assms(3-7) by (auto simp: wp_Some wp_if)
qed

lemma all_ct_count: "all_ct P m \<Longrightarrow> all_ct P (ct_mod k (count_pb n) m)"
  by (rule all_ct_mod) (simp_all add: on_defs)

interpretation union: ct_invariant union_ok
proof
  show "union_ok p pinf0" for p by (simp add: union_ok_def pinf0_def)
next
  fix m at xf xt data dir r xf' m'
  assume a: "all_ct union_ok m" and k: "l4proto at = nw_proto (l34m xf)" "l4proto xt = nw_proto (l34m xf)"
    and s: "dp_ct_sm data xf at xt dir m = Some (r, xf', m')"
  have "wp (dp_ct_sm data xf at xt dir m) (\<lambda>(r, xf', m'). all_ct union_ok m')"
  proof (rule ct_sm_wp_all [OF a])
    show "union_ok p q \<Longrightarrow> union_ok p (q\<lparr>frag := v\<rparr>)" for p q v by (simp add: union_ok_def)
    show "\<forall>m. all_ct union_ok m \<longrightarrow> wp (dp_ct_tcp_sm data xf at xt dir m) (\<lambda>(r, xf', m'). all_ct union_ok m')"
      if "nw_proto (l34m xf) = IPPROTO_TCP"
      unfolding dp_ct_tcp_sm_def Let_def
      by (auto simp: wp_simps on_defs union_ok_def k that proto_defs intro!: all_ct_mod split: prod.splits)
    show "\<forall>m. all_ct union_ok m \<longrightarrow> (case dp_ct_udp_sm xf at xt dir m of (r, xf', m') \<Rightarrow> all_ct union_ok m')"
      if "nw_proto (l34m xf) = IPPROTO_UDP"
      unfolding dp_ct_udp_sm_def Let_def
      by (auto simp: wp_simps on_defs union_ok_def k that proto_defs intro!: all_ct_mod split: prod.splits)
    show "\<forall>m rq rp ef. all_ct union_ok m \<longrightarrow>
        wp (icmp_sm rq rp ef data xf at xt dir m) (\<lambda>(r, xf', m'). all_ct union_ok m')"
      if "nw_proto (l34m xf) = IPPROTO_ICMP \<or> nw_proto (l34m xf) = IPPROTO_ICMPV6"
      unfolding icmp_sm_def Let_def using that
      by (auto simp: wp_simps on_defs union_ok_def k proto_defs intro!: all_ct_mod split: prod.splits)
    show "\<forall>m. all_ct union_ok m \<longrightarrow> wp (dp_ct_sctp_sm data xf at xt dir m) (\<lambda>(r, xf', m'). all_ct union_ok m')"
      if "nw_proto (l34m xf) = IPPROTO_SCTP"
      unfolding dp_ct_sctp_sm_def Let_def
      by (auto simp: wp_simps on_defs union_ok_def k that proto_defs intro!: all_ct_mod wpI [OF sctp_switch_safe]
          split: prod.splits)
  qed simp
  then show "all_ct union_ok m'" using s by (auto simp: wp_def)
qed

section \<open>TCP\<close>

definition tcp_open_states :: "u32 set" where
  "tcp_open_states = {CT_TCP_CLOSED, CT_TCP_SS, CT_TCP_SA, CT_TCP_EST, CT_TCP_FINI, CT_TCP_FINI2, CT_TCP_FINI3}"

lemma tcp_smr_simps [simp]:
  "tcp_smr CT_TCP_CLOSED = CT_SMR_INPROG" "tcp_smr CT_TCP_SS = CT_SMR_INPROG" "tcp_smr CT_TCP_SA = CT_SMR_INPROG"
  "tcp_smr CT_TCP_EST = CT_SMR_EST" "tcp_smr CT_TCP_FINI = CT_SMR_FIN" "tcp_smr CT_TCP_FINI2 = CT_SMR_FIN"
  "tcp_smr CT_TCP_FINI3 = CT_SMR_FIN" "tcp_smr CT_TCP_CW = CT_SMR_CTD" "tcp_smr CT_TCP_ERR = CT_SMR_ERR"
  by (simp_all add: tcp_smr_def CT_TCP_FIN_MASK_def tcp_state_defs)

lemma zero_closed: "(0 :: u32) = CT_TCP_CLOSED"
  by (simp add: CT_TCP_CLOSED_def)

lemma snd_if: "(snd (if c then x else y) \<in> S) = ((c \<longrightarrow> snd x \<in> S) \<and> (\<not> c \<longrightarrow> snd y \<in> S))"
  by simp

lemma tcp_switch_nstate:
  "snd (tcp_switch fl sq ack dir d ts) \<in> insert CT_TCP_CW (insert CT_TCP_ERR tcp_open_states)"
  unfolding tcp_switch_def Let_def snd_if snd_conv zero_closed
  by (simp only: tcp_open_states_def insert_iff simp_thms)

definition no_acks :: "ct_tcp_pinf \<Rightarrow> bool" where
  "no_acks ts \<longleftrightarrow> (\<forall>d. init_acks (tcp_cts ts d) = 0)"

lemma no_acks_simps [simp]:
  "no_acks (on_cts d (\<lambda>x. x\<lparr>seq := sq\<rparr>) ts) = no_acks ts" "no_acks (ts\<lparr>t_fndir := d\<rparr>) = no_acks ts"
  "no_acks (set_tstate n ts) = no_acks ts" "no_acks (on_cts d (\<lambda>x. x\<lparr>pseq := a, pack := b\<rparr>) ts) = no_acks ts"
  by (auto simp: no_acks_def on_cts_def set_tstate_def)

definition tcp_live :: "u8 \<Rightarrow> ct_pinf \<Rightarrow> bool" where
  "tcp_live p q \<longleftrightarrow> (p = IPPROTO_TCP \<longrightarrow> no_acks (pi_t q) \<and> t_state (pi_t q) \<in> tcp_open_states)"

text \<open>A counter of early acknowledgements is only ever stepped on the way into the error state.\<close>

definition acks_kept :: "ct_tcp_pinf \<times> u32 \<Rightarrow> bool" where
  "acks_kept r \<longleftrightarrow> snd r = CT_TCP_ERR \<or> no_acks (fst r)"

lemma acks_kept_if: "acks_kept (if c then x else y) = ((c \<longrightarrow> acks_kept x) \<and> (\<not> c \<longrightarrow> acks_kept y))"
  by simp

lemma acks_kept_pair: "acks_kept (ts, n) \<longleftrightarrow> n = CT_TCP_ERR \<or> no_acks ts"
  by (simp add: acks_kept_def)

lemma tcp_switch_no_acks:
  assumes "no_acks ts"
  shows "acks_kept (tcp_switch fl sq ack dir d ts)"
proof -
  have "init_acks (tcp_cts ts d) = 0" for d using assms by (simp add: no_acks_def)
  then have "\<not> CT_TCP_INIT_ACK_THRESHOLD \<le> init_acks (tcp_cts ts d)" for d
    by (simp add: CT_TCP_INIT_ACK_THRESHOLD_def)
  then show ?thesis
    unfolding tcp_switch_def Let_def acks_kept_if acks_kept_pair using assms by simp
qed

lemma all_ct_at: "all_ct P m \<Longrightarrow> P (l4proto k) pinf0 \<Longrightarrow> P (l4proto k) (pi (ctd (ct_at m k)))"
  by (auto simp: all_ct_def ct_at_def tact0_def split: option.splits)

lemma tcp_live_pinf0: "tcp_live p pinf0"
  by (simp add: tcp_live_def pinf0_def tcp0_def no_acks_def pinfd0_def tcp_open_states_def CT_TCP_CLOSED_def)

lemma tcp_live_on_t:
  "all_ct tcp_live m \<Longrightarrow> (\<And>t. no_acks (f t) = no_acks t) \<Longrightarrow> (\<And>t. t_state (f t) = t_state t) \<Longrightarrow>
     all_ct tcp_live (ct_mod k (on_t f) m)"
  by (rule all_ct_mod) (auto simp: tcp_live_def on_defs)

lemma all_ct_comp: "all_ct P (ct_mod k f (ct_mod k g m)) \<Longrightarrow> all_ct P (ct_mod k (f \<circ> g) m)"
proof -
  have "ct_mod k (f \<circ> g) m = ct_mod k f (ct_mod k g m)" by (auto simp: ct_mod_def split: option.splits)
  then show "all_ct P (ct_mod k f (ct_mod k g m)) \<Longrightarrow> ?thesis" by simp
qed

lemma t_state_cts [simp]: "t_state (on_cts d f t) = t_state t" "t_state (set_tstate n t) = n"
  by (simp_all add: on_cts_def set_tstate_def)

lemma tcp_live_steps:
  assumes "all_ct tcp_live m"
  shows "all_ct tcp_live (ct_mod k (on_t (on_cts d (\<lambda>x. x\<lparr>seq := sq\<rparr>))) m)"
    and "n \<in> tcp_open_states \<Longrightarrow> no_acks ts \<Longrightarrow> all_ct tcp_live (ct_mod k (on_t (\<lambda>_. set_tstate n ts)) m)"
    and "n \<in> tcp_open_states \<Longrightarrow> all_ct tcp_live (ct_mod k (on_t (set_tstate n)) m)"
  using assms by (auto intro!: tcp_live_on_t all_ct_mod simp: tcp_live_def on_t_def on_pi_def on_ctd_def)

lemma tcp_live_switch:
  assumes "all_ct tcp_live m" and "l4proto at = IPPROTO_TCP"
    and "tcp_switch fl sq ack dir d (pi_t (pi (ctd (ct_at m at)))) = (ts, n)"
    and "tcp_smr n \<noteq> CT_SMR_ERR" and "tcp_smr n \<noteq> CT_SMR_CTD"
  shows "no_acks ts \<and> n \<in> tcp_open_states"
proof -
  have "no_acks (pi_t (pi (ctd (ct_at m at))))"
    using all_ct_at [OF assms(1) tcp_live_pinf0, of at] assms(2) by (simp add: tcp_live_def)
  then have "n = CT_TCP_ERR \<or> no_acks ts" using tcp_switch_no_acks assms(3) by (metis acks_kept_pair)
  moreover have "n \<in> insert CT_TCP_CW (insert CT_TCP_ERR tcp_open_states)"
    using tcp_switch_nstate assms(3) by (metis snd_conv)
  ultimately show ?thesis using assms(4,5) by auto
qed

lemma tcp_sm_live:
  assumes "all_ct tcp_live m" and "l4proto at = IPPROTO_TCP"
  shows "wp (dp_ct_tcp_sm data xf at xt dir m)
    (\<lambda>(r, xf', m'). r \<noteq> CT_SMR_ERR \<longrightarrow> r \<noteq> CT_SMR_CTD \<longrightarrow> all_ct tcp_live m')"
proof -
  have "all_ct tcp_live (ct_mod k (count_pb n \<circ> on_t (on_cts CT_DIR_IN (\<lambda>d. d\<lparr>pseq := a, pack := b\<rparr>))) m)" for k n a b
    using assms(1) by (intro all_ct_comp all_ct_count tcp_live_on_t) simp_all
  note m1 = this
  show ?thesis unfolding dp_ct_tcp_sm_def Let_def
    by (auto simp: wp_simps CT_SMR_ERR_def split: prod.splits if_splits intro!: tcp_live_steps m1
        dest!: tcp_live_switch [OF m1 assms(2)])
qed

interpretation tcp: ct_invariant tcp_live
proof
  show "tcp_live p pinf0" for p by (rule tcp_live_pinf0)
next
  fix m at xf xt data dir r xf' m'
  assume a: "all_ct tcp_live m" and k: "l4proto at = nw_proto (l34m xf)" "l4proto xt = nw_proto (l34m xf)"
    and s: "dp_ct_sm data xf at xt dir m = Some (r, xf', m')" and r: "r \<noteq> CT_SMR_ERR" "r \<noteq> CT_SMR_CTD"
  let ?Q = "\<lambda>(r, xf' :: xfi, m'). r \<noteq> CT_SMR_ERR \<longrightarrow> r \<noteq> CT_SMR_CTD \<longrightarrow> all_ct tcp_live m'"
  have "wp (dp_ct_sm data xf at xt dir m) ?Q"
  proof (rule ct_sm_wp_all [OF a])
    show "tcp_live p q \<Longrightarrow> tcp_live p (q\<lparr>frag := v\<rparr>)" for p q v by (simp add: tcp_live_def)
    show "\<forall>m. all_ct tcp_live m \<longrightarrow> wp (dp_ct_tcp_sm data xf at xt dir m) ?Q"
      if "nw_proto (l34m xf) = IPPROTO_TCP" using tcp_sm_live k(1) that by simp
    show "\<forall>m. all_ct tcp_live m \<longrightarrow> ?Q (dp_ct_udp_sm xf at xt dir m)"
      if "nw_proto (l34m xf) = IPPROTO_UDP"
      unfolding dp_ct_udp_sm_def Let_def
      by (auto simp: on_defs tcp_live_def k that proto_defs intro!: all_ct_mod)
    show "\<forall>m rq rp ef. all_ct tcp_live m \<longrightarrow> wp (icmp_sm rq rp ef data xf at xt dir m) ?Q"
      if "nw_proto (l34m xf) = IPPROTO_ICMP \<or> nw_proto (l34m xf) = IPPROTO_ICMPV6"
      unfolding icmp_sm_def Let_def using that
      by (auto simp: wp_simps on_defs tcp_live_def k proto_defs intro!: all_ct_mod split: prod.splits)
    show "\<forall>m. all_ct tcp_live m \<longrightarrow> wp (dp_ct_sctp_sm data xf at xt dir m) ?Q"
      if "nw_proto (l34m xf) = IPPROTO_SCTP"
      unfolding dp_ct_sctp_sm_def Let_def
      by (auto simp: wp_simps on_defs tcp_live_def k that proto_defs intro!: all_ct_mod wpI [OF sctp_switch_safe]
          split: prod.splits)
  qed simp
  then show "all_ct tcp_live m'" using s r by (auto simp: wp_def)
qed

end
