(* ===== verification/Loxi_Ct_Props.thy ===== *)
theory Loxi_Ct_Props
  imports Loxi_Ct_Inv
begin

text \<open>
  What connection tracking promises: a TCP connection is established by a handshake only, the two entries of a
  connection live and die together and agree on the state, a reply finds the entries of the request through
  every translation, and UDP tracking implements its specification; and where the state machines go wrong.
\<close>

section \<open>Opening a TCP connection\<close>

text \<open>A segment: direction, flags, sequence and acknowledgement number.\<close>

datatype seg = Seg ct_dir u8 u32 u32

text \<open>
  The life of an entry up to its establishment, as \<open>dp_ct_in\<close> drives it: the first packet creates the
  entry, in the direction IN, and a packet that leads to an error or closes the connection deletes it.
\<close>

inductive tcp_open :: "seg list \<Rightarrow> ct_tcp_pinf \<Rightarrow> bool" where
  first: "tcp_switch fl sq ack CT_DIR_IN False tcp0 = (ts, n) \<Longrightarrow> n \<in> tcp_open_states \<Longrightarrow>
    tcp_open [Seg CT_DIR_IN fl sq ack] (set_tstate n ts)"
| further: "tcp_open es ts \<Longrightarrow> t_state ts \<noteq> CT_TCP_EST \<Longrightarrow> tcp_switch fl sq ack d False ts = (ts', n) \<Longrightarrow>
    n \<in> tcp_open_states \<Longrightarrow> tcp_open (es @ [Seg d fl sq ack]) (set_tstate n ts')"

definition syn :: "u8 \<Rightarrow> bool" where "syn fl \<longleftrightarrow> fl AND LLB_TCP_SYN = LLB_TCP_SYN"
definition syn_ack :: "u8 \<Rightarrow> bool" where
  "syn_ack fl \<longleftrightarrow> fl AND (LLB_TCP_SYN OR LLB_TCP_ACK) = LLB_TCP_SYN OR LLB_TCP_ACK"
definition ack_set :: "u8 \<Rightarrow> bool" where "ack_set fl \<longleftrightarrow> fl AND LLB_TCP_ACK = LLB_TCP_ACK"

text \<open>Which segments a history ends with: a SYN with number \<open>a\<close>; after it a SYN-ACK with number \<open>b\<close> that
  acknowledges it; after that an ACK of \<open>b\<close>.\<close>

definition seen_syn :: "u32 \<Rightarrow> seg list \<Rightarrow> bool" where
  "seen_syn a es \<longleftrightarrow> (\<exists>p fl x q. es = p @ Seg CT_DIR_IN fl a x # q \<and> syn fl)"

definition seen_syn_ack :: "u32 \<Rightarrow> u32 \<Rightarrow> seg list \<Rightarrow> bool" where
  "seen_syn_ack a b es \<longleftrightarrow> (\<exists>p fl q. es = p @ Seg CT_DIR_OUT fl b (a + 1) # q \<and> syn_ack fl \<and> seen_syn a p)"

definition handshake :: "seg list \<Rightarrow> bool" where
  "handshake es \<longleftrightarrow> (\<exists>p fl a b c q. es = p @ Seg CT_DIR_IN fl c (b + 1) # q \<and> ack_set fl \<and> seen_syn_ack a b p)"

lemma seen_later: "seen_syn_ack a b es \<Longrightarrow> seen_syn_ack a b (es @ [e])"
  unfolding seen_syn_ack_def by (metis append.assoc append_Cons)

lemma seen_now:
  "syn fl \<Longrightarrow> seen_syn a (es @ [Seg CT_DIR_IN fl a x])"
  "syn_ack fl \<Longrightarrow> seen_syn a es \<Longrightarrow> seen_syn_ack a b (es @ [Seg CT_DIR_OUT fl b (a + 1)])"
  "ack_set fl \<Longrightarrow> seen_syn_ack a b es \<Longrightarrow> handshake (es @ [Seg CT_DIR_IN fl c (b + 1)])"
  unfolding seen_syn_def seen_syn_ack_def handshake_def by blast+

lemma tcp_ne: "CT_TCP_SS \<noteq> CT_TCP_CLOSED" "CT_TCP_SA \<noteq> CT_TCP_CLOSED" "CT_TCP_SA \<noteq> CT_TCP_SS" "CT_TCP_EST \<noteq> CT_TCP_CLOSED"
  "CT_TCP_EST \<noteq> CT_TCP_SS" "CT_TCP_EST \<noteq> CT_TCP_SA" "CT_TCP_ERR \<notin> tcp_open_states" "CT_TCP_CW \<notin> tcp_open_states"
  by (simp_all add: tcp_state_defs tcp_open_states_def)

lemma switch_SS:
  assumes "tcp_switch fl sq ack d False ts = (ts', n)" and "n \<in> tcp_open_states" and "t_state ts = CT_TCP_SS"
  shows "ts' = on_cts d (\<lambda>x. x\<lparr>seq := sq\<rparr>) ts \<and> (d = CT_DIR_IN \<and> syn fl \<and> n = CT_TCP_SS \<or>
    d = CT_DIR_OUT \<and> syn_ack fl \<and> ack = seq (tcp_cts ts CT_DIR_IN) + 1 \<and> n = CT_TCP_SA)"
  using assms unfolding tcp_switch_def Let_def
  by (cases d) (auto simp: tcp_ne syn_def syn_ack_def split: if_splits)

lemma switch_SA:
  assumes "tcp_switch fl sq ack d False ts = (ts', n)" and "n \<in> tcp_open_states" and "t_state ts = CT_TCP_SA"
  shows "d = CT_DIR_OUT \<and> ts' = ts \<and> n = CT_TCP_SA \<or>
    d = CT_DIR_IN \<and> syn fl \<and> n = CT_TCP_SS \<and> ts' = on_cts d (\<lambda>x. x\<lparr>seq := sq\<rparr>) ts \<or>
    d = CT_DIR_IN \<and> ack_set fl \<and> ack = seq (tcp_cts ts CT_DIR_OUT) + 1 \<and> n = CT_TCP_EST"
  using assms unfolding tcp_switch_def Let_def
  by (cases d) (auto simp: tcp_ne syn_def ack_set_def split: if_splits)

lemma switch_fresh:
  assumes "tcp_switch fl sq ack CT_DIR_IN False tcp0 = (ts, n)" and "n \<in> tcp_open_states"
  shows "syn fl \<and> n = CT_TCP_SS \<and> ts = on_cts CT_DIR_IN (\<lambda>x. x\<lparr>seq := sq\<rparr>) tcp0"
proof -
  have "\<not> CT_TCP_INIT_ACK_THRESHOLD \<le> init_acks (tcp_cts tcp0 d)" "t_state tcp0 = CT_TCP_CLOSED" for d
    by (simp_all add: tcp0_def pinfd0_def CT_TCP_INIT_ACK_THRESHOLD_def CT_TCP_CLOSED_def)
  then show ?thesis using assms unfolding tcp_switch_def Let_def
    by (auto simp: tcp_ne syn_def split: if_splits)
qed

lemma cts_simps [simp]:
  "tcp_cts (on_cts d f ts) d' = (if d' = d then f (tcp_cts ts d) else tcp_cts ts d')"
  "tcp_cts (set_tstate n ts) = tcp_cts ts"
  by (simp_all add: on_cts_def set_tstate_def)

lemma tcp_open_inv:
  assumes "tcp_open es ts"
  shows "t_state ts = CT_TCP_SS \<and> seen_syn (seq (tcp_cts ts CT_DIR_IN)) es \<or>
    t_state ts = CT_TCP_SA \<and> seen_syn_ack (seq (tcp_cts ts CT_DIR_IN)) (seq (tcp_cts ts CT_DIR_OUT)) es \<or>
    t_state ts = CT_TCP_EST \<and> handshake es"
  using assms
proof induction
  case (first fl sq ack ts n)
  then show ?case using switch_fresh [OF first(1,2)] seen_now(1) [of fl sq "[]"] by simp
next
  case (further es ts fl sq ack d ts' n)
  from further.IH further.hyps(2) consider
    "t_state ts = CT_TCP_SS" "seen_syn (seq (tcp_cts ts CT_DIR_IN)) es" |
    "t_state ts = CT_TCP_SA" "seen_syn_ack (seq (tcp_cts ts CT_DIR_IN)) (seq (tcp_cts ts CT_DIR_OUT)) es"
    by blast
  then show ?case
  proof cases
    case 1
    from switch_SS [OF further.hyps(3,4) 1(1)] show ?thesis
    proof (elim conjE disjE)
      assume "d = CT_DIR_IN" "syn fl" "n = CT_TCP_SS" "ts' = on_cts d (\<lambda>x. x\<lparr>seq := sq\<rparr>) ts"
      then show ?thesis by (simp add: seen_now)
    next
      assume "d = CT_DIR_OUT" "syn_ack fl" "ack = seq (tcp_cts ts CT_DIR_IN) + 1" "n = CT_TCP_SA"
        "ts' = on_cts d (\<lambda>x. x\<lparr>seq := sq\<rparr>) ts"
      then show ?thesis using 1(2) by (simp add: seen_now)
    qed
  next
    case 2
    from switch_SA [OF further.hyps(3,4) 2(1)] show ?thesis
    proof (elim conjE disjE)
      assume "d = CT_DIR_OUT" "ts' = ts" "n = CT_TCP_SA"
      then show ?thesis using 2(2) by (simp add: seen_later)
    next
      assume "d = CT_DIR_IN" "syn fl" "n = CT_TCP_SS" "ts' = on_cts d (\<lambda>x. x\<lparr>seq := sq\<rparr>) ts"
      then show ?thesis by (simp add: seen_now)
    next
      assume "d = CT_DIR_IN" "ack_set fl" "ack = seq (tcp_cts ts CT_DIR_OUT) + 1" "n = CT_TCP_EST"
      then show ?thesis using 2(2) by (auto intro: seen_now(3))
    qed
  qed
qed

text \<open>C10: A TCP connection is established only by a three-way handshake: if the segments an entry has seen since
  it was created lead it to the state EST for the first time (and the connection is not one of direct server
  return), they contain a SYN of the client, after it a SYN-ACK of the server that acknowledges the number of
  that SYN, and after that an ACK of the client that acknowledges the number of that SYN-ACK.\<close>

theorem tcp_established_handshake:
  assumes "tcp_open es ts" and "t_state ts = CT_TCP_EST"
  shows "handshake es"
  using tcp_open_inv [OF assms(1)] assms(2) tcp_ne by auto

section \<open>The two entries of a connection\<close>

definition ct_xkey :: "xfi \<Rightarrow> ct_state \<Rightarrow> dp_ct_key" where
  "ct_xkey xf s = fst (dp_ct_proto_xfk_init (ct_key xf) (ct_xi xf (ctd_xi (ctd (the (xctk s 0)))))
     (ct_xxi0 (ctd_xi (ctd (the (xctk s 1))))))"

text \<open>The states both entries record for the protocol.\<close>

definition same_state :: "u8 \<Rightarrow> ct_pinf \<Rightarrow> ct_pinf \<Rightarrow> bool" where
  "same_state p q r \<longleftrightarrow> (if p = IPPROTO_TCP then t_state (pi_t q) = t_state (pi_t r)
     else if p = IPPROTO_UDP then u_state (pi_u q) = u_state (pi_u r)
     else if p = IPPROTO_SCTP then s_state (pi_s q) = s_state (pi_s r)
     else i_state (pi_i q) = i_state (pi_i r))"

lemma same_state_sym: "same_state p q r = same_state p r q"
  by (auto simp: same_state_def)

lemma ct_new_other:
  "k \<noteq> key \<Longrightarrow> k \<noteq> xkey \<Longrightarrow> ct_map (ct_new room xf key xkey x xx a b s) k = ct_map s k"
  using ct_new_map [of room xf key xkey x xx a b s] by (elim exE conjE) (simp add: ct_update_def)

lemma ct_new_both:
  assumes "\<And>m k. room m k"
  shows "\<exists>y. ct_map (ct_new room xf key xkey x xx a b s) key = Some y"
    "\<exists>y. ct_map (ct_new room xf key xkey x xx a b s) xkey = Some y"
  using ct_new_map [of room xf key xkey x xx a b s] assms by (elim exE conjE; simp add: ct_update_def)+

lemma ct_open_map:
  assumes "ct_open room xf adat axdat s = (xkey, x, s')"
  shows "k \<noteq> ct_key xf \<Longrightarrow> k \<noteq> xkey \<Longrightarrow> ct_map s' k = ct_map s k"
    and "(\<And>m k. room m k) \<Longrightarrow> ct_map s' (ct_key xf) \<noteq> None \<and> ct_map s' xkey \<noteq> None"
  using assms unfolding ct_open_def Let_def
  by (auto simp: ct_new_other intro: ct_new_both split: prod.splits if_splits)

lemma ct_open_xkey:
  "ct_open room xf (the (xctk s 0)) (the (xctk s 1)) s = (xkey, x, s') \<Longrightarrow> xkey = ct_xkey xf s"
  by (auto simp: ct_open_def ct_xkey_def Let_def split: prod.splits)

lemma pi_on [simp]:
  "pi (ctd (on_t f a)) = (pi (ctd a))\<lparr>pi_t := f (pi_t (pi (ctd a)))\<rparr>"
  "pi (ctd (on_u g a)) = (pi (ctd a))\<lparr>pi_u := g (pi_u (pi (ctd a)))\<rparr>"
  "pi (ctd (on_i h a)) = (pi (ctd a))\<lparr>pi_i := h (pi_i (pi (ctd a)))\<rparr>"
  "pi (ctd (on_s j a)) = (pi (ctd a))\<lparr>pi_s := j (pi_s (pi (ctd a)))\<rparr>"
  "pi (ctd (count_pb n a)) = pi (ctd a)"
  by (simp_all add: on_defs)

lemma ct_sm_same:
  assumes "dp_ct_sm data xf at xt dir m = Some (r, xf', m')" and "m at \<noteq> None" and "m xt \<noteq> None"
    and "pm_l4_off (pm xf) \<noteq> 0" and "tracked_proto (nw_proto (l34m xf))" and "r \<noteq> CT_SMR_ERR"
  shows "same_state (nw_proto (l34m xf)) (pi (ctd (ct_at m' at))) (pi (ctd (ct_at m' xt)))"
proof -
  have "wp (dp_ct_sm data xf at xt dir m) (\<lambda>(r, xf', m'). r \<noteq> CT_SMR_ERR \<longrightarrow>
    same_state (nw_proto (l34m xf)) (pi (ctd (ct_at m' at))) (pi (ctd (ct_at m' xt))))"
    unfolding dp_ct_sm_def dp_ct_tcp_sm_def dp_ct_udp_sm_def dp_ct_icmp_sm_def dp_ct_icmp6_sm_def icmp_sm_def
      dp_ct_sctp_sm_def Let_def using assms(2-5)
    by (auto simp: wp_simps ct_at_mod same_state_def proto_defs CT_SMR_ERR_def tracked_proto_def
        intro!: wpI [OF sctp_switch_safe] split: prod.splits)
  then show ?thesis using assms(1,6) by (auto simp: wp_def)
qed

lemma ct_finish_effect:
  shows "smr = CT_SMR_ERR \<or> smr = CT_SMR_CTD \<Longrightarrow> ct_finish smr x key xkey m = (m(xkey := None))(key := None)"
    and "smr \<noteq> CT_SMR_ERR \<Longrightarrow> smr \<noteq> CT_SMR_CTD \<Longrightarrow> m key \<noteq> None \<Longrightarrow> m xkey \<noteq> None \<Longrightarrow>
      ct_frame key xkey m (ct_finish smr x key xkey m) \<and>
      (\<forall>k. pi (ctd (ct_at (ct_finish smr x key xkey m) k)) = pi (ctd (ct_at m k)))"
  by (auto simp: ct_finish_def smr_defs Let_def ct_at_mod)

lemma ct_track_effect:
  assumes "ct_track now data xf key xkey x m = Some (r, xf', m')" and "m key \<noteq> None" and "m xkey \<noteq> None"
    and "pm_l4_off (pm xf) \<noteq> 0" and "tracked_proto (nw_proto (l34m xf))"
  shows "(\<forall>k. k \<noteq> key \<longrightarrow> k \<noteq> xkey \<longrightarrow> m' k = m k) \<and>
    (if r = CT_SMR_ERR \<or> r = CT_SMR_CTD then m' key = None \<and> m' xkey = None
     else m' key \<noteq> None \<and> m' xkey \<noteq> None \<and>
       same_state (nw_proto (l34m xf)) (pi (ctd (ct_at m' key))) (pi (ctd (ct_at m' xkey))))"
proof -
  let ?m = "ct_mod xkey (\<lambda>a. a\<lparr>lts := now\<rparr>) (ct_mod key (\<lambda>a. a\<lparr>lts := now\<rparr>) m)"
  obtain at xt dir m1 where d: "dp_ct_sm data xf at xt dir ?m = Some (r, xf', m1)"
      "at = key \<and> xt = xkey \<or> at = xkey \<and> xt = key" "m' = ct_finish r x key xkey m1"
    using assms(1-3) unfolding ct_track_def Let_def by (auto split: if_splits simp: Option.bind_eq_Some_conv)
  have f: "ct_frame key xkey m m1"
    using ct_sm_frame [OF d(1)] d(2) by (auto simp: ct_frame_def)
  then have p: "m1 key \<noteq> None" "m1 xkey \<noteq> None" using assms(2,3) by (simp_all add: ct_frame_def del: not_None_eq)
  show ?thesis
  proof (cases "r = CT_SMR_ERR \<or> r = CT_SMR_CTD")
    case True
    then show ?thesis using f by (simp add: d(3) ct_finish_effect(1) [OF True] ct_frame_def)
  next
    case False
    then have r: "r \<noteq> CT_SMR_ERR" "r \<noteq> CT_SMR_CTD" by simp_all
    have "?m at \<noteq> None" "?m xt \<noteq> None" using d(2) assms(2,3) by (auto simp del: not_None_eq)
    then have "same_state (nw_proto (l34m xf)) (pi (ctd (ct_at m1 key))) (pi (ctd (ct_at m1 xkey)))"
      using ct_sm_same [OF d(1) _ _ assms(4,5) r(1)] d(2) same_state_sym by metis
    then show ?thesis using ct_finish_effect(2) [OF r p, of x] f p r
      by (simp add: d(3) ct_frame_def del: not_None_eq)
  qed
qed


section \<open>Replies\<close>

text \<open>What each kind of translation makes of a key, and the translation of the replies.\<close>

lemma xfk_flags [simp]:
  "nat_flags (fst (snd (xfk_dst key t))) = nat_flags (fst (snd t))"
  "nat_flags (fst (snd (xfk_src key t))) = nat_flags (fst (snd t))"
  "nat_flags (fst (snd (xfk_hdst key t))) = nat_flags (fst (snd t))"
  "nat_flags (fst (snd (xfk_hsrc key t))) = nat_flags (fst (snd t))"
  by (cases t, simp add: xfk_dst_def xfk_src_def xfk_hdst_def xfk_hsrc_def Let_def)+

lemma xfk_kinds:
  assumes "dsr x = 0"
  shows "nat_flags x = LLB_NAT_DST \<Longrightarrow> dp_ct_proto_xfk_init key x xx = xfk_dst key (xfk_swap key, x, xx)"
    and "nat_flags x = LLB_NAT_SRC \<Longrightarrow> dp_ct_proto_xfk_init key x xx = xfk_src key (xfk_swap key, x, xx)"
    and "nat_flags x = LLB_NAT_HDST \<Longrightarrow> dp_ct_proto_xfk_init key x xx = xfk_hdst key (xfk_swap key, x, xx)"
    and "nat_flags x = LLB_NAT_HSRC \<Longrightarrow> dp_ct_proto_xfk_init key x xx = xfk_hsrc key (xfk_swap key, x, xx)"
    and "nat_flags x = 0 \<Longrightarrow> dp_ct_proto_xfk_init key x xx = (xfk_swap key, x, xx)"
  using assms by (simp_all add: dp_ct_proto_xfk_init_def Let_def on_flag_def nat_flag_defs)

lemma xfk_fst:
  "fst (xfk_dst key (xfk_swap key, x, xx)) = \<lparr>daddr = (if DP_XADDR_ISZR (nat_rip x) then saddr key else nat_rip x),
     saddr = nat_xip x, ct_sport = (if l4proto key \<noteq> IPPROTO_ICMP \<and> nat_xport x \<noteq> 0 then nat_xport x else ct_dport key),
     ct_dport = ct_sport key, zone = zone key, l4proto = l4proto key, v6 = nv6 x\<rparr>"
  "fst (xfk_src key (xfk_swap key, x, xx)) = \<lparr>daddr = nat_xip x,
     saddr = (if DP_XADDR_ISZR (nat_rip x) then daddr key else nat_rip x), ct_sport = ct_dport key,
     ct_dport = (if l4proto key \<noteq> IPPROTO_ICMP \<and> nat_xport x \<noteq> 0 then nat_xport x else ct_sport key),
     zone = zone key, l4proto = l4proto key, v6 = nv6 x\<rparr>"
  "fst (xfk_hdst key (xfk_swap key, x, xx)) = \<lparr>daddr = daddr key, saddr = saddr key,
     ct_sport = (if l4proto key \<noteq> IPPROTO_ICMP \<and> nat_xport x \<noteq> 0 then nat_xport x else ct_dport key),
     ct_dport = ct_sport key, zone = zone key, l4proto = l4proto key, v6 = v6 key\<rparr>"
  "fst (xfk_hsrc key (xfk_swap key, x, xx)) = \<lparr>daddr = daddr key, saddr = saddr key, ct_sport = ct_dport key,
     ct_dport = (if l4proto key \<noteq> IPPROTO_ICMP \<and> nat_xport x \<noteq> 0 then nat_xport x else ct_sport key),
     zone = zone key, l4proto = l4proto key, v6 = v6 key\<rparr>"
  by (simp_all add: xfk_swap_def xfk_dst_def xfk_src_def xfk_hdst_def xfk_hsrc_def Let_def)

lemma xfk_back:
  "snd (snd (xfk_dst key (xk, x, xx))) = xx\<lparr>nat_flags := LLB_NAT_SRC, nv6 := v6 key, nat_xip := daddr key,
     nat_rip := (if DP_XADDR_ISZR (nat_rip x) then nat_rip xx else saddr key),
     nat_xport := (if l4proto key \<noteq> IPPROTO_ICMP then ct_dport key else nat_xport xx)\<rparr>"
  "snd (snd (xfk_src key (xk, x, xx))) = xx\<lparr>nat_flags := LLB_NAT_DST, nv6 := v6 key, nat_xip := saddr key,
     nat_rip := (if DP_XADDR_ISZR (nat_rip x) then nat_rip xx else daddr key),
     nat_xport := (if l4proto key \<noteq> IPPROTO_ICMP then ct_sport key else nat_xport xx)\<rparr>"
  "snd (snd (xfk_hdst key (xk, x, xx))) = xx\<lparr>nat_flags := LLB_NAT_HSRC, nv6 := v6 key, nat_xip := XADDR0,
     nat_xport := (if l4proto key \<noteq> IPPROTO_ICMP then ct_dport key else nat_xport xx)\<rparr>"
  "snd (snd (xfk_hsrc key (xk, x, xx))) = xx\<lparr>nat_flags := LLB_NAT_HDST, nv6 := v6 key, nat_xip := XADDR0,
     nat_xport := (if l4proto key \<noteq> IPPROTO_ICMP then ct_sport key else nat_xport xx)\<rparr>"
  by (simp_all add: xfk_dst_def xfk_src_def xfk_hdst_def xfk_hsrc_def Let_def)

lemma ct_xi_fields:
  "nat_xip (ct_xi xf x) = nm_nxip (nm xf)" "nat_rip (ct_xi xf x) = nm_nrip (nm xf)"
  "nat_xport (ct_xi xf x) = nm_nxport (nm xf)" "nv6 (ct_xi xf x) = nm_nv6 (nm xf)" "dsr (ct_xi xf x) = nm_dsr (nm xf)"
  "pm_nf (pm xf) = LLB_NAT_DST \<Longrightarrow> nat_flags (ct_xi xf x) = (if nm_nxip (nm xf) = XADDR0 then LLB_NAT_HDST else LLB_NAT_DST)"
  "pm_nf (pm xf) = LLB_NAT_SRC \<Longrightarrow> nat_flags (ct_xi xf x) = (if nm_nxip (nm xf) = XADDR0 then LLB_NAT_HSRC else LLB_NAT_SRC)"
  by (simp_all add: ct_xi_def Let_def nat_flag_defs DP_XADDR_ISZR_def XADDR0_def)

text \<open>The metadata of a reply after the entry of its direction has been looked up and its translation set.\<close>

definition reply_xf :: "xfi \<Rightarrow> dp_ct_tact \<Rightarrow> xfi" where
  "reply_xf reply e = dp_pipe_set_nat reply (nat_act e) (act_type (ca e) = DP_SET_SNAT)"

lemma reply_fields:
  fixes xf xx a ci v reply
  defines "e \<equiv> new_entry xf v ci xx a"
  assumes "nat_flags xx \<noteq> 0"
  shows "nm_nxip (nm (reply_xf reply e)) = nat_xip xx" "nm_nrip (nm (reply_xf reply e)) = nat_rip xx"
    "nm_nxport (nm (reply_xf reply e)) = nat_xport xx" "nm_nv6 (nm (reply_xf reply e)) = (if v \<noteq> 0 then 1 else 0)"
    "nm_dsr (nm (reply_xf reply e)) = nm_dsr (nm xf)"
    "pm_nf (pm (reply_xf reply e)) = (if nat_flags xx AND (LLB_NAT_DST OR LLB_NAT_HDST) \<noteq> 0 then LLB_NAT_DST else LLB_NAT_SRC)"
    "ct_key (reply_xf reply e) = ct_key reply"
  using assms(2) by (simp_all add: e_def reply_xf_def dp_pipe_set_nat_def new_entry_def Let_def dp_set_defs ct_key_def is_v6_def)

definition reply_ok :: "xfi \<Rightarrow> bool" where
  "reply_ok xf \<longleftrightarrow> nm_dsr (nm xf) = 0 \<and> pm_nf (pm xf) \<in> {LLB_NAT_DST, LLB_NAT_SRC} \<and>
     l34_daddr (l34m xf) \<noteq> XADDR0 \<and> l34_saddr (l34m xf) \<noteq> XADDR0 \<and>
     (nw_proto (l34m xf) = IPPROTO_ICMP \<or> l34_source (l34m xf) \<noteq> 0 \<and> l34_dest (l34m xf) \<noteq> 0)"

lemma ct_key_v6: "(if v6 (ct_key xf) \<noteq> 0 then 1 else 0) = v6 (ct_key xf)"
  by (simp add: ct_key_def)

text \<open>C11: Replies find their way back: if a packet is translated (to another destination or source, or by the host
  variants for the address 0), then the reply of the other side, translated by the entry that was stored
  for its direction, has the original key as its reverse key.  So both directions of a connection always
  use the same pair of entries.\<close>

theorem reply_key_roundtrip:
  assumes "reply_ok xf" and "dp_ct_proto_xfk_init (ct_key xf) (ct_xi xf x0) (ct_xxi0 xx0) = (xkey, x, xx)"
    and "e = new_entry xf (if v6 (ct_key xf) \<noteq> 0 then 1 else 0) ci xx a" and "ct_key reply = xkey"
  shows "fst (dp_ct_proto_xfk_init (ct_key (reply_xf reply e)) (ct_xi (reply_xf reply e) y0) (ct_xxi0 yy0)) = ct_key xf"
proof -
  let ?xf2 = "reply_xf reply e"
  have a: "l34_daddr (l34m xf) \<noteq> XADDR0" "l34_saddr (l34m xf) \<noteq> XADDR0" "nm_dsr (nm xf) = 0"
    "nw_proto (l34m xf) \<noteq> IPPROTO_ICMP \<Longrightarrow> l34_source (l34m xf) \<noteq> 0 \<and> l34_dest (l34m xf) \<noteq> 0"
    using assms(1) by (auto simp: reply_ok_def)
  have x: "xkey = fst (dp_ct_proto_xfk_init (ct_key xf) (ct_xi xf x0) (ct_xxi0 xx0))"
    "xx = snd (snd (dp_ct_proto_xfk_init (ct_key xf) (ct_xi xf x0) (ct_xxi0 xx0)))"
    using assms(2) by simp_all
  have d: "dsr (ct_xi xf x0) = 0" by (simp add: ct_xi_fields a)
  note r = reply_fields [of xx reply xf "v6 (ct_key xf)" ci a, folded assms(3) [unfolded ct_key_v6]]
  have d2: "nat_flags xx \<noteq> 0 \<Longrightarrow> dsr (ct_xi ?xf2 y0) = 0" by (simp add: ct_xi_fields r a)
  note key = ct_key_def [of xf]
  have z: "DP_XADDR_ISZR t \<longleftrightarrow> t = XADDR0" for t by (simp add: DP_XADDR_ISZR_def XADDR0_def)
  consider "pm_nf (pm xf) = LLB_NAT_DST" "nm_nxip (nm xf) \<noteq> XADDR0" | "pm_nf (pm xf) = LLB_NAT_SRC" "nm_nxip (nm xf) \<noteq> XADDR0"
    | "pm_nf (pm xf) = LLB_NAT_DST" "nm_nxip (nm xf) = XADDR0" | "pm_nf (pm xf) = LLB_NAT_SRC" "nm_nxip (nm xf) = XADDR0"
    using assms(1) by (auto simp: reply_ok_def)
  then show ?thesis
  proof cases
    case 1
    have fl: "nat_flags (ct_xi xf x0) = LLB_NAT_DST" by (simp add: ct_xi_fields 1)
    note k = x [unfolded xfk_kinds(1) [OF d fl]]
    have n: "nat_flags xx \<noteq> 0" by (simp add: k(2) xfk_back nat_flag_defs)
    have "pm_nf (pm ?xf2) = LLB_NAT_SRC" by (simp add: r [OF n] k(2) xfk_back nat_flag_defs)
    then have "nat_flags (ct_xi ?xf2 y0) = LLB_NAT_SRC" using a by (simp add: ct_xi_fields r [OF n] k(2) xfk_back key)
    then show ?thesis using a by (simp add: r(7) [OF n] assms(4) xfk_kinds(2) [OF d2 [OF n]] xfk_fst ct_xi_fields r [OF n] z k
        xfk_back key ct_xxi0_def)
  next
    case 2
    have fl: "nat_flags (ct_xi xf x0) = LLB_NAT_SRC" by (simp add: ct_xi_fields 2)
    note k = x [unfolded xfk_kinds(2) [OF d fl]]
    have n: "nat_flags xx \<noteq> 0" by (simp add: k(2) xfk_back nat_flag_defs)
    have "pm_nf (pm ?xf2) = LLB_NAT_DST" by (simp add: r [OF n] k(2) xfk_back nat_flag_defs)
    then have "nat_flags (ct_xi ?xf2 y0) = LLB_NAT_DST" using a by (simp add: ct_xi_fields r [OF n] k(2) xfk_back key)
    then show ?thesis using a by (simp add: r(7) [OF n] assms(4) xfk_kinds(1) [OF d2 [OF n]] xfk_fst ct_xi_fields r [OF n] z k
        xfk_back key ct_xxi0_def)
  next
    case 3
    have fl: "nat_flags (ct_xi xf x0) = LLB_NAT_HDST" by (simp add: ct_xi_fields 3)
    note k = x [unfolded xfk_kinds(3) [OF d fl]]
    have n: "nat_flags xx \<noteq> 0" by (simp add: k(2) xfk_back nat_flag_defs)
    have "pm_nf (pm ?xf2) = LLB_NAT_SRC" by (simp add: r [OF n] k(2) xfk_back nat_flag_defs)
    then have "nat_flags (ct_xi ?xf2 y0) = LLB_NAT_HSRC" using a by (simp add: ct_xi_fields r [OF n] k(2) xfk_back key)
    then show ?thesis using a by (simp add: r(7) [OF n] assms(4) xfk_kinds(4) [OF d2 [OF n]] xfk_fst ct_xi_fields r [OF n] z k
        xfk_back key ct_xxi0_def)
  next
    case 4
    have fl: "nat_flags (ct_xi xf x0) = LLB_NAT_HSRC" by (simp add: ct_xi_fields 4)
    note k = x [unfolded xfk_kinds(4) [OF d fl]]
    have n: "nat_flags xx \<noteq> 0" by (simp add: k(2) xfk_back nat_flag_defs)
    have "pm_nf (pm ?xf2) = LLB_NAT_DST" by (simp add: r [OF n] k(2) xfk_back nat_flag_defs)
    then have "nat_flags (ct_xi ?xf2 y0) = LLB_NAT_HDST" using a by (simp add: ct_xi_fields r [OF n] k(2) xfk_back key)
    then show ?thesis using a by (simp add: r(7) [OF n] assms(4) xfk_kinds(3) [OF d2 [OF n]] xfk_fst ct_xi_fields r [OF n] z k
        xfk_back key ct_xxi0_def)
  qed
qed

text \<open>C21: The model of the union is sound and nothing faults: on every packet, however short, \<open>dp_ct_in\<close> returns
  without reading outside of it, and if before only the member of each entry's own protocol was in use, so it
  is after.\<close>

theorem ct_union_typed:
  assumes "all_ct union_ok (ct_map s)"
  shows "\<exists>r xf' s'. dp_ct_in room now data xf s = Some (r, xf', s') \<and> all_ct union_ok (ct_map s')"
proof -
  obtain r xf' s' where d: "dp_ct_in room now data xf s = Some (r, xf', s')" using ct_in_safe by fastforce
  from union.kept [OF assms d] d show ?thesis by blast
qed

section \<open>Established connections\<close>

lemma tcp_est_from:
  assumes "no_acks ts" and "t_state ts \<notin> {CT_TCP_SA, CT_TCP_EST}"
  shows "snd (tcp_switch fl sq ack d False ts) \<in> - {CT_TCP_EST}"
proof -
  have "init_acks (tcp_cts ts d) = 0" for d using assms by (simp add: no_acks_def)
  then have "\<not> CT_TCP_INIT_ACK_THRESHOLD \<le> init_acks (tcp_cts ts d)" for d
    by (simp add: CT_TCP_INIT_ACK_THRESHOLD_def)
  moreover have "CT_TCP_CW \<in> - {CT_TCP_EST}" "CT_TCP_ERR \<in> - {CT_TCP_EST}" "CT_TCP_SS \<in> - {CT_TCP_EST}"
    "CT_TCP_SA \<in> - {CT_TCP_EST}" "CT_TCP_FINI2 \<in> - {CT_TCP_EST}" "CT_TCP_FINI3 \<in> - {CT_TCP_EST}" "0 \<in> - {CT_TCP_EST}"
    by (simp_all add: tcp_state_defs)
  ultimately show ?thesis using assms(2)
    unfolding tcp_switch_def Let_def snd_if snd_conv by simp
qed

lemma tcp_smr_est: "n \<in> insert CT_TCP_CW (insert CT_TCP_ERR tcp_open_states) \<Longrightarrow> tcp_smr n = CT_SMR_EST \<longleftrightarrow> n = CT_TCP_EST"
  by (auto simp: tcp_open_states_def smr_defs)

lemma tcp_sm_result:
  assumes "dp_ct_tcp_sm data xf at xt dir m = Some (r, xf', m')"
  shows "r = CT_SMR_ERR \<or> (\<exists>sq ack ts. r = tcp_smr (snd (tcp_switch (pm_tcp_flags (pm xf)) sq ack dir (nm_dsr (nm xf) \<noteq> 0) ts)) \<and>
    no_acks ts = no_acks (pi_t (pi (ctd (ct_at m at)))) \<and> t_state ts = t_state (pi_t (pi (ctd (ct_at m at)))))"
    (is "?P r")
proof -
  have pre: "no_acks (pi_t (pi (ctd (ct_at (ct_mod k (count_pb n \<circ> on_t (on_cts d (\<lambda>d. d\<lparr>pseq := a, pack := b\<rparr>))) m) at))))
      = no_acks (pi_t (pi (ctd (ct_at m at))))"
    "t_state (pi_t (pi (ctd (ct_at (ct_mod k (count_pb n \<circ> on_t (on_cts d (\<lambda>d. d\<lparr>pseq := a, pack := b\<rparr>))) m) at))))
      = t_state (pi_t (pi (ctd (ct_at m at))))" for k n d a b
    by (cases "k = at"; cases "m at"; simp add: ct_at_def ct_mod_def split: option.splits)+
  have "wp (dp_ct_tcp_sm data xf at xt dir m) (\<lambda>(r, _, _). ?P r)"
    unfolding dp_ct_tcp_sm_def Let_def
    by (simp add: wp_simps CT_SMR_ERR_def split: prod.splits) (metis pre snd_conv)
  then show ?thesis using assms by (auto simp: wp_def)
qed

lemma tcp_sm_est:
  assumes "dp_ct_tcp_sm data xf at xt dir m = Some (CT_SMR_EST, xf', m')" and "no_acks (pi_t (pi (ctd (ct_at m at))))"
    and "nm_dsr (nm xf) = 0"
  shows "t_state (pi_t (pi (ctd (ct_at m at)))) \<in> {CT_TCP_SA, CT_TCP_EST}"
proof -
  obtain sq ack ts where "CT_SMR_EST = tcp_smr (snd (tcp_switch (pm_tcp_flags (pm xf)) sq ack dir False ts))"
      "no_acks ts" "t_state ts = t_state (pi_t (pi (ctd (ct_at m at))))"
    using tcp_sm_result [OF assms(1)] assms(2,3) by (auto simp: smr_defs)
  then show ?thesis using tcp_est_from [of ts] tcp_switch_nstate tcp_smr_est by (metis ComplD singletonI)
qed

lemma ct_open_entry:
  assumes "ct_open room xf adat axdat s = (xkey, x, s')" and "ct_map s' k = Some a"
  shows "ct_map s k = Some a \<or> pi (ctd a) = pinf0"
proof -
  have new: "ct_map s k = Some a \<or> pi (ctd a) = pinf0"
    if "ct_map (ct_new room xf key xkey x xx ad axd s) k = Some a" for key xkey x xx ad axd s
    using ct_new_map [of room xf key xkey x xx ad axd s] that
    by (elim exE conjE) (auto simp: ct_update_def split: if_splits)
  show ?thesis using assms unfolding ct_open_def Let_def by (auto dest: new split: prod.splits if_splits)
qed

lemma ct_at_lts: "pi (ctd (ct_at (ct_mod k (\<lambda>a. a\<lparr>lts := now\<rparr>) m) k')) = pi (ctd (ct_at m k'))"
  by (cases "k' = k"; cases "m k") (simp_all add: ct_at_def ct_mod_def)

lemma ct_at_frag: "pi_t (pi (ctd (ct_at (ct_mod k (on_pi (\<lambda>p. p\<lparr>frag := v\<rparr>)) m) k'))) = pi_t (pi (ctd (ct_at m k')))"
  by (cases "k' = k"; cases "m k") (simp_all add: ct_at_def ct_mod_def on_defs)

lemma ct_track_est:
  assumes "ct_track now data xf key xkey x m = Some (CT_SMR_EST, xf', m')" and "all_ct tcp_live m"
    and "l4proto key = IPPROTO_TCP" and "l4proto xkey = IPPROTO_TCP" and "nw_proto (l34m xf) = IPPROTO_TCP"
    and "nm_dsr (nm xf) = 0"
  shows "\<exists>k\<in>{key, xkey}. \<exists>a. m k = Some a \<and> t_state (pi_t (pi (ctd a))) \<in> {CT_TCP_SA, CT_TCP_EST}"
proof -
  have p: "m key \<noteq> None" "m xkey \<noteq> None" using assms(1) by (auto simp: ct_track_def smr_defs split: if_splits)
  let ?m = "ct_mod xkey (\<lambda>a. a\<lparr>lts := now\<rparr>) (ct_mod key (\<lambda>a. a\<lparr>lts := now\<rparr>) m)"
  obtain at xt dir m1 where d: "dp_ct_sm data xf at xt dir ?m = Some (CT_SMR_EST, xf', m1)" "at = key \<or> at = xkey"
    using assms(1) p unfolding ct_track_def Let_def by (auto split: if_splits simp: Option.bind_eq_Some_conv)
  let ?m2 = "ct_mod at (on_pi (\<lambda>p. p\<lparr>frag := 0\<rparr>)) ?m"
  have t: "dp_ct_tcp_sm data xf at xt dir ?m2 = Some (CT_SMR_EST, xf', m1)"
    using d(1) assms(5) by (auto simp: dp_ct_sm_def smr_defs split: if_splits)
  have e: "pi_t (pi (ctd (ct_at ?m2 at))) = pi_t (pi (ctd (ct_at m at)))" by (simp add: ct_at_frag ct_at_lts)
  obtain a where a: "m at = Some a" using d(2) p by auto
  moreover have "no_acks (pi_t (pi (ctd a)))"
    using assms(2-4) a d(2) by (auto simp: all_ct_def tcp_live_def)
  ultimately have "t_state (pi_t (pi (ctd a))) \<in> {CT_TCP_SA, CT_TCP_EST}"
    using tcp_sm_est [OF t _ assms(6)] unfolding e by (simp add: ct_at_def)
  then show ?thesis using a d(2) by blast
qed


section \<open>UDP\<close>

text \<open>The specification of UDP tracking: what the directions of the packets seen so far say.\<close>

definition udp_spec :: "ct_dir list \<Rightarrow> u16" where
  "udp_spec ds = (if CT_DIR_IN \<in> set ds \<and> CT_DIR_OUT \<in> set ds then CT_UDP_EST
     else if count_list ds CT_DIR_IN > 4 then CT_UDP_UEST else CT_UDP_CNI)"

definition udp_abs :: "ct_dir list \<Rightarrow> ct_udp_pinf" where
  "udp_abs ds = \<lparr>u_state = udp_spec ds, pkts_seen = of_nat (count_list ds CT_DIR_IN),
     rpkts_seen = of_nat (count_list ds CT_DIR_OUT)\<rparr>"

lemma of_nat_u16: "n < 65536 \<Longrightarrow> (of_nat n :: u16) = 0 \<longleftrightarrow> n = 0" "n < 65536 \<Longrightarrow> (4 :: u16) < of_nat n \<longleftrightarrow> 4 < n"
  by (simp_all add: word_unat_eq_iff word_less_nat_alt unat_of_nat)

lemma count_list_len: "count_list xs x \<le> length xs"
  by (induction xs) auto

lemma udp_step:
  assumes "length ds < 65535"
  shows "udp_switch d False (udp_abs ds) = udp_abs (ds @ [d])"
proof -
  have c: "count_list ds d < 65535" for d using count_list_len [of ds d] assms by simp
  have e: "count_list ds d = 0 \<longleftrightarrow> d \<notin> set ds" for d by (simp add: count_list_0_iff)
  have w: "of_nat (count_list ds d) + 1 = (of_nat (count_list ds d + 1) :: u16)" for d by simp
  show ?thesis
    unfolding udp_switch_def udp_abs_def udp_spec_def Let_def
    using c [of CT_DIR_IN] c [of CT_DIR_OUT]
    by (cases d) (auto simp: udp_state_defs CT_UDP_CONN_THRESHOLD_def e w of_nat_u16 simp del: of_nat_add of_nat_Suc)
qed


section \<open>What the state machines get wrong\<close>


text \<open>An ICMP error message leaves no trace in the entry: the flag it sets in the state is overwritten with the
  old state.\<close>

lemma icmp_error_lost:
  assumes "ty \<noteq> request" and "ty \<noteq> reply" and "icmp_switch request reply ef ty sq d is = (is', n)"
  shows "is'\<lparr>i_state := n\<rparr> = is"
  using assms by (auto simp: icmp_switch_def)

text \<open>An SCTP association needs no INIT: in the direction of the first packet every chunk but an error, a shutdown
  or an abort opens one, because the guards test chunk and direction together.\<close>

lemma sctp_opens_without_init:
  assumes "ty \<noteq> SCTP_ERROR" and "ty \<noteq> SCTP_SHUT" and "ty \<noteq> SCTP_ABORT" and "c + 20 \<le> length data"
  shows "\<exists>ss. sctp_switch data vtag c ty CT_DIR_IN False sctp0 = Some (ss, CT_SCTP_INIT, False)"
proof -
  have "wp (sctp_switch data vtag c ty CT_DIR_IN False sctp0) (\<lambda>(ss, n, cut). n = CT_SCTP_INIT \<and> \<not> cut)"
    unfolding sctp_switch_def Let_def using assms by (auto simp: wp_simps sctp0_def CT_SCTP_CLOSED_def)
  then show ?thesis by (auto simp: wp_def)
qed

section \<open>Instances\<close>

definition ct0 :: ct_state where
  "ct0 = \<lparr>ct_map = Map.empty, ct_ctr = [0 \<mapsto> \<lparr>ctr_start = 0, ctr_counter = 0, ctr_entries = 100\<rparr>],
     xctk = [0 \<mapsto> tact0, 1 \<mapsto> tact0]\<rparr>"

definition xf_syn :: xfi where
  "xf_syn = xfi0\<lparr>l34m := (l34m xfi0)\<lparr>nw_proto := IPPROTO_TCP, l34_saddr := (1, 0, 0, 0), l34_daddr := (2, 0, 0, 0),
       l34_source := 1000, l34_dest := 80\<rparr>,
     pm := (pm xfi0)\<lparr>pm_l4_off := 34, pm_tcp_flags := LLB_TCP_SYN, pm_nf := LLB_NAT_DST\<rparr>,
     nm := (nm xfi0)\<lparr>nm_nxip := (3, 0, 0, 0), nm_nxport := 8080\<rparr>\<rparr>"

definition xf_reply :: xfi where
  "xf_reply = xf_syn\<lparr>l34m := (l34m xfi0)\<lparr>nw_proto := IPPROTO_TCP, l34_saddr := (3, 0, 0, 0), l34_daddr := (1, 0, 0, 0),
       l34_source := 8080, l34_dest := 1000\<rparr>\<rparr>"

lemma ct0_run: "\<exists>r xf' s'. dp_ct_in (\<lambda>_ _. True) 5 (replicate 54 0) xf_syn ct0 = Some (r, xf', s')"
  using ct_in_safe [of "\<lambda>_ _. True" 5 "replicate 54 0" xf_syn ct0] by fastforce

lemma ct0_facts: "all_ct P (ct_map ct0)" "xctk ct0 0 \<noteq> None" "xctk ct0 1 \<noteq> None" "nw_proto (l34m xf_syn) = IPPROTO_TCP"
  "nm_dsr (nm xf_syn) = 0" "pm_l4_off (pm xf_syn) \<noteq> 0" "tracked_proto (nw_proto (l34m xf_syn))"
  by (simp_all add: all_ct_def ct0_def xf_syn_def xfi0_def l34m0_def l2m0_def tracked_proto_def)

theorem ct_union_typed_witness:
  "\<exists>r xf' s'. dp_ct_in (\<lambda>_ _. True) 5 (replicate 54 0) xf_syn ct0 = Some (r, xf', s') \<and> all_ct union_ok (ct_map s')"
  by (rule ct_union_typed [OF ct0_facts(1)])



definition hs_segs :: "seg list" where
  "hs_segs = [Seg CT_DIR_IN LLB_TCP_SYN 100 0, Seg CT_DIR_OUT (LLB_TCP_SYN OR LLB_TCP_ACK) 300 101, Seg CT_DIR_IN LLB_TCP_ACK 101 301]"

lemma hs_open: "\<exists>ts. tcp_open hs_segs ts \<and> t_state ts = CT_TCP_EST"
proof -
  let ?t1 = "set_tstate CT_TCP_SS (on_cts CT_DIR_IN (\<lambda>x. x\<lparr>seq := 100\<rparr>) tcp0)"
  let ?t2 = "set_tstate CT_TCP_SA (on_cts CT_DIR_OUT (\<lambda>x. x\<lparr>seq := 300\<rparr>) ?t1)"
  let ?t3 = "set_tstate CT_TCP_EST (on_cts CT_DIR_IN (\<lambda>x. x\<lparr>seq := 101\<rparr>) ?t2)"
  have "tcp_open [Seg CT_DIR_IN LLB_TCP_SYN 100 0] ?t1"
    by (rule tcp_open.first) (simp_all add: tcp_switch_def tcp_flag_defs tcp0_def tcp_state_defs tcp_open_states_def)
  then have "tcp_open ([Seg CT_DIR_IN LLB_TCP_SYN 100 0] @ [Seg CT_DIR_OUT (LLB_TCP_SYN OR LLB_TCP_ACK) 300 101]) ?t2"
    by (rule tcp_open.further) (simp_all add: tcp_switch_def tcp_flag_defs tcp_state_defs tcp_open_states_def)
  then have "tcp_open (([Seg CT_DIR_IN LLB_TCP_SYN 100 0] @ [Seg CT_DIR_OUT (LLB_TCP_SYN OR LLB_TCP_ACK) 300 101]) @
      [Seg CT_DIR_IN LLB_TCP_ACK 101 301]) ?t3"
    by (rule tcp_open.further) (simp_all add: tcp_switch_def tcp_flag_defs tcp_state_defs tcp_open_states_def)
  then show ?thesis by (intro exI [of _ ?t3]) (simp add: hs_segs_def)
qed

theorem tcp_established_handshake_witness: "handshake hs_segs"
  using hs_open tcp_established_handshake by blast

definition syn_xfk :: xfk where
  "syn_xfk = dp_ct_proto_xfk_init (ct_key xf_syn) (ct_xi xf_syn xfrm0) (ct_xxi0 xfrm0)"

definition syn_back :: xfi where
  "syn_back = reply_xf xf_reply (new_entry xf_syn 0 7 (snd (snd syn_xfk)) tact0)"

theorem reply_key_roundtrip_witness:
  "fst (dp_ct_proto_xfk_init (ct_key syn_back) (ct_xi syn_back xfrm0) (ct_xxi0 xfrm0)) = ct_key xf_syn"
proof -
  have n: "pm_nf (pm xf_syn) = LLB_NAT_DST" "nm_nxip (nm xf_syn) = (3, 0, 0, 0)" by (simp_all add: xf_syn_def)
  then have "nat_flags (ct_xi xf_syn xfrm0) = LLB_NAT_DST" "dsr (ct_xi xf_syn xfrm0) = 0"
    by (simp_all add: ct_xi_fields XADDR0_def ct0_facts)
  note f = xfk_kinds(1) [OF this(2,1)]
  have "is_v6 xf_syn = False" "is_v6 xf_reply = False"
    by (simp_all add: is_v6_def xf_reply_def xf_syn_def xfi0_def l34m0_def l2m0_def bswap16_def ETH_P_IPV6_def)
  then have k: "ct_key xf_reply = fst syn_xfk" "v6 (ct_key xf_syn) = 0"
    unfolding syn_xfk_def f xfk_fst
    by (simp_all add: ct_xi_fields ct_key_def xf_reply_def xf_syn_def xfi0_def l34m0_def l2m0_def proto_defs DP_XADDR_ISZR_def XADDR0_def)
  have r: "reply_ok xf_syn" by (simp add: reply_ok_def xf_syn_def xfi0_def l34m0_def l2m0_def XADDR0_def)
  have "dp_ct_proto_xfk_init (ct_key xf_syn) (ct_xi xf_syn xfrm0) (ct_xxi0 xfrm0) =
      (fst syn_xfk, fst (snd syn_xfk), snd (snd syn_xfk))" by (simp add: syn_xfk_def)
  from reply_key_roundtrip [OF r this refl k(1)]
  show ?thesis by (simp add: syn_back_def k(2))
qed


definition ts_fin :: ct_tcp_pinf where "ts_fin = set_tstate CT_TCP_FINI tcp0"


end
