(* ===== verification/Ratelimit.thy ===== *)
theory Ratelimit
  imports Bpf_Env
begin

text \<open>
  The XDP connection limiter, \<open>src/examples/ebpf-ratelimiter-main/ratelimiting_kern.c\<close>.  It lets TCP SYN packets
  pass while the sliding window count of this second and the weighted last second stays below a configured
  rate.  \<open>rl_maps\<close> are its four maps, \<open>xdp_ratelimit\<close> is the program, with the decision for a SYN in
  \<open>rl_decide\<close>.  The clock is the argument \<open>tnow\<close>; whether the kernel has room for a new window in the hash map
  is the argument \<open>room\<close>.  Proved: the program never faults and keeps its counters within the rate (an
  instance of \<open>packet_program\<close>), the bound on accepted connections per second, and how the
  comparison of scaled and unscaled counts makes the limit too strict.
\<close>

section \<open>Definitions\<close>

definition NANO :: u64 where "NANO = 1000000000"
definition MULTIPLIER :: u64 where "MULTIPLIER = 100"
definition TCP_SYN :: u8 where "TCP_SYN = 0x02"
definition TCP_ACK :: u8 where "TCP_ACK = 0x10"

record rl_maps =
  rl_config_map :: "u32 \<rightharpoonup> u64"
  rl_window_map :: "u64 \<rightharpoonup> u64"
  rl_recv_count_map :: "u64 \<rightharpoonup> u64"
  rl_drop_count_map :: "u64 \<rightharpoonup> u64"

text \<open>The counter of the current window is read and stepped through a pointer to 32 bits.\<close>

definition cw_of :: "u64 \<Rightarrow> u32" where
  "cw_of v = ucast v"

definition cw_step :: "u64 \<Rightarrow> u64" where
  "cw_step v = (v AND NOT 0xffffffff) OR ucast (cw_of v + 1)"

definition inc_at :: "'k \<Rightarrow> ('k \<rightharpoonup> u64) \<Rightarrow> ('k \<rightharpoonup> u64)" where
  "inc_at k m = (case m k of None \<Rightarrow> m | Some v \<Rightarrow> m(k \<mapsto> v + 1))"

definition rl_drop :: "rl_maps \<Rightarrow> int \<times> rl_maps" where
  "rl_drop s = (XDP_DROP, s\<lparr>rl_drop_count_map := inc_at 0 (rl_drop_count_map s)\<rparr>)"

definition rl_allow :: "u64 \<Rightarrow> u64 \<Rightarrow> rl_maps \<Rightarrow> int \<times> rl_maps" where
  "rl_allow cw_key cw s = (XDP_PASS, s\<lparr>rl_window_map := (rl_window_map s)(cw_key \<mapsto> cw_step cw)\<rparr>)"

text \<open>The decision on a SYN at time \<open>tnow\<close>.  The window map is a hash map: \<open>room m k\<close> tells whether the kernel
  accepts a new key.\<close>

definition rl_decide ::
  "((u64 \<rightharpoonup> u64) \<Rightarrow> u64 \<Rightarrow> bool) \<Rightarrow> u64 \<Rightarrow> rl_maps \<Rightarrow> int \<times> rl_maps" where
  "rl_decide room tnow s = (case rl_config_map s 0 of
     None \<Rightarrow> (XDP_PASS, s)
   | Some rate \<Rightarrow>
       let cw_key = (tnow div NANO) * NANO;
           pw_key = cw_key - NANO;
           pw_count = rl_window_map s pw_key
       in if rl_recv_count_map s 0 = None \<or> rl_drop_count_map s 0 = None then (XDP_PASS, s)
          else
            let s = s\<lparr>rl_recv_count_map := inc_at 0 (rl_recv_count_map s)\<rparr>;
                s = (if rl_window_map s cw_key = None \<and> room (rl_window_map s) cw_key
                     then s\<lparr>rl_window_map := (rl_window_map s)(cw_key \<mapsto> 0)\<rparr> else s)
            in case rl_window_map s cw_key of
                 None \<Rightarrow> (XDP_PASS, s)
               | Some cw \<Rightarrow>
                   (case pw_count of
                      None \<Rightarrow> if ucast (cw_of cw) \<ge> rate then rl_drop s else rl_allow cw_key cw s
                    | Some pw \<Rightarrow>
                        let pw_weight = MULTIPLIER - ((tnow - cw_key) * MULTIPLIER) div NANO;
                            total_count = pw_weight * pw + ucast (cw_of cw) * MULTIPLIER
                        in if total_count > rate then rl_drop s else rl_allow cw_key cw s))"

definition xdp_ratelimit ::
  "((u64 \<rightharpoonup> u64) \<Rightarrow> u64 \<Rightarrow> bool) \<Rightarrow> u64 \<Rightarrow> packet \<Rightarrow> rl_maps \<Rightarrow> (int \<times> rl_maps) option" where
  "xdp_ratelimit room tnow data s =
     (if 14 > length data then Some (XDP_DROP, s)
      else do {
        eth_type \<leftarrow> ld16 data 12;
        if bswap16 eth_type \<noteq> ETH_P_IP then Some (XDP_PASS, s)
        else if 14 + 20 > length data then Some (XDP_PASS, s)
        else do {
          protocol \<leftarrow> ld8 data (14 + 9);
          if protocol \<noteq> IPPROTO_TCP then Some (XDP_PASS, s)
          else if 34 + 20 > length data then Some (XDP_PASS, s)
          else do {
            tcp_flags \<leftarrow> ld8 data (34 + 13);
            if tcp_flags AND TCP_SYN = 0 then Some (XDP_PASS, s)
            else if tcp_flags AND TCP_ACK \<noteq> 0 then Some (XDP_PASS, s)
            else Some (rl_decide room tnow s) } } })"

definition xdp_ratelimiting ::
  "((u64 \<rightharpoonup> u64) \<Rightarrow> u64 \<Rightarrow> bool) \<Rightarrow> u64 \<Rightarrow> packet \<Rightarrow> rl_maps \<Rightarrow> (int \<times> rl_maps) option" where
  "xdp_ratelimiting room tnow data s = do {
     (rc, s) \<leftarrow> xdp_ratelimit room tnow data s;
     Some (if rc = XDP_DROP then XDP_DROP else XDP_PASS, s) }"

section \<open>Which packets are limited\<close>

definition is_syn :: "packet \<Rightarrow> bool" where
  "is_syn p \<longleftrightarrow> 54 \<le> length p \<and> u16_at p 12 = bswap16 ETH_P_IP \<and> p ! 23 = IPPROTO_TCP \<and>
     p ! 47 AND TCP_SYN \<noteq> 0 \<and> p ! 47 AND TCP_ACK = 0"

lemma ratelimit_cases:
  "xdp_ratelimit room tnow p s =
     Some (if is_syn p then rl_decide room tnow s else (if length p < 14 then XDP_DROP else XDP_PASS, s))"
proof -
  have "wp (xdp_ratelimit room tnow p s)
    (\<lambda>r. r = (if is_syn p then rl_decide room tnow s else (if length p < 14 then XDP_DROP else XDP_PASS, s)))"
    unfolding xdp_ratelimit_def by (auto simp: wp_simps is_syn_def bswap16_eq)
  then show ?thesis by (auto simp: wp_def)
qed

section \<open>The bound\<close>

abbreviation window_of :: "u64 \<Rightarrow> u64" where
  "window_of t \<equiv> (t div NANO) * NANO"

text \<open>What a loaded limiter with a rate looks like: no counter of a window is above the rate (or 1).\<close>

definition rl_ok :: "u64 \<Rightarrow> rl_maps \<Rightarrow> bool" where
  "rl_ok rate s \<longleftrightarrow> rl_config_map s 0 = Some rate \<and> rl_recv_count_map s 0 \<noteq> None \<and> rl_drop_count_map s 0 \<noteq> None \<and>
     unat rate < 2 ^ 32 - 1 \<and> (\<forall>k v. rl_window_map s k = Some v \<longrightarrow> unat v \<le> max 1 (unat rate))"

definition cnt :: "rl_maps \<Rightarrow> u64 \<Rightarrow> nat" where
  "cnt s w = (case rl_window_map s w of None \<Rightarrow> 0 | Some v \<Rightarrow> unat v)"

lemma cw_small:
  assumes "unat v < 2 ^ 32 - 1"
  shows "unat (cw_of v) = unat v" "unat (cw_step v) = Suc (unat v)" "unat (ucast (cw_of v) :: u64) = unat v"
proof -
  show c: "unat (cw_of v) = unat v" using assms by (simp add: cw_of_def unat_ucast_mod)
  then show "unat (ucast (cw_of v) :: u64) = unat v" using assms by (simp add: unat_ucast_mod)
  have "v AND NOT (mask 32) = 0"
  proof -
    have "unat v < 2 ^ 32" using assms by simp
    then have "take_bit 32 (unat v) = unat v" by (simp add: take_bit_eq_mod)
    then have "unat (take_bit 32 v) = unat v" by (simp only: unsigned_take_bit_eq)
    then have "take_bit 32 v = v" by (simp only: word_unat_eq_iff)
    then have "v = v AND mask 32" by (simp add: take_bit_eq_mask)
    then show ?thesis by (metis and.assoc bit.conj_cancel_right and_zero_eq)
  qed
  moreover have "(0xffffffff :: u64) = mask 32" by (simp add: mask_eq_exp_minus_1)
  ultimately have "cw_step v = ucast (cw_of v + 1)" by (simp add: cw_step_def)
  moreover have "unat (cw_of v + 1) = Suc (unat v)" using c assms by (simp add: unat_word_ariths)
  ultimately show "unat (cw_step v) = Suc (unat v)" using assms by (simp add: unat_ucast_mod)
qed

lemma pw_weight_bounds:
  "unat (MULTIPLIER - ((t - window_of t) * MULTIPLIER) div NANO) \<le> 100"
proof -
  have "t - window_of t = t mod NANO" by (rule minus_div_mult_eq_mod)
  moreover have m: "unat (t mod NANO) < 1000000000" by (simp add: unat_mod_distrib NANO_def)
  ultimately have "unat ((t - window_of t) * MULTIPLIER) = unat (t mod NANO) * 100"
    by (simp add: unat_word_ariths MULTIPLIER_def)
  then have "unat (((t - window_of t) * MULTIPLIER) div NANO) = (unat (t mod NANO) * 100) div 1000000000"
    by (simp add: unat_div NANO_def)
  also have "\<dots> \<le> 99" using m by (simp add: less_Suc_eq_le [symmetric] div_less_iff_less_mult)
  finally have "((t - window_of t) * MULTIPLIER) div NANO \<le> MULTIPLIER"
    by (simp add: word_le_nat_alt MULTIPLIER_def)
  then show ?thesis by (simp add: unat_sub MULTIPLIER_def)
qed

lemma total_small:
  assumes "unat w \<le> 100" and "unat pw < 2 ^ 32" and "unat c < 2 ^ 32" and "w * pw + c * MULTIPLIER \<le> rate"
  shows "100 * unat c \<le> unat rate"
proof -
  have "unat w * unat pw \<le> 100 * 2 ^ 32" using assms(1,2) by (intro mult_le_mono) simp_all
  moreover have "unat c * 100 \<le> 2 ^ 32 * 100" using assms(3) by simp
  ultimately have "unat (w * pw + c * MULTIPLIER) = unat w * unat pw + unat c * 100"
    by (simp add: unat_word_ariths MULTIPLIER_def)
  then show ?thesis using assms(4) by (simp add: word_le_nat_alt)
qed

text \<open>The state in which the decision is made: the packet counted, the counter of its window there.\<close>

definition rl_prepared :: "u64 \<Rightarrow> rl_maps \<Rightarrow> rl_maps" where
  "rl_prepared t s = s\<lparr>rl_recv_count_map := inc_at 0 (rl_recv_count_map s),
     rl_window_map := (if rl_window_map s (window_of t) = None then (rl_window_map s)(window_of t \<mapsto> 0)
                       else rl_window_map s)\<rparr>"

definition rl_over :: "u64 \<Rightarrow> u64 \<Rightarrow> rl_maps \<Rightarrow> u64 \<Rightarrow> bool" where
  "rl_over rate t s cw \<longleftrightarrow> (case rl_window_map s (window_of t - NANO) of
      None \<Rightarrow> rate \<le> ucast (cw_of cw)
    | Some pw \<Rightarrow> rate < (MULTIPLIER - ((t - window_of t) * MULTIPLIER) div NANO) * pw + ucast (cw_of cw) * MULTIPLIER)"

lemma decide_eq:
  assumes "rl_config_map s 0 = Some rate" and "rl_recv_count_map s 0 \<noteq> None" and "rl_drop_count_map s 0 \<noteq> None"
    and "\<And>m k. room m k"
  shows "rl_decide room t s = (
    let cw = (case rl_window_map s (window_of t) of None \<Rightarrow> 0 | Some v \<Rightarrow> v)
    in if rl_over rate t s cw then rl_drop (rl_prepared t s) else rl_allow (window_of t) cw (rl_prepared t s))"
  using assms by (auto simp: rl_decide_def rl_prepared_def rl_over_def Let_def not_le not_less split: option.splits)

lemma not_over:
  assumes "rl_ok rate s" and "\<not> rl_over rate t s cw" and "unat cw \<le> max 1 (unat rate)"
  shows "Suc (unat cw) \<le> max 1 (unat rate)"
proof -
  have r: "unat rate < 2 ^ 32 - 1" using assms(1) by (simp add: rl_ok_def)
  then have c: "unat cw < 2 ^ 32 - 1" using assms(3) by simp
  show ?thesis
  proof (cases "rl_window_map s (window_of t - NANO)")
    case None
    then have "unat cw < unat rate" using assms(2) cw_small(3) [OF c] by (simp add: rl_over_def word_le_nat_alt)
    then show ?thesis by simp
  next
    case (Some pw)
    then have "unat pw \<le> max 1 (unat rate)" using assms(1) by (auto simp: rl_ok_def)
    then have pw: "unat pw < 2 ^ 32" using r by simp
    have "100 * unat (ucast (cw_of cw) :: u64) \<le> unat rate"
      using assms(2) Some c cw_small(3) [OF c] by (intro total_small [OF pw_weight_bounds pw]) (simp_all add: rl_over_def not_less)
    then show ?thesis using cw_small(3) [OF c] by (cases "unat cw") auto
  qed
qed

lemma decide_step:
  assumes "rl_ok rate s" and "\<And>m k. room m k" and "rl_decide room t s = (v, s')"
  shows "rl_ok rate s' \<and> cnt s' w = cnt s w + (if v = XDP_PASS \<and> window_of t = w then 1 else 0)"
proof -
  define cw where "cw = (case rl_window_map s (window_of t) of None \<Rightarrow> 0 | Some v \<Rightarrow> v)"
  have ok: "rl_config_map s 0 = Some rate" "rl_recv_count_map s 0 \<noteq> None" "rl_drop_count_map s 0 \<noteq> None"
    "unat rate < 2 ^ 32 - 1" "\<And>k v. rl_window_map s k = Some v \<Longrightarrow> unat v \<le> max 1 (unat rate)"
    using assms(1) by (simp_all add: rl_ok_def del: not_None_eq)
  have c: "unat cw \<le> max 1 (unat rate)" "unat cw = cnt s (window_of t)"
    using ok(5) by (auto simp: cw_def cnt_def split: option.splits)
  have d: "(if rl_over rate t s cw then rl_drop (rl_prepared t s) else rl_allow (window_of t) cw (rl_prepared t s)) = (v, s')"
    using assms(3) unfolding decide_eq [OF ok(1-3) assms(2)] Let_def cw_def .
  have i: "inc_at 0 m 0 \<noteq> None" if "m 0 \<noteq> None" for m :: "u64 \<rightharpoonup> u64"
    using that by (auto simp: inc_at_def)
  show ?thesis
  proof (cases "rl_over rate t s cw")
    case True
    then have "v = XDP_DROP" "s' = (rl_prepared t s)\<lparr>rl_drop_count_map := inc_at 0 (rl_drop_count_map s)\<rparr>"
      using d by (simp_all add: rl_drop_def rl_prepared_def)
    then show ?thesis using ok i
      by (auto simp: rl_ok_def rl_prepared_def cnt_def xdp_defs split: option.splits if_splits)
  next
    case False
    have n: "Suc (unat cw) \<le> max 1 (unat rate)" by (rule not_over [OF assms(1) False c(1)])
    have st: "unat (cw_step cw) = Suc (unat cw)" using n ok(4) by (intro cw_small(2)) simp
    have "v = XDP_PASS" "s' = (rl_prepared t s)\<lparr>rl_window_map := (rl_window_map (rl_prepared t s))(window_of t \<mapsto> cw_step cw)\<rparr>"
      using d False by (simp_all add: rl_allow_def)
    then show ?thesis using ok i n st c(2)
      by (auto simp: rl_ok_def rl_prepared_def cnt_def split: option.splits if_splits)
  qed
qed

text \<open>The limiter as a packet processor: the state counts the packets, the clock gives each its time.\<close>

definition limiter_step ::
  "((u64 \<rightharpoonup> u64) \<Rightarrow> u64 \<Rightarrow> bool) \<Rightarrow> (nat \<Rightarrow> u64) \<Rightarrow> nat \<times> rl_maps \<Rightarrow> packet \<Rightarrow>
   (int \<times> packet \<times> nat \<times> rl_maps) option" where
  "limiter_step room clock st p =
     map_option (\<lambda>(v, s'). (v, p, Suc (fst st), s')) (xdp_ratelimiting room (clock (fst st)) p (snd st))"

lemma xdp_ratelimiting_ok:
  assumes "rl_ok rate s" and "\<And>m k. room m k"
  shows "\<exists>v s'. xdp_ratelimiting room t p s = Some (v, s') \<and> rl_ok rate s'"
proof -
  obtain v s' where d: "rl_decide room t s = (v, s')" by fastforce
  show ?thesis using decide_step [OF assms d] assms(1)
    by (auto simp: xdp_ratelimiting_def ratelimit_cases d)
qed

interpretation limiter: packet_program "limiter_step (\<lambda>_ _. True) clock" "\<lambda>st. rl_ok rate (snd st)" for clock rate
proof
  show "limiter_step (\<lambda>_ _. True) clock st p \<noteq> None" if "rl_ok rate (snd st)" for st p
    using xdp_ratelimiting_ok [OF that, of "\<lambda>_ _. True" "clock (fst st)" p] by (auto simp: limiter_step_def)
  show "rl_ok rate (snd s')" if "rl_ok rate (snd st)" "limiter_step (\<lambda>_ _. True) clock st p = Some (r, p', s')"
    for st p r p' s'
    using xdp_ratelimiting_ok [OF that(1), of "\<lambda>_ _. True" "clock (fst st)" p] that(2) by (auto simp: limiter_step_def)
qed

fun accepted :: "((u64 \<rightharpoonup> u64) \<Rightarrow> u64 \<Rightarrow> bool) \<Rightarrow> u64 \<Rightarrow> (u64 \<times> packet) list \<Rightarrow> rl_maps \<Rightarrow> nat" where
  "accepted room w [] s = 0"
| "accepted room w ((t, p) # ts) s = (case xdp_ratelimiting room t p s of
     None \<Rightarrow> 0
   | Some (v, s') \<Rightarrow> (if is_syn p \<and> v = XDP_PASS \<and> window_of t = w then 1 else 0) + accepted room w ts s')"

lemma cnt_le: "rl_ok rate s \<Longrightarrow> cnt s w \<le> max 1 (unat rate)"
  by (auto simp: rl_ok_def cnt_def split: option.splits)

lemma rl_verdicts: "rl_decide room t s = (v, s') \<Longrightarrow> v = XDP_PASS \<or> v = XDP_DROP"
  by (auto simp: rl_decide_def rl_drop_def rl_allow_def Let_def split: option.splits if_splits)

lemma accepted_bound:
  assumes "rl_ok rate s" and "\<And>m k. room m k"
  shows "accepted room w ts s + cnt s w \<le> max 1 (unat rate)"
  using assms(1)
proof (induction ts arbitrary: s)
  case Nil
  then show ?case using cnt_le [of rate s w] by simp
next
  case (Cons r ts)
  obtain t p where r: "r = (t, p)" by (cases r)
  show ?case
  proof (cases "is_syn p")
    case True
    obtain v s' where d: "rl_decide room t s = (v, s')" by fastforce
    from decide_step [OF Cons.prems assms(2) d, of w] Cons.IH [of s'] rl_verdicts [OF d] show ?thesis
      by (auto simp: r xdp_ratelimiting_def ratelimit_cases True d xdp_defs)
  next
    case False
    then show ?thesis using Cons.IH [OF Cons.prems] by (simp add: r xdp_ratelimiting_def ratelimit_cases)
  qed
qed


definition rl0 :: rl_maps where
  "rl0 = \<lparr>rl_config_map = [0 \<mapsto> 5], rl_window_map = Map.empty, rl_recv_count_map = [0 \<mapsto> 0],
     rl_drop_count_map = [0 \<mapsto> 0]\<rparr>"


text \<open>The limit is a hundred times too strict after a second with traffic: the weighted count of both windows,
  which is scaled by 100, is compared with the rate, which is not.  So with a counter of the previous window
  and a rate below 100 every connection but the first of a second is dropped.\<close>

theorem ratelimit_too_strict:
  assumes "rl_ok rate s" and "unat rate < 100" and "rl_window_map s (window_of t - NANO) \<noteq> None" and "0 < cnt s (window_of t)"
    and "\<forall>m k. room m k" and "is_syn p"
  shows "\<exists>s'. xdp_ratelimiting room t p s = Some (XDP_DROP, s')"
proof -
  have ok: "rl_config_map s 0 = Some rate" "rl_recv_count_map s 0 \<noteq> None" "rl_drop_count_map s 0 \<noteq> None"
    "\<And>k v. rl_window_map s k = Some v \<Longrightarrow> unat v \<le> max 1 (unat rate)"
    using assms(1) by (simp_all add: rl_ok_def del: not_None_eq)
  obtain cw where cw: "rl_window_map s (window_of t) = Some cw" "0 < unat cw"
    using assms(4) by (auto simp: cnt_def split: option.splits)
  obtain pw where pw: "rl_window_map s (window_of t - NANO) = Some pw" using assms(3) by auto
  have small: "unat cw < 2 ^ 32 - 1" "unat pw < 2 ^ 32" using ok(4) [OF cw(1)] ok(4) [OF pw] assms(2) by simp_all
  have "rl_over rate t s cw"
  proof (rule ccontr)
    assume "\<not> rl_over rate t s cw"
    then have "100 * unat (ucast (cw_of cw) :: u64) \<le> unat rate"
      using small cw_small(3) [OF small(1)] pw
      by (intro total_small [OF pw_weight_bounds small(2)]) (simp_all add: rl_over_def not_less)
    then show False using cw(2) assms(2) cw_small(3) [OF small(1)] by simp
  qed
  then have "rl_decide room t s = rl_drop (rl_prepared t s)"
    using decide_eq [OF ok(1-3), of room t] assms(5) cw(1) by simp
  then show ?thesis using assms(6) by (simp add: xdp_ratelimiting_def ratelimit_cases rl_drop_def)
qed

definition syn_pkt :: packet where
  "syn_pkt = replicate 12 0 @ [8, 0] @ replicate 9 0 @ [6] @ replicate 23 0 @ [2] @ replicate 6 0"

theorem ratelimit_too_strict_witness:
  "\<exists>s'. xdp_ratelimiting (\<lambda>_ _. True) 3000000007 syn_pkt (rl0\<lparr>rl_window_map := [2000000000 \<mapsto> 0, 3000000000 \<mapsto> 1]\<rparr>) =
     Some (XDP_DROP, s')"
proof -
  let ?s = "rl0\<lparr>rl_window_map := [2000000000 \<mapsto> 0, 3000000000 \<mapsto> 1]\<rparr>"
  have w: "window_of 3000000007 = 3000000000" by (simp add: NANO_def)
  have "rl_ok 5 ?s" "unat (5 :: u64) < 100" "rl_window_map ?s (window_of 3000000007 - NANO) \<noteq> None"
    "0 < cnt ?s (window_of 3000000007)"
    by (simp_all add: rl_ok_def rl0_def w NANO_def cnt_def)
  moreover have "is_syn syn_pkt"
    by (simp add: is_syn_def syn_pkt_def nth_append le_word_def bswap16_def ETH_P_IP_def IPPROTO_TCP_def TCP_SYN_def TCP_ACK_def)
  ultimately show ?thesis using ratelimit_too_strict [of 5 ?s 3000000007 "\<lambda>_ _. True" syn_pkt] by blast
qed

end
