(* ===== verification/Node_Firewall.thy ===== *)
theory Node_Firewall
  imports Bpf_Env
begin

text \<open>
  The XDP ingress node firewall, \<open>bpf/ingress_node_firewall_kernel.c\<close> and \<open>bpf/ingress_node_firewall.h\<close> under
  \<open>src/examples/ingress-node-firewall-master\<close>: the parser of the transport header, the rule
  lookup for IPv4 and IPv6, statistics and events, and the main program.  The longest-prefix trie is a map
  of the kernel, given by what a lookup returns.  The specification (\<open>covers\<close>, \<open>deciding_rule\<close>) is stated on the
  bytes of the packet; the program is proved to implement it for packets it can parse, and to let every packet pass that it
  cannot parse.
\<close>

section \<open>Definitions\<close>

definition UNDEF :: u8 where "UNDEF = 0"
definition DENY :: u8 where "DENY = 1"
definition ALLOW :: u8 where "ALLOW = 2"
definition MAX_TARGETS :: u32 where "MAX_TARGETS = 1024"
definition MAX_RULES_PER_TARGET :: nat where "MAX_RULES_PER_TARGET = 100"
definition MAX_EVENT_DATA :: u16 where "MAX_EVENT_DATA = 256"
definition INVALID_RULE_ID :: u32 where "INVALID_RULE_ID = 0"

record ruleType_st =
  ruleId :: u32
  rule_protocol :: u8
  dstPortStart :: u16
  dstPortEnd :: u16
  rule_icmpType :: u8
  rule_icmpCode :: u8
  rule_action :: u8

record lpm_ip_key_st =
  prefixLen :: u32
  ingress_ifindex :: u32
  ip_data :: "u8 list"

record ruleStatistics_st =
  allow_packets :: u64
  allow_bytes :: u64
  deny_packets :: u64
  deny_bytes :: u64

record event_hdr_st =
  ev_ifId :: u16
  ev_ruleId :: u16
  ev_action :: u8
  ev_pktLength :: u16

text \<open>The rule table is a prefix trie of the kernel: \<open>table_map\<close> is what a lookup in it returns.  An event carries
  its header and the first bytes of the packet.\<close>

record fw_maps =
  table_map :: "lpm_ip_key_st \<rightharpoonup> ruleType_st list"
  statistics_map :: "u32 \<rightharpoonup> ruleStatistics_st"
  events_map :: "(event_hdr_st \<times> u8 list) list"

definition GET_ACTION :: "u32 \<Rightarrow> u8" where "GET_ACTION a = ucast (a AND 0xFF)"
definition SET_ACTION :: "u8 \<Rightarrow> u32" where "SET_ACTION a = ucast a AND 0xFF"
definition GET_RULE_ID :: "u32 \<Rightarrow> u16" where "GET_RULE_ID r = ucast (drop_bit 8 r AND 0xFFFFFF)"
definition SET_ACTIONRULE_RESPONSE :: "u8 \<Rightarrow> u32 \<Rightarrow> u32" where
  "SET_ACTIONRULE_RESPONSE a r = push_bit 8 (r AND 0xFFFFFF) OR (ucast a AND 0xFF)"

record l4info =
  l4_proto :: u8
  l4_dstPort :: u16
  l4_icmpType :: u8
  l4_icmpCode :: u8

text \<open>\<open>None\<close> inside is the return value -1.\<close>

definition ip_extract_l4info :: "packet \<Rightarrow> nat \<Rightarrow> bool \<Rightarrow> l4info option option" where
  "ip_extract_l4info data dataStart is_v4 = (
     let hdr = (if is_v4 then 20 else 40); l4 = dataStart + hdr
     in if l4 > length data then Some None
        else do {
          proto \<leftarrow> ld8 data (dataStart + (if is_v4 then 9 else 6));
          let i = \<lparr>l4_proto = proto, l4_dstPort = 0, l4_icmpType = 0, l4_icmpCode = 0\<rparr>;
          if proto = IPPROTO_TCP then
            (if l4 + 20 > length data then Some None
             else do { p \<leftarrow> ld16 data (l4 + 2); Some (Some (i\<lparr>l4_dstPort := p\<rparr>)) })
          else if proto = IPPROTO_UDP then
            (if l4 + 8 > length data then Some None
             else do { p \<leftarrow> ld16 data (l4 + 2); Some (Some (i\<lparr>l4_dstPort := p\<rparr>)) })
          else if proto = IPPROTO_SCTP then
            (if l4 + 12 > length data then Some None
             else do { p \<leftarrow> ld16 data (l4 + 2); Some (Some (i\<lparr>l4_dstPort := p\<rparr>)) })
          else if proto = IPPROTO_ICMP \<or> proto = IPPROTO_ICMPV6 then
            (if l4 + 8 > length data then Some None
             else do {
               t \<leftarrow> ld8 data l4;
               c \<leftarrow> ld8 data (l4 + 1);
               Some (Some (i\<lparr>l4_icmpType := t, l4_icmpCode := c\<rparr>)) })
          else Some None })"

text \<open>The body of the loop over the rules; \<open>icmp\<close> is the ICMP protocol of the address family.\<close>

definition rule_matches :: "u8 \<Rightarrow> l4info \<Rightarrow> ruleType_st \<Rightarrow> bool" where
  "rule_matches icmp i rule \<longleftrightarrow>
     rule_protocol rule = 0 \<or>
     rule_protocol rule = l4_proto i \<and>
     ((rule_protocol rule = IPPROTO_TCP \<or> rule_protocol rule = IPPROTO_UDP \<or> rule_protocol rule = IPPROTO_SCTP) \<and>
        (if dstPortEnd rule = 0 then dstPortStart rule = bswap16 (l4_dstPort i)
         else bswap16 (l4_dstPort i) \<ge> dstPortStart rule \<and> bswap16 (l4_dstPort i) < dstPortEnd rule) \<or>
      rule_protocol rule = icmp \<and> rule_icmpType rule = l4_icmpType i \<and> rule_icmpCode rule = l4_icmpCode i)"

fun match_rules :: "u8 \<Rightarrow> l4info \<Rightarrow> ruleType_st list \<Rightarrow> u32" where
  "match_rules icmp i [] = SET_ACTION UNDEF"
| "match_rules icmp i (rule # rules) =
     (if ruleId rule = INVALID_RULE_ID then match_rules icmp i rules
      else if rule_matches icmp i rule then SET_ACTIONRULE_RESPONSE (rule_action rule) (ruleId rule)
      else match_rules icmp i rules)"

definition fw_lookup :: "u8 \<Rightarrow> l4info \<Rightarrow> lpm_ip_key_st \<Rightarrow> fw_maps \<Rightarrow> u32" where
  "fw_lookup icmp i key s = (case table_map s key of None \<Rightarrow> SET_ACTION UNDEF
     | Some rules \<Rightarrow> match_rules icmp i (take MAX_RULES_PER_TARGET rules))"

text \<open>The source address is read before the bounds of the header are checked.\<close>

definition ipv4_firewall_lookup :: "packet \<Rightarrow> nat \<Rightarrow> u32 \<Rightarrow> fw_maps \<Rightarrow> u32 option" where
  "ipv4_firewall_lookup data dataStart ifId s = do {
     srcAddr \<leftarrow> ld32 data (dataStart + 12);
     r \<leftarrow> ip_extract_l4info data dataStart True;
     case r of None \<Rightarrow> Some (SET_ACTION UNDEF)
     | Some i \<Rightarrow> Some (fw_lookup IPPROTO_ICMP i
         \<lparr>prefixLen = 64, ingress_ifindex = ifId, ip_data = le_bytes 4 srcAddr @ replicate 12 0\<rparr> s) }"

definition ipv6_firewall_lookup :: "packet \<Rightarrow> nat \<Rightarrow> u32 \<Rightarrow> fw_maps \<Rightarrow> u32 option" where
  "ipv6_firewall_lookup data dataStart ifId s = do {
     r \<leftarrow> ip_extract_l4info data dataStart False;
     case r of None \<Rightarrow> Some (SET_ACTION UNDEF)
     | Some i \<Rightarrow> do {
         srcAddr \<leftarrow> rd data (dataStart + 8) 16;
         Some (fw_lookup IPPROTO_ICMPV6 i \<lparr>prefixLen = 160, ingress_ifindex = ifId, ip_data = srcAddr\<rparr> s) } }"

definition stats0 :: ruleStatistics_st where
  "stats0 = \<lparr>allow_packets = 0, allow_bytes = 0, deny_packets = 0, deny_bytes = 0\<rparr>"

definition count_action :: "u8 \<Rightarrow> u16 \<Rightarrow> ruleStatistics_st \<Rightarrow> ruleStatistics_st" where
  "count_action act n st =
     (if act = ALLOW then st\<lparr>allow_packets := allow_packets st + 1, allow_bytes := allow_bytes st + ucast n\<rparr>
      else if act = DENY then st\<lparr>deny_packets := deny_packets st + 1, deny_bytes := deny_bytes st + ucast n\<rparr>
      else st)"

text \<open>The statistics map is an array of \<open>MAX_TARGETS\<close> entries: an update beyond its end fails.\<close>

definition generate_event_and_update_statistics ::
  "packet \<Rightarrow> u16 \<Rightarrow> u8 \<Rightarrow> u16 \<Rightarrow> bool \<Rightarrow> u32 \<Rightarrow> fw_maps \<Rightarrow> fw_maps" where
  "generate_event_and_update_statistics data packet_len act rid generateEvent ifId s = (
     let key = ucast rid :: u32;
         hdr = \<lparr>ev_ifId = ucast ifId, ev_ruleId = rid, ev_action = act, ev_pktLength = packet_len\<rparr>;
         s = (case statistics_map s key of
                Some st \<Rightarrow> s\<lparr>statistics_map := (statistics_map s)(key \<mapsto> count_action act packet_len st)\<rparr>
              | None \<Rightarrow> if key < MAX_TARGETS then s\<lparr>statistics_map := (statistics_map s)(key \<mapsto> stats0)\<rparr> else s)
     in if generateEvent then
          (let headerSize = (if packet_len < MAX_EVENT_DATA then packet_len else MAX_EVENT_DATA)
           in s\<lparr>events_map := events_map s @ [(hdr, take (unat headerSize) data)]\<rparr>)
        else s)"

definition ingress_node_firewall_main :: "packet \<Rightarrow> u32 \<Rightarrow> fw_maps \<Rightarrow> (int \<times> fw_maps) option" where
  "ingress_node_firewall_main data ifId s =
     (if 14 > length data then Some (XDP_DROP, s)
      else do {
        h_proto \<leftarrow> ld16 data 12;
        result \<leftarrow>
          (if h_proto = bswap16 ETH_P_IP then map_option Some (ipv4_firewall_lookup data 14 ifId s)
           else if h_proto = bswap16 ETH_P_IPV6 then map_option Some (ipv6_firewall_lookup data 14 ifId s)
           else Some None);
        case result of None \<Rightarrow> Some (XDP_PASS, s)
        | Some result \<Rightarrow>
            (let rid = GET_RULE_ID result; act = GET_ACTION result; n = of_nat (length data)
             in if act = DENY then
                  Some (XDP_DROP, generate_event_and_update_statistics data n DENY rid True ifId s)
                else if act = ALLOW then
                  Some (XDP_PASS, generate_event_and_update_statistics data n ALLOW rid False ifId s)
                else Some (XDP_PASS, s)) })"

section \<open>Results as words\<close>

lemma response_roundtrip:
  "GET_ACTION (SET_ACTIONRULE_RESPONSE a r) = a" "GET_RULE_ID (SET_ACTIONRULE_RESPONSE a r) = ucast r"
  "GET_ACTION (SET_ACTION a) = a"
proof -
  have m: "(0xFF :: u32) = mask 8" "(0xFFFFFF :: u32) = mask 24" by (simp_all add: mask_eq_exp_minus_1)
  show "GET_ACTION (SET_ACTIONRULE_RESPONSE a r) = a" "GET_ACTION (SET_ACTION a) = a"
    unfolding GET_ACTION_def SET_ACTIONRULE_RESPONSE_def SET_ACTION_def m
    by (rule bit_word_eqI; auto simp: bit_simps dest: bit_imp_le_length)+
  show "GET_RULE_ID (SET_ACTIONRULE_RESPONSE a r) = ucast r"
    unfolding GET_RULE_ID_def SET_ACTIONRULE_RESPONSE_def m
    by (rule bit_word_eqI) (auto simp: bit_simps dest: bit_imp_le_length)
qed

section \<open>The specification: the first rule that covers the packet decides\<close>

text \<open>The fields of a packet as the protocols define them, read from its bytes: ports are big endian.\<close>

definition l4_off :: "bool \<Rightarrow> nat" where
  "l4_off v4 = (if v4 then 34 else 54)"

definition pkt_proto :: "bool \<Rightarrow> packet \<Rightarrow> u8" where
  "pkt_proto v4 p = p ! (if v4 then 23 else 20)"

definition pkt_dport :: "bool \<Rightarrow> packet \<Rightarrow> nat" where
  "pkt_dport v4 p = 256 * unat (p ! (l4_off v4 + 2)) + unat (p ! (l4_off v4 + 3))"

definition port_protocols :: "u8 set" where
  "port_protocols = {IPPROTO_TCP, IPPROTO_UDP, IPPROTO_SCTP}"

definition covers :: "bool \<Rightarrow> packet \<Rightarrow> ruleType_st \<Rightarrow> bool" where
  "covers v4 p r \<longleftrightarrow> ruleId r \<noteq> 0 \<and> (rule_protocol r = 0 \<or> rule_protocol r = pkt_proto v4 p \<and>
     (if rule_protocol r \<in> port_protocols
      then (if dstPortEnd r = 0 then pkt_dport v4 p = unat (dstPortStart r)
            else pkt_dport v4 p \<in> {unat (dstPortStart r)..<unat (dstPortEnd r)})
      else rule_protocol r = (if v4 then IPPROTO_ICMP else IPPROTO_ICMPV6) \<and>
           rule_icmpType r = p ! l4_off v4 \<and> rule_icmpCode r = p ! (l4_off v4 + 1)))"

fun l4_size :: "u8 \<Rightarrow> nat option" where
  "l4_size proto = (if proto = IPPROTO_TCP then Some 20 else if proto = IPPROTO_SCTP then Some 12
     else if proto \<in> {IPPROTO_UDP, IPPROTO_ICMP, IPPROTO_ICMPV6} then Some 8 else None)"

definition is_ip :: "bool \<Rightarrow> packet \<Rightarrow> bool" where
  "is_ip v4 p \<longleftrightarrow> l4_off v4 \<le> length p \<and> u16_at p 12 = bswap16 (if v4 then ETH_P_IP else ETH_P_IPV6)"

definition l4_complete :: "bool \<Rightarrow> packet \<Rightarrow> bool" where
  "l4_complete v4 p \<longleftrightarrow> (case l4_size (pkt_proto v4 p) of None \<Rightarrow> False | Some n \<Rightarrow> l4_off v4 + n \<le> length p)"

definition src_key :: "bool \<Rightarrow> u32 \<Rightarrow> packet \<Rightarrow> lpm_ip_key_st" where
  "src_key v4 ifId p = (if v4
     then \<lparr>prefixLen = 64, ingress_ifindex = ifId, ip_data = bytes_at p 26 4 @ replicate 12 0\<rparr>
     else \<lparr>prefixLen = 160, ingress_ifindex = ifId, ip_data = bytes_at p 22 16\<rparr>)"

definition deciding_rule :: "bool \<Rightarrow> u32 \<Rightarrow> packet \<Rightarrow> fw_maps \<Rightarrow> ruleType_st option" where
  "deciding_rule v4 ifId p s = (case table_map s (src_key v4 ifId p) of None \<Rightarrow> None
     | Some rules \<Rightarrow> List.find (covers v4 p) (take MAX_RULES_PER_TARGET rules))"

section \<open>The lookup finds the deciding rule\<close>

definition the_l4info :: "bool \<Rightarrow> packet \<Rightarrow> l4info" where
  "the_l4info v4 p = (let proto = pkt_proto v4 p; ports = proto \<in> port_protocols
     in \<lparr>l4_proto = proto, l4_dstPort = (if ports then u16_at p (l4_off v4 + 2) else 0),
         l4_icmpType = (if ports then 0 else p ! l4_off v4), l4_icmpCode = (if ports then 0 else p ! (l4_off v4 + 1))\<rparr>)"

lemma extract_eq:
  assumes "is_ip v4 p"
  shows "ip_extract_l4info p 14 v4 = Some (if l4_complete v4 p then Some (the_l4info v4 p) else None)"
proof -
  have "wp (ip_extract_l4info p 14 v4) (\<lambda>r. r = (if l4_complete v4 p then Some (the_l4info v4 p) else None))"
    using assms unfolding ip_extract_l4info_def
    by (cases v4) (simp_all add: wp_simps is_ip_def l4_complete_def the_l4info_def l4_off_def pkt_proto_def
        port_protocols_def Let_def proto_defs)
  then show ?thesis by (auto simp: wp_def)
qed

lemma rule_matches_eq:
  assumes "is_ip v4 p" and "l4_complete v4 p" and "ruleId r \<noteq> 0"
  shows "rule_matches (if v4 then IPPROTO_ICMP else IPPROTO_ICMPV6) (the_l4info v4 p) r \<longleftrightarrow> covers v4 p r"
proof (cases "pkt_proto v4 p \<in> port_protocols")
  case True
  then have "l4_off v4 + 2 + 2 \<le> length p"
    using assms(2) by (auto simp: l4_complete_def port_protocols_def proto_defs split: if_splits)
  from unat_bswap_u16_at [OF this] have d: "unat (bswap16 (u16_at p (l4_off v4 + 2))) = pkt_dport v4 p"
    by (simp only: pkt_dport_def add.assoc) simp
  show ?thesis using assms(3) True
    by (auto simp: rule_matches_def covers_def the_l4info_def Let_def port_protocols_def proto_defs
        d [symmetric] word_unat_eq_iff word_le_nat_alt word_less_nat_alt)
next
  case False
  then show ?thesis using assms(3)
    by (auto simp: rule_matches_def covers_def the_l4info_def Let_def port_protocols_def)
qed

lemma match_rules_find:
  assumes "\<And>r. ruleId r \<noteq> 0 \<Longrightarrow> rule_matches icmp i r \<longleftrightarrow> Q r" and "\<And>r. Q r \<Longrightarrow> ruleId r \<noteq> 0"
  shows "match_rules icmp i rules = (case List.find Q rules of None \<Rightarrow> SET_ACTION UNDEF
     | Some r \<Rightarrow> SET_ACTIONRULE_RESPONSE (rule_action r) (ruleId r))"
  using assms by (induction rules) (auto simp: INVALID_RULE_ID_def)

lemma lookup_eq:
  assumes "is_ip v4 p"
  shows "(if v4 then ipv4_firewall_lookup p 14 ifId s else ipv6_firewall_lookup p 14 ifId s) = Some (
    case (if l4_complete v4 p then deciding_rule v4 ifId p s else None) of
      None \<Rightarrow> SET_ACTION UNDEF | Some r \<Rightarrow> SET_ACTIONRULE_RESPONSE (rule_action r) (ruleId r))"
proof (cases "l4_complete v4 p")
  case True
  have m: "match_rules (if v4 then IPPROTO_ICMP else IPPROTO_ICMPV6) (the_l4info v4 p) rules =
      (case List.find (covers v4 p) rules of None \<Rightarrow> SET_ACTION UNDEF
       | Some r \<Rightarrow> SET_ACTIONRULE_RESPONSE (rule_action r) (ruleId r))" for rules
    by (rule match_rules_find [OF rule_matches_eq [OF assms True]]) (simp_all add: covers_def)
  have k: "length p \<ge> 34" "\<not> v4 \<Longrightarrow> length p \<ge> 54" using assms by (auto simp: is_ip_def l4_off_def split: if_splits)
  have b: "le_bytes 4 (u32_at p 26) = bytes_at p 26 4" by (rule le_bytes_word) (use k in simp_all)
  have "wp (if v4 then ipv4_firewall_lookup p 14 ifId s else ipv6_firewall_lookup p 14 ifId s)
    (\<lambda>r. r = fw_lookup (if v4 then IPPROTO_ICMP else IPPROTO_ICMPV6) (the_l4info v4 p) (src_key v4 ifId p) s)"
    using k extract_eq [OF assms] True b
    by (cases v4) (simp_all add: ipv4_firewall_lookup_def ipv6_firewall_lookup_def wp_simps src_key_def)
  then show ?thesis unfolding wp_def fw_lookup_def m deciding_rule_def using True by (auto split: option.splits)
next
  case False
  have k: "length p \<ge> 34" using assms by (auto simp: is_ip_def l4_off_def split: if_splits)
  have "wp (if v4 then ipv4_firewall_lookup p 14 ifId s else ipv6_firewall_lookup p 14 ifId s)
    (\<lambda>r. r = SET_ACTION UNDEF)"
    using k extract_eq [OF assms] False
    by (cases v4) (simp_all add: ipv4_firewall_lookup_def ipv6_firewall_lookup_def wp_simps)
  then show ?thesis using False by (auto simp: wp_def)
qed

section \<open>The program\<close>

text \<open>What the program does with the rule that decides: verdict, statistics, event.\<close>

definition verdict_of :: "ruleType_st option \<Rightarrow> int" where
  "verdict_of d = (case d of None \<Rightarrow> XDP_PASS | Some r \<Rightarrow> if rule_action r = DENY then XDP_DROP else XDP_PASS)"

definition account :: "packet \<Rightarrow> u32 \<Rightarrow> ruleType_st option \<Rightarrow> fw_maps \<Rightarrow> fw_maps" where
  "account p ifId d s = (case d of None \<Rightarrow> s | Some r \<Rightarrow>
     if rule_action r \<in> {ALLOW, DENY} then
       generate_event_and_update_statistics p (of_nat (length p)) (rule_action r) (ucast (ruleId r))
         (rule_action r = DENY) ifId s
     else s)"

lemma main_eq:
  fixes ifId :: u32 and s :: fw_maps
  assumes "is_ip v4 p"
  defines "d \<equiv> if l4_complete v4 p then deciding_rule v4 ifId p s else None"
  shows "ingress_node_firewall_main p ifId s = Some (verdict_of d, account p ifId d s)"
proof -
  have k: "14 \<le> length p" "bswap16 ETH_P_IP \<noteq> bswap16 ETH_P_IPV6"
    using assms(1) by (auto simp: is_ip_def l4_off_def bswap16_def ETH_P_IP_def ETH_P_IPV6_def split: if_splits)
  have t: "u16_at p 12 = bswap16 (if v4 then ETH_P_IP else ETH_P_IPV6)" using assms(1) by (simp add: is_ip_def)
  have "wp (ingress_node_firewall_main p ifId s) (\<lambda>r. r = (verdict_of d, account p ifId d s))"
    using k t lookup_eq [OF assms(1), of ifId s] unfolding ingress_node_firewall_main_def d_def [symmetric]
    by (cases v4; cases d) (auto simp: wp_simps verdict_of_def account_def response_roundtrip UNDEF_def ALLOW_def DENY_def Let_def)
  then show ?thesis by (auto simp: wp_def)
qed

definition stats_loaded :: "fw_maps \<Rightarrow> bool" where
  "stats_loaded s \<longleftrightarrow> (\<forall>k. (\<exists>st. statistics_map s k = Some st) \<longleftrightarrow> k < MAX_TARGETS)"


definition deny_tcp22 :: ruleType_st where
  "deny_tcp22 = \<lparr>ruleId = 7, rule_protocol = 6, dstPortStart = 20, dstPortEnd = 23, rule_icmpType = 0, rule_icmpCode = 0,
     rule_action = 1\<rparr>"

definition fw0 :: fw_maps where
  "fw0 = \<lparr>table_map = (\<lambda>k. Some [deny_tcp22\<lparr>ruleId := 3, rule_protocol := 17\<rparr>, deny_tcp22]),
     statistics_map = (\<lambda>k. if k < 1024 then Some stats0 else None), events_map = []\<rparr>"

definition tcp22 :: packet where
  "tcp22 = replicate 12 0 @ [8, 0] @ replicate 9 0 @ [6] @ replicate 12 0 @ [0, 22] @ replicate 16 0"


text \<open>C40: A rule without a protocol is commented to apply to every packet, yet it does not stop what the program cannot parse:
  a packet with another transport protocol (GRE, ESP, fragments of IPv6), or with a truncated transport header, passes
  unseen, even when the first rule for its source denies everything.\<close>

theorem firewall_deny_all_bypassed:
  assumes "is_ip v4 p" and "\<not> l4_complete v4 p" and "table_map s (src_key v4 ifId p) = Some (r # rules)"
    and "ruleId r \<noteq> 0" and "rule_protocol r = 0" and "rule_action r = DENY"
  shows "deciding_rule v4 ifId p s = Some r \<and> ingress_node_firewall_main p ifId s = Some (XDP_PASS, s)"
  using assms main_eq [OF assms(1), of ifId s]
  by (simp add: deciding_rule_def covers_def MAX_RULES_PER_TARGET_def verdict_of_def account_def)

theorem firewall_deny_all_bypassed_witness:
  "deciding_rule True 2 (replicate 12 0 @ [8, 0] @ replicate 9 0 @ [47] @ replicate 40 0)
     (fw0\<lparr>table_map := (\<lambda>_. Some [deny_tcp22\<lparr>rule_protocol := 0\<rparr>])\<rparr>) = Some (deny_tcp22\<lparr>rule_protocol := 0\<rparr>) \<and>
   ingress_node_firewall_main (replicate 12 0 @ [8, 0] @ replicate 9 0 @ [47] @ replicate 40 0) 2
     (fw0\<lparr>table_map := (\<lambda>_. Some [deny_tcp22\<lparr>rule_protocol := 0\<rparr>])\<rparr>) =
     Some (XDP_PASS, fw0\<lparr>table_map := (\<lambda>_. Some [deny_tcp22\<lparr>rule_protocol := 0\<rparr>])\<rparr>)"
  by (rule firewall_deny_all_bypassed [where rules = "[]"])
    (simp_all add: is_ip_def l4_complete_def l4_off_def pkt_proto_def nth_append proto_defs le_word_def bswap16_def
        ETH_P_IP_def deny_tcp22_def DENY_def)

section \<open>Reads outside the packet\<close>

text \<open>The source address of an IPv4 packet is read before the length of the header is checked.\<close>

lemma firewall_short_read:
  assumes "14 \<le> length p"
  shows "ingress_node_firewall_main p ifId s = None \<longleftrightarrow> u16_at p 12 = bswap16 ETH_P_IP \<and> length p < 30"
proof -
  have e: "wp (ip_extract_l4info p 14 v4) Q" if "\<And>r. Q r" for v4 Q
    using that unfolding ip_extract_l4info_def by (simp add: wp_simps Let_def)
  have six: "wp (ip_extract_l4info p 14 False) (\<lambda>r. r \<noteq> None \<longrightarrow> 54 \<le> length p)"
    unfolding ip_extract_l4info_def by (simp add: wp_simps Let_def)
  have l6: "wp (ipv6_firewall_lookup p 14 ifId s) Q" if "\<And>r. Q r" for Q
    unfolding ipv6_firewall_lookup_def wp_bind by (rule wp_mono [OF six]) (auto simp: wp_simps that)
  have l4: "wp (ipv4_firewall_lookup p 14 ifId s) Q \<longleftrightarrow> 30 \<le> length p" if "\<And>r. Q r" for Q
    unfolding ipv4_firewall_lookup_def by (simp add: wp_simps e that)
  have n: "bswap16 ETH_P_IP \<noteq> bswap16 ETH_P_IPV6" by (simp add: bswap16_def ETH_P_IP_def ETH_P_IPV6_def)
  have "wp (ingress_node_firewall_main p ifId s) (\<lambda>_. True) \<longleftrightarrow> (u16_at p 12 = bswap16 ETH_P_IP \<longrightarrow> 30 \<le> length p)"
    using assms n unfolding ingress_node_firewall_main_def
    by (auto simp: wp_simps l4 l6 Let_def)
  then show ?thesis using wp_total [of "ingress_node_firewall_main p ifId s"] by (metis not_le)
qed

end
