(* ===== verification/Kpng_Connect.thy ===== *)
theory Kpng_Connect
  imports Bpf_Env
begin

text \<open>
  The socket load balancer of kpng, \<open>src/examples/kpng-master/backends/ebpf/bpf/cgroup_connect4.c\<close>: the hook on
  \<open>connect\<close> that replaces the address of a service by that of a backend.  The maps are filled by the user space part;
  \<open>represents\<close> says how they encode a table of services, and the hook is proved to
  refine a lookup in that table.
\<close>

section \<open>Definitions\<close>

definition SYS_PROCEED :: int where "SYS_PROCEED = 1"
definition ENXIO :: int where "ENXIO = 6"
definition ENOENT :: int where "ENOENT = 2"

record V4_key =
  address :: u32
  dport :: u16
  backend_slot :: u16

record lb4_service =
  backend_id :: u32
  svc_count :: u16
  rev_nat_index :: u16
  svc_flags :: u8
  svc_flags2 :: u8

record lb4_backend =
  backend_address :: u32
  backend_port :: u16
  backend_flags :: u8

record kpng_maps =
  v4_svc_map :: "V4_key \<rightharpoonup> lb4_service"
  v4_backend_map :: "u32 \<rightharpoonup> lb4_backend"

text \<open>The fields of the kernel's \<open>struct bpf_sock_addr\<close> the program uses.\<close>

record bpf_sock_addr =
  user_ip4 :: u32
  user_port :: u32
  sock_protocol :: u32

definition lb4_lookup_service :: "V4_key \<Rightarrow> kpng_maps \<Rightarrow> lb4_service option" where
  "lb4_lookup_service key m = v4_svc_map m key"

definition ctx_dst_port :: "bpf_sock_addr \<Rightarrow> u16" where
  "ctx_dst_port ctx = ucast (user_port ctx)"

text \<open>\<open>rnd\<close> is the value the helper \<open>bpf_get_prandom_u32\<close> returns in this call.\<close>

definition sock_select_slot :: "u32 \<Rightarrow> bpf_sock_addr \<Rightarrow> u64" where
  "sock_select_slot rnd ctx = (if sock_protocol ctx = ucast IPPROTO_TCP then ucast rnd else 0)"

definition lb4_lookup_backend :: "u32 \<Rightarrow> kpng_maps \<Rightarrow> lb4_backend option" where
  "lb4_lookup_backend bid m = v4_backend_map m bid"

definition lb4_lookup_backend_slot :: "V4_key \<Rightarrow> kpng_maps \<Rightarrow> lb4_service option" where
  "lb4_lookup_backend_slot key m = v4_svc_map m key"

text \<open>The build does not define \<open>BPF_HAVE_SOCKET_LOOKUP\<close>.\<close>

definition sock4_skip_xlate_if_same_netns :: "bpf_sock_addr \<Rightarrow> lb4_backend \<Rightarrow> bool" where
  "sock4_skip_xlate_if_same_netns ctx b = False"

definition ctx_set_port :: "bpf_sock_addr \<Rightarrow> u16 \<Rightarrow> bpf_sock_addr" where
  "ctx_set_port ctx p = ctx\<lparr>user_port := ucast p\<rparr>"

text \<open>A remainder by zero leaves the dividend, as the BPF instruction set defines it.  \<open>Inl\<close> is an
  error return; the context is unchanged then.\<close>

definition bpf_mod :: "u64 \<Rightarrow> u64 \<Rightarrow> u64" where
  "bpf_mod a b = (if b = 0 then a else a mod b)"

definition sock4_fwd :: "u32 \<Rightarrow> bpf_sock_addr \<Rightarrow> kpng_maps \<Rightarrow> int + bpf_sock_addr" where
  "sock4_fwd rnd ctx m = (
     let key = \<lparr>address = user_ip4 ctx, dport = ctx_dst_port ctx, backend_slot = 0\<rparr>
     in case lb4_lookup_service key m of
          None \<Rightarrow> Inl (- ENXIO)
        | Some svc \<Rightarrow>
            let key = key\<lparr>backend_slot := ucast (bpf_mod (sock_select_slot rnd ctx) (ucast (svc_count svc)) + 1)\<rparr>
            in case lb4_lookup_backend_slot key m of
                 None \<Rightarrow> Inl (- ENOENT)
               | Some slot \<Rightarrow>
                   (case lb4_lookup_backend (backend_id slot) m of
                      None \<Rightarrow> Inl (- ENOENT)
                    | Some backend \<Rightarrow>
                        if sock4_skip_xlate_if_same_netns ctx backend then Inl (- ENXIO)
                        else Inr (ctx_set_port (ctx\<lparr>user_ip4 := backend_address backend\<rparr>) (backend_port backend))))"

definition sock4_connect :: "u32 \<Rightarrow> bpf_sock_addr \<Rightarrow> kpng_maps \<Rightarrow> int \<times> bpf_sock_addr" where
  "sock4_connect rnd ctx m =
     (SYS_PROCEED, case sock4_fwd rnd ctx m of Inl e \<Rightarrow> ctx | Inr ctx' \<Rightarrow> ctx')"

section \<open>The service table\<close>

text \<open>The abstract table: the non-empty list of the backends of every service address and port.  The maps represent it
  the way the user space part fills them: the entry of slot 0 counts the backends, slots 1, 2, \<open>\<dots>\<close> name them.\<close>

type_synonym services = "u32 \<times> u16 \<rightharpoonup> lb4_backend list"

definition represents :: "kpng_maps \<Rightarrow> services \<Rightarrow> bool" where
  "represents m svcs \<longleftrightarrow> (\<forall>ip port. case svcs (ip, port) of
     None \<Rightarrow> v4_svc_map m \<lparr>address = ip, dport = port, backend_slot = 0\<rparr> = None
   | Some bs \<Rightarrow> 0 < length bs \<and> length bs < 65536 \<and>
       (\<exists>svc. v4_svc_map m \<lparr>address = ip, dport = port, backend_slot = 0\<rparr> = Some svc \<and> unat (svc_count svc) = length bs) \<and>
       (\<forall>i<length bs. \<exists>slot. v4_svc_map m \<lparr>address = ip, dport = port, backend_slot = of_nat (i + 1)\<rparr> = Some slot \<and>
          v4_backend_map m (backend_id slot) = Some (bs ! i)))"

definition is_tcp :: "bpf_sock_addr \<Rightarrow> bool" where
  "is_tcp ctx \<longleftrightarrow> sock_protocol ctx = ucast IPPROTO_TCP"

definition service_of :: "bpf_sock_addr \<Rightarrow> u32 \<times> u16" where
  "service_of ctx = (user_ip4 ctx, ucast (user_port ctx))"

definition redirect :: "bpf_sock_addr \<Rightarrow> lb4_backend \<Rightarrow> bpf_sock_addr" where
  "redirect ctx b = ctx\<lparr>user_ip4 := backend_address b, user_port := ucast (backend_port b)\<rparr>"

lemma slot_value:
  assumes "unat c = n" and "0 < n"
  shows "(ucast (bpf_mod (sock_select_slot rnd ctx) (ucast (c :: u16)) + 1) :: u16) =
    of_nat ((if is_tcp ctx then unat rnd mod n else 0) + 1)"
proof -
  define a where "a = sock_select_slot rnd ctx"
  have a: "unat a = (if is_tcp ctx then unat rnd else 0)"
    using unsigned_less [of rnd, where 'a = nat] by (simp add: a_def sock_select_slot_def is_tcp_def unat_ucast_mod)
  have "unat (ucast c :: u64) = n" using assms(1) unat_u16_less [of c] by (simp add: unat_ucast_mod)
  then have "unat (bpf_mod a (ucast c)) = unat a mod n" using assms(2) by (auto simp: bpf_mod_def unat_mod_distrib)
  then have "bpf_mod a (ucast c) = of_nat (unat a mod n)" by (metis of_nat_unat ucast_id)
  then have "bpf_mod a (ucast c) + 1 = of_nat (unat a mod n + 1)" by simp
  then have "unat (ucast (bpf_mod a (ucast c) + 1) :: u16) = unat (of_nat (unat a mod n + 1) :: u16)"
    by (simp add: unat_ucast_mod unat_of_nat mod_mod_cancel del: of_nat_add of_nat_Suc)
  then have "ucast (bpf_mod a (ucast c) + 1) = (of_nat (unat a mod n + 1) :: u16)" by (simp only: word_unat_eq_iff)
  then show ?thesis using a by (simp add: a_def)
qed

lemma represents_at:
  assumes "represents m svcs"
  shows "case svcs (service_of ctx) of
      None \<Rightarrow> v4_svc_map m \<lparr>address = user_ip4 ctx, dport = ucast (user_port ctx), backend_slot = 0\<rparr> = None
    | Some bs \<Rightarrow> 0 < length bs \<and> length bs < 65536 \<and>
       (\<exists>svc. v4_svc_map m \<lparr>address = user_ip4 ctx, dport = ucast (user_port ctx), backend_slot = 0\<rparr> = Some svc \<and>
          unat (svc_count svc) = length bs) \<and>
       (\<forall>i<length bs. \<exists>slot. v4_svc_map m \<lparr>address = user_ip4 ctx, dport = ucast (user_port ctx), backend_slot = of_nat (i + 1)\<rparr> =
          Some slot \<and> v4_backend_map m (backend_id slot) = Some (bs ! i))"
  using assms unfolding represents_def service_of_def by blast

lemma fwd_eq:
  assumes "represents m svcs"
  shows "sock4_fwd rnd ctx m = (case svcs (service_of ctx) of None \<Rightarrow> Inl (- ENXIO)
    | Some bs \<Rightarrow> Inr (redirect ctx (bs ! (if is_tcp ctx then unat rnd mod length bs else 0))))"
proof (cases "svcs (service_of ctx)")
  case None
  with represents_at [OF assms, of ctx] show ?thesis
    by (simp add: sock4_fwd_def lb4_lookup_service_def ctx_dst_port_def)
next
  case (Some bs)
  define i where "i = (if is_tcp ctx then unat rnd mod length bs else 0)"
  let ?key = "\<lambda>n. \<lparr>address = user_ip4 ctx, dport = ucast (user_port ctx), backend_slot = n\<rparr>"
  have r: "0 < length bs"
    "\<exists>svc. v4_svc_map m (?key 0) = Some svc \<and> unat (svc_count svc) = length bs"
    "\<forall>i<length bs. \<exists>slot. v4_svc_map m (?key (of_nat (i + 1))) = Some slot \<and> v4_backend_map m (backend_id slot) = Some (bs ! i)"
    using represents_at [OF assms, of ctx] Some by simp_all
  obtain svc where svc: "v4_svc_map m (?key 0) = Some svc" "unat (svc_count svc) = length bs" using r(2) by blast
  have "i < length bs" using r(1) by (simp add: i_def)
  then obtain slot where slot: "v4_svc_map m (?key (of_nat (i + 1))) = Some slot"
    "v4_backend_map m (backend_id slot) = Some (bs ! i)" using r(3) by blast
  have v: "ucast (bpf_mod (sock_select_slot rnd ctx) (ucast (svc_count svc)) + 1) = (of_nat (i + 1) :: u16)"
    unfolding i_def by (rule slot_value [OF svc(2) r(1)])
  show ?thesis
    using svc slot Some
    by (simp add: sock4_fwd_def Let_def lb4_lookup_service_def ctx_dst_port_def v
        lb4_lookup_backend_slot_def lb4_lookup_backend_def sock4_skip_xlate_if_same_netns_def
        redirect_def ctx_set_port_def i_def [symmetric])
qed

section \<open>Properties\<close>


definition two_backends :: kpng_maps where
  "two_backends = \<lparr>v4_svc_map = (\<lambda>k. if address k \<noteq> 10 \<or> dport k \<noteq> 80 then None
       else if backend_slot k = 0 then Some \<lparr>backend_id = 0, svc_count = 2, rev_nat_index = 0, svc_flags = 0, svc_flags2 = 0\<rparr>
       else Some \<lparr>backend_id = ucast (backend_slot k), svc_count = 0, rev_nat_index = 0, svc_flags = 0, svc_flags2 = 0\<rparr>),
     v4_backend_map = (\<lambda>i. Some \<lparr>backend_address = 100 + i, backend_port = 8080, backend_flags = 0\<rparr>)\<rparr>"

definition two_services :: services where
  "two_services = [(10, 80) \<mapsto> [\<lparr>backend_address = 101, backend_port = 8080, backend_flags = 0\<rparr>,
     \<lparr>backend_address = 102, backend_port = 8080, backend_flags = 0\<rparr>]]"

lemma two_represents: "represents two_backends two_services"
  by (simp add: represents_def two_backends_def two_services_def less_Suc_eq all_conj_distrib)


text \<open>Which backends a service can reach: over all values of the random generator a TCP connection reaches every
  backend of the service and nothing else, but a connection of any other protocol (UDP, SCTP) always
  gets the first backend: such services are not balanced.\<close>

theorem connect_reaches_backends:
  assumes "represents m svcs" and "svcs (service_of ctx) = Some bs"
  shows "range (\<lambda>rnd. snd (sock4_connect rnd ctx m)) = redirect ctx ` (if is_tcp ctx then set bs else {bs ! 0})"
proof -
  have l: "0 < length bs" "length bs < 65536" using represents_at [OF assms(1), of ctx] assms(2) by simp_all
  have "range (\<lambda>rnd :: u32. bs ! (unat rnd mod length bs)) = set bs"
  proof
    show "range (\<lambda>rnd :: u32. bs ! (unat rnd mod length bs)) \<subseteq> set bs" using l by auto
    have "bs ! i \<in> range (\<lambda>rnd :: u32. bs ! (unat rnd mod length bs))" if "i < length bs" for i
      using that l by (intro range_eqI [of _ _ "of_nat i"]) (simp add: unat_of_nat)
    then show "set bs \<subseteq> range (\<lambda>rnd :: u32. bs ! (unat rnd mod length bs))" by (auto simp: in_set_conv_nth)
  qed
  then have "redirect ctx ` range (\<lambda>rnd :: u32. bs ! (unat rnd mod length bs)) = redirect ctx ` set bs" by simp
  then show ?thesis using assms(2) by (auto simp: sock4_connect_def fwd_eq [OF assms(1)] image_image)
qed

theorem connect_reaches_backends_witness:
  "range (\<lambda>rnd. snd (sock4_connect rnd \<lparr>user_ip4 = 10, user_port = 80, sock_protocol = 17\<rparr> two_backends)) =
     {\<lparr>user_ip4 = 101, user_port = 8080, sock_protocol = 17\<rparr>}"
  using connect_reaches_backends [OF two_represents, of "\<lparr>user_ip4 = 10, user_port = 80, sock_protocol = 17\<rparr>"]
  by (simp add: two_services_def service_of_def is_tcp_def redirect_def IPPROTO_TCP_def)

end
