(* ===== verification/Loxi_Firewall.thy ===== *)
theory Loxi_Firewall
  imports Loxi_Ct
begin

text \<open>
  The firewall of loxilb: the rule list of user space (\<open>common_pdi.c\<close>), its mirror in the table of the datapath
  (\<open>loxilb_libdp.c\<close>) and the lookup of the datapath (\<open>llb_kern_fw.c\<close>).  The theorems: the datapath applies the first
  rule of the list that matches, if the table is not too long for its loop and its length counter; adding a rule and deleting it again
  leaves the table as it was; and the two places where this goes wrong.
\<close>

section \<open>Match fields\<close>

definition LLB_FW4_MAP_ENTRIES :: u16 where "LLB_FW4_MAP_ENTRIES = 8 * 1024"
definition DP_MAX_LOOPS_PER_FWLKUP :: nat where "DP_MAX_LOOPS_PER_FWLKUP = 400"
definition LL_DP_FW4_MAP :: u8 where "LL_DP_FW4_MAP = 27"

definition PDI_SET_DROP :: u32 where "PDI_SET_DROP = 0x8"
definition PDI_SET_FWD :: u32 where "PDI_SET_FWD = 0x20"
definition PDI_SET_TRAP :: u32 where "PDI_SET_TRAP = 0x40"
definition PDI_SET_RDR :: u32 where "PDI_SET_RDR = 0x80"

definition EEXIST :: int where "EEXIST = 17"
definition EFAULT :: int where "EFAULT = 14"

text \<open>A value with its mask.\<close>

record ('a) pdi_tup =
  tval :: 'a
  tvalid :: 'a

text \<open>A port is a range or a value with its mask, in the same two half words: \<open>lo\<close> is \<open>min\<close> or \<open>val\<close>, \<open>hi\<close> is
  \<open>max\<close> or \<open>valid\<close>.\<close>

record pdi_tupr =
  has_range :: u32
  lo :: u16
  hi :: u16

definition PDI_MATCH :: "('a::len word) pdi_tup \<Rightarrow> 'a word pdi_tup \<Rightarrow> bool" where
  "PDI_MATCH v1 v2 \<longleftrightarrow> tvalid v2 = 0 \<or> (tval v1 AND tvalid v2) = tval v2"

definition PDI_RMATCH :: "pdi_tupr \<Rightarrow> pdi_tupr \<Rightarrow> bool" where
  "PDI_RMATCH v1 v2 \<longleftrightarrow>
     has_range v2 \<noteq> 0 \<and> lo v1 \<ge> lo v2 \<and> lo v1 \<le> hi v2 \<or>
     has_range v2 = 0 \<and> (hi v2 = 0 \<or> (lo v1 AND hi v2) = lo v2)"

definition PDI_MATCH_ALL :: "('a::len word) pdi_tup \<Rightarrow> 'a word pdi_tup \<Rightarrow> bool" where
  "PDI_MATCH_ALL v1 v2 \<longleftrightarrow> tvalid v2 = tvalid v1 \<and> (tval v1 AND tvalid v2) = tval v2"

definition PDI_RMATCH_ALL :: "pdi_tupr \<Rightarrow> pdi_tupr \<Rightarrow> bool" where
  "PDI_RMATCH_ALL v1 v2 \<longleftrightarrow>
     has_range v2 = has_range v1 \<and> lo v1 \<ge> lo v2 \<and> lo v1 \<le> hi v2 \<or>
     has_range v2 \<noteq> 0 \<and> hi v2 = hi v1 \<and> (lo v1 AND hi v2) = lo v2"

definition PDI_VAL_INIT :: "'a::len word \<Rightarrow> 'a word pdi_tup" where
  "PDI_VAL_INIT v = \<lparr>tval = v, tvalid = - 1\<rparr>"

definition PDI_RVAL_INIT :: "u16 \<Rightarrow> pdi_tupr" where
  "PDI_RVAL_INIT v = \<lparr>has_range = 0, lo = v, hi = - 1\<rparr>"

definition tup0 :: "'a::len word pdi_tup" where
  "tup0 = \<lparr>tval = 0, tvalid = 0\<rparr>"

record pdi_key =
  k_dest :: "u32 pdi_tup"
  k_source :: "u32 pdi_tup"
  k_dport :: pdi_tupr
  k_sport :: pdi_tupr
  k_inport :: "u16 pdi_tup"
  k_zone :: "u16 pdi_tup"
  k_bd :: "u16 pdi_tup"
  k_protocol :: "u8 pdi_tup"
  k_nr :: "u8 pdi_tup"

definition PDI_KEY_EQ :: "pdi_key \<Rightarrow> pdi_key \<Rightarrow> bool" where
  "PDI_KEY_EQ v1 v2 \<longleftrightarrow> PDI_MATCH_ALL (k_dest v1) (k_dest v2) \<and> PDI_MATCH_ALL (k_source v1) (k_source v2) \<and>
     PDI_RMATCH_ALL (k_dport v1) (k_dport v2) \<and> PDI_RMATCH_ALL (k_sport v1) (k_sport v2) \<and>
     PDI_MATCH_ALL (k_inport v1) (k_inport v2) \<and> PDI_MATCH_ALL (k_zone v1) (k_zone v2) \<and>
     PDI_MATCH_ALL (k_protocol v1) (k_protocol v2) \<and> PDI_MATCH_ALL (k_bd v1) (k_bd v2)"

definition PDI_PKEY_EQ :: "pdi_key \<Rightarrow> pdi_key \<Rightarrow> bool" where
  "PDI_PKEY_EQ v1 v2 \<longleftrightarrow> PDI_MATCH (k_dest v1) (k_dest v2) \<and> PDI_MATCH (k_source v1) (k_source v2) \<and>
     PDI_RMATCH (k_dport v1) (k_dport v2) \<and> PDI_RMATCH (k_sport v1) (k_sport v2) \<and>
     PDI_MATCH (k_inport v1) (k_inport v2) \<and> PDI_MATCH (k_zone v1) (k_zone v2) \<and>
     PDI_MATCH (k_protocol v1) (k_protocol v2) \<and> PDI_MATCH (k_bd v1) (k_bd v2)"

section \<open>The rules in user space\<close>

record pdi_data =
  pref :: u32
  rid :: u32
  pdi_op :: u32
  o_mark :: u16
  o_record :: u16
  o_port :: u16

text \<open>The hash table of the values a rule has matched is the list of their keys.\<close>

record pdi_rule =
  r_key :: pdi_key
  r_data :: pdi_data
  r_hash :: "pdi_key list"

text \<open>The linked list of the rules, and the counter beside it.\<close>

record pdi_map =
  pdi_nr :: u32
  pdi_rules :: "pdi_rule list"

text \<open>One pass along the list: the number of nodes passed and the new list, or \<open>None\<close> when the rule is there already.\<close>

fun insert_loop :: "pdi_rule \<Rightarrow> pdi_rule list \<Rightarrow> nat \<Rightarrow> (nat \<times> pdi_rule list) option" where
  "insert_loop new [] nr = Some (nr, [new])"
| "insert_loop new (node # rest) nr =
     (if pref (r_data new) > pref (r_data node) then Some (nr, new # node # rest)
      else if pref (r_data new) = pref (r_data node) \<and> PDI_KEY_EQ (r_key new) (r_key node) then None
      else map_option (\<lambda>(n, ns). (n, node # ns)) (insert_loop new rest (nr + 1)))"

definition pdi_rule_insert :: "pdi_map \<Rightarrow> pdi_rule \<Rightarrow> int + (nat \<times> pdi_map)" where
  "pdi_rule_insert m new = (case insert_loop new (pdi_rules m) 0 of
     None \<Rightarrow> Inl (- EEXIST)
   | Some (nr, ns) \<Rightarrow> Inr (nr, \<lparr>pdi_nr = pdi_nr m + 1, pdi_rules = ns\<rparr>))"

fun delete_loop :: "pdi_key \<Rightarrow> u32 \<Rightarrow> pdi_rule list \<Rightarrow> nat \<Rightarrow> (nat \<times> pdi_rule list) option" where
  "delete_loop key p [] nr = None"
| "delete_loop key p (node # rest) nr =
     (if p = pref (r_data node) \<and> PDI_KEY_EQ key (r_key node) then Some (nr, rest)
      else map_option (\<lambda>(n, ns). (n, node # ns)) (delete_loop key p rest (nr + 1)))"

definition pdi_rule_delete :: "pdi_map \<Rightarrow> pdi_key \<Rightarrow> u32 \<Rightarrow> int + (nat \<times> pdi_map)" where
  "pdi_rule_delete m key p = (case delete_loop key p (pdi_rules m) 0 of
     None \<Rightarrow> Inl (- 1)
   | Some (nr, ns) \<Rightarrow> Inr (nr, \<lparr>pdi_nr = pdi_nr m - 1, pdi_rules = ns\<rparr>))"

definition pdi_rule_get :: "pdi_rule list \<Rightarrow> pdi_key \<Rightarrow> pdi_rule option" where
  "pdi_rule_get rules val = find (\<lambda>node. PDI_PKEY_EQ val (r_key node)) rules"

section \<open>The table of the kernel\<close>

record dp_fwv4_tact =
  fw_ca :: dp_cmn_act
  fw_oport :: u16

record dp_fwv4_ent =
  fwe_k :: pdi_key
  fwa :: dp_fwv4_tact

definition pdi_key0 :: pdi_key where
  "pdi_key0 = \<lparr>k_dest = tup0, k_source = tup0, k_dport = \<lparr>has_range = 0, lo = 0, hi = 0\<rparr>,
     k_sport = \<lparr>has_range = 0, lo = 0, hi = 0\<rparr>, k_inport = tup0, k_zone = tup0, k_bd = tup0, k_protocol = tup0,
     k_nr = tup0\<rparr>"

definition fwe0 :: dp_fwv4_ent where
  "fwe0 = \<lparr>fwe_k = pdi_key0, fwa = \<lparr>fw_ca = cmn_act0, fw_oport = 0\<rparr>\<rparr>"

text \<open>All fields but the bridge domain and the counter are copied.\<close>

definition llb_dp_pdik2_ufw4 :: "pdi_rule \<Rightarrow> pdi_key" where
  "llb_dp_pdik2_ufw4 new = pdi_key0\<lparr>k_dest := k_dest (r_key new), k_source := k_source (r_key new),
     k_sport := k_sport (r_key new), k_dport := k_dport (r_key new), k_inport := k_inport (r_key new),
     k_protocol := k_protocol (r_key new), k_zone := k_zone (r_key new)\<rparr>"

definition llb_dp_ufw42_pdik :: "pdi_key \<Rightarrow> pdi_key" where
  "llb_dp_ufw42_pdik k = pdi_key0\<lparr>k_dest := k_dest k, k_source := k_source k, k_sport := k_sport k,
     k_dport := k_dport k, k_inport := k_inport k, k_protocol := k_protocol k, k_zone := k_zone k\<rparr>"

definition llb_dp_pdiop2_ufw4 :: "pdi_rule \<Rightarrow> dp_fwv4_tact" where
  "llb_dp_pdiop2_ufw4 new = (
     let d = r_data new;
         c = cmn_act0\<lparr>cidx := rid d, ca_mark := o_mark d, ca_record := o_record d\<rparr>
     in if pdi_op d = PDI_SET_DROP then \<lparr>fw_ca = c\<lparr>act_type := DP_SET_DROP\<rparr>, fw_oport = 0\<rparr>
        else if pdi_op d = PDI_SET_TRAP then \<lparr>fw_ca = c\<lparr>act_type := DP_SET_TOCP\<rparr>, fw_oport = 0\<rparr>
        else if pdi_op d = PDI_SET_RDR then \<lparr>fw_ca = c\<lparr>act_type := DP_SET_RDR_PORT\<rparr>, fw_oport = o_port d\<rparr>
        else if pdi_op d = PDI_SET_FWD then \<lparr>fw_ca = c\<lparr>act_type := DP_SET_NOP\<rparr>, fw_oport = 0\<rparr>
        else \<lparr>fw_ca = c, fw_oport = 0\<rparr>)"

definition llb_dp_ufw42_pdiop :: "dp_fwv4_ent \<Rightarrow> pdi_data" where
  "llb_dp_ufw42_pdiop e = (
     let c = fw_ca (fwa e);
         d = \<lparr>pref = ucast (oaux c), rid = cidx c, pdi_op = 0, o_mark = ca_mark c, o_record = ca_record c, o_port = 0\<rparr>
     in if act_type c = DP_SET_DROP then d\<lparr>pdi_op := PDI_SET_DROP\<rparr>
        else if act_type c = DP_SET_TOCP then d\<lparr>pdi_op := PDI_SET_TRAP\<rparr>
        else if act_type c = DP_SET_RDR_PORT then d\<lparr>pdi_op := PDI_SET_RDR, o_port := fw_oport (fwa e)\<rparr>
        else if act_type c = DP_SET_NOP then d\<lparr>pdi_op := PDI_SET_FWD\<rparr>
        else d)"

definition ufw4_rule :: "dp_fwv4_ent \<Rightarrow> pdi_rule" where
  "ufw4_rule e = \<lparr>r_key = llb_dp_ufw42_pdik (fwe_k e), r_data = llb_dp_ufw42_pdiop e, r_hash = []\<rparr>"

record fw_state =
  ufw4 :: pdi_map
  fw_v4_map :: "dp_fwv4_ent list"

text \<open>An update of the array beyond its end fails.\<close>

definition fw_update :: "dp_fwv4_ent list \<Rightarrow> nat \<Rightarrow> dp_fwv4_ent \<Rightarrow> int \<times> dp_fwv4_ent list" where
  "fw_update t n p = (if n < length t then (0, t[n := p]) else (- EFAULT, t))"

definition ufw4_ent :: "u32 \<Rightarrow> nat \<Rightarrow> pdi_rule \<Rightarrow> dp_fwv4_ent" where
  "ufw4_ent count n r = \<lparr>fwe_k = (if n = 0 then (llb_dp_pdik2_ufw4 r)\<lparr>k_nr := PDI_VAL_INIT (ucast count)\<rparr>
     else llb_dp_pdik2_ufw4 r), fwa = llb_dp_pdiop2_ufw4 r\<rparr>"

text \<open>The loop that writes the first entry and those from \<open>nr\<close> on; it returns what the last update returned.\<close>

fun mirror_loop :: "u32 \<Rightarrow> nat \<Rightarrow> nat \<Rightarrow> pdi_rule list \<Rightarrow> int \<Rightarrow> dp_fwv4_ent list \<Rightarrow> int \<times> dp_fwv4_ent list" where
  "mirror_loop count nr n [] ret t = (ret, t)"
| "mirror_loop count nr n (r # rs) ret t =
     (if n = 0 \<or> n \<ge> nr then
        (let (ret, t) = fw_update t n (ufw4_ent count n r) in mirror_loop count nr (n + 1) rs ret t)
      else mirror_loop count nr (n + 1) rs ret t)"

definition llb_add_mf_map_elem :: "dp_fwv4_ent \<Rightarrow> fw_state \<Rightarrow> int \<times> fw_state" where
  "llb_add_mf_map_elem e s = (case pdi_rule_insert (ufw4 s) (ufw4_rule e) of
     Inl _ \<Rightarrow> (- 1, s)
   | Inr (nr, m) \<Rightarrow>
       let (ret, t) = mirror_loop (pdi_nr m) nr 0 (pdi_rules m) 0 (fw_v4_map s)
       in (ret, \<lparr>ufw4 = m, fw_v4_map = t\<rparr>))"

fun clear_loop :: "nat \<Rightarrow> nat \<Rightarrow> dp_fwv4_ent list \<Rightarrow> dp_fwv4_ent list" where
  "clear_loop n 0 t = t"
| "clear_loop n (Suc k) t = clear_loop (n + 1) k (snd (fw_update t n fwe0))"

definition llb_del_mf_map_elem :: "dp_fwv4_ent \<Rightarrow> fw_state \<Rightarrow> int \<times> fw_state" where
  "llb_del_mf_map_elem e s = (case pdi_rule_delete (ufw4 s) (r_key (ufw4_rule e)) (pref (r_data (ufw4_rule e))) of
     Inl _ \<Rightarrow> (- 1, s)
   | Inr (nr, m) \<Rightarrow>
       let (ret, t) = mirror_loop (pdi_nr m) nr 0 (pdi_rules m) 0 (fw_v4_map s);
           n = length (pdi_rules m);
           t = clear_loop n (unat LLB_FW4_MAP_ENTRIES - n) t
       in (ret, \<lparr>ufw4 = m, fw_v4_map = t\<rparr>))"

section \<open>The lookup in the kernel\<close>

text \<open>The counters are arrays: an index beyond the end has no counter, and the update of the source cannot create one.\<close>

definition map_stats :: "xfi \<Rightarrow> u32 \<Rightarrow> (u32 \<rightharpoonup> dp_pb_stats) \<Rightarrow> (u32 \<rightharpoonup> dp_pb_stats)" where
  "map_stats xf n m = (case m n of
     None \<Rightarrow> m
   | Some c \<Rightarrow> m(n \<mapsto> c\<lparr>pb_bytes := pb_bytes c + ucast (pm_py_bytes (pm xf)), pb_packets := pb_packets c + 1\<rparr>))"

definition fw_key :: "xfi \<Rightarrow> pdi_key" where
  "fw_key xf = pdi_key0\<lparr>
     k_inport := PDI_VAL_INIT (pm_iport (pm xf)), k_zone := PDI_VAL_INIT (pm_zone (pm xf)),
     k_bd := PDI_VAL_INIT (pm_bd (pm xf)), k_dest := PDI_VAL_INIT (bswap32 (addr4 (l34_daddr (l34m xf)))),
     k_source := PDI_VAL_INIT (bswap32 (addr4 (l34_saddr (l34m xf)))),
     k_dport := PDI_RVAL_INIT (bswap16 (l34_dest (l34m xf))), k_sport := PDI_RVAL_INIT (bswap16 (l34_source (l34m xf))),
     k_protocol := PDI_VAL_INIT (nw_proto (l34m xf))\<rparr>"

datatype fw_res = Fw_end | Fw_none | Fw_hit dp_fwv4_ent

text \<open>The loop, with the passes left, the counter \<open>i\<close>, the index and the two bounds in the metadata; the new \<open>fw_mid\<close> is a result
  as well.\<close>

fun fw_loop :: "dp_fwv4_ent list \<Rightarrow> pdi_key \<Rightarrow> u16 \<Rightarrow> nat \<Rightarrow> nat \<Rightarrow> u32 \<Rightarrow> u16 \<Rightarrow> fw_res \<times> u16" where
  "fw_loop t key lid 0 i idx mid = (Fw_none, mid)"
| "fw_loop t key lid (Suc k) i idx mid =
     (if unat idx \<ge> length t then (Fw_end, mid)
      else let fwe = t ! unat idx in
        if idx \<noteq> 0 \<and> i + unat lid \<ge> unat mid then (Fw_none, mid)
        else let mid = (if idx = 0 then ucast (tval (k_nr (fwe_k fwe))) else mid) in
          if tval (k_zone (fwe_k fwe)) \<noteq> 0 \<and> PDI_PKEY_EQ key (fwe_k fwe) then (Fw_hit fwe, mid)
          else fw_loop t key lid k (i + 1) (idx + 1) mid)"

abbreviation set_lid :: "u16 \<Rightarrow> xfi \<Rightarrow> xfi" where
  "set_lid v xf \<equiv> xf\<lparr>pm := (pm xf)\<lparr>pm_fw_lid := v\<rparr>\<rparr>"

definition fw_apply :: "dp_fwv4_tact \<Rightarrow> xfi \<Rightarrow> xfi" where
  "fw_apply act xf = (
     let xf = xf\<lparr>pm := (pm xf)\<lparr>pm_phit := pm_phit (pm xf) OR LLB_DP_FW_HIT, pm_dp_mark := ca_mark (fw_ca act),
                              pm_dp_rec := ca_record (fw_ca act)\<rparr>\<rparr>;
         ty = act_type (fw_ca act);
         xf = (if ty = DP_SET_NOP then xf
               else let xf = (if ty = DP_SET_RDR_PORT
                              then (LLBS_PPLN LLB_PIPE_RDR_PRIO xf)\<lparr>pm := (pm (LLBS_PPLN LLB_PIPE_RDR_PRIO xf))\<lparr>pm_oport := fw_oport act\<rparr>\<rparr>
                              else if ty = DP_SET_TOCP
                              then (LLBS_PPLN LLB_PIPE_TRAP xf)\<lparr>pm := (pm (LLBS_PPLN LLB_PIPE_TRAP xf))\<lparr>pm_rcode := LLB_PIPE_RC_FW_RDR\<rparr>\<rparr>
                              else LLBS_PPLN_DROP xf)
                    in xf\<lparr>pm := (pm xf)\<lparr>pm_phit := pm_phit (pm xf) OR LLB_DP_RES_HIT\<rparr>\<rparr>)
     in xf\<lparr>pm := (pm xf)\<lparr>pm_fw_rid := ucast (cidx (fw_ca act))\<rparr>\<rparr>)"

text \<open>Every path ends in the tail call back to the connection tracker.\<close>

definition dp_do_fw4_main :: "dp_fwv4_ent list \<Rightarrow> xfi \<Rightarrow> (u32 \<rightharpoonup> dp_pb_stats) \<Rightarrow> xfi \<times> (u32 \<rightharpoonup> dp_pb_stats)" where
  "dp_do_fw4_main t xf st = (
     let key = fw_key xf;
         xf = xf\<lparr>pm := (pm xf)\<lparr>pm_table_id := LL_DP_FW4_MAP\<rparr>\<rparr>;
         lid = pm_fw_lid (pm xf);
         (r, mid) = fw_loop t key lid DP_MAX_LOOPS_PER_FWLKUP 0 (ucast lid) (pm_fw_mid (pm xf));
         xf = xf\<lparr>pm := (pm xf)\<lparr>pm_fw_mid := mid\<rparr>\<rparr>
     in case r of
          Fw_end \<Rightarrow> (set_lid LLB_FW4_MAP_ENTRIES xf, st)
        | Fw_none \<Rightarrow>
            let lid = lid + of_nat DP_MAX_LOOPS_PER_FWLKUP
            in (set_lid (if lid \<ge> LLB_FW4_MAP_ENTRIES \<or> lid > mid then LLB_FW4_MAP_ENTRIES else lid) xf, st)
        | Fw_hit fwe \<Rightarrow>
            let xf = set_lid LLB_FW4_MAP_ENTRIES xf
            in (fw_apply (fwa fwe) xf, map_stats xf (cidx (fw_ca (fwa fwe))) st))"


section \<open>The table mirrors the rules\<close>

definition fw_state0 :: fw_state where
  "fw_state0 = \<lparr>ufw4 = \<lparr>pdi_nr = 0, pdi_rules = []\<rparr>, fw_v4_map = replicate (unat LLB_FW4_MAP_ENTRIES) fwe0\<rparr>"

text \<open>The states the control plane can reach.\<close>

inductive fw_reach :: "fw_state \<Rightarrow> bool" where
  Init: "fw_reach fw_state0"
| Add: "fw_reach s \<Longrightarrow> fw_reach (snd (llb_add_mf_map_elem e s))"
| Del: "fw_reach s \<Longrightarrow> fw_reach (snd (llb_del_mf_map_elem e s))"

abbreviation rules :: "fw_state \<Rightarrow> pdi_rule list" where
  "rules s \<equiv> pdi_rules (ufw4 s)"

abbreviation rpref :: "pdi_rule \<Rightarrow> u32" where
  "rpref r \<equiv> pref (r_data r)"

definition by_pref :: "pdi_rule list \<Rightarrow> bool" where
  "by_pref = sorted_wrt (\<lambda>a b. rpref b \<le> rpref a)"

lemma insert_loop_split:
  "insert_loop new rs n = Some (nr, ns) \<Longrightarrow> \<exists>us vs. rs = us @ vs \<and> ns = us @ new # vs \<and> nr = n + length us \<and>
     (\<forall>x \<in> set us. rpref new \<le> rpref x \<and> \<not> (rpref new = rpref x \<and> PDI_KEY_EQ (r_key new) (r_key x))) \<and>
     (vs \<noteq> [] \<longrightarrow> rpref (hd vs) < rpref new)"
proof (induction rs arbitrary: n nr ns)
  case (Cons node rest)
  show ?case
  proof (cases "rpref node < rpref new")
    case True
    then show ?thesis using Cons.prems by (intro exI [of _ "[]"] exI [of _ "node # rest"]) auto
  next
    case False
    with Cons.prems obtain ms where ms: "insert_loop new rest (n + 1) = Some (nr, ms)" "ns = node # ms"
      "\<not> (rpref new = rpref node \<and> PDI_KEY_EQ (r_key new) (r_key node))"
      by (auto split: if_splits)
    then obtain us vs where "rest = us @ vs" "ms = us @ new # vs" "nr = n + 1 + length us"
      "\<forall>x \<in> set us. rpref new \<le> rpref x \<and> \<not> (rpref new = rpref x \<and> PDI_KEY_EQ (r_key new) (r_key x))"
      "vs \<noteq> [] \<longrightarrow> rpref (hd vs) < rpref new"
      using Cons.IH by blast
    with ms False show ?thesis by (intro exI [of _ "node # us"] exI [of _ vs]) auto
  qed
qed auto

lemma delete_loop_split:
  "delete_loop key p rs n = Some (nr, ns) \<Longrightarrow> \<exists>us x vs. rs = us @ x # vs \<and> ns = us @ vs \<and> nr = n + length us \<and>
     rpref x = p \<and> PDI_KEY_EQ key (r_key x) \<and> (\<forall>y \<in> set us. \<not> (p = rpref y \<and> PDI_KEY_EQ key (r_key y)))"
proof (induction rs arbitrary: n nr ns)
  case (Cons node rest)
  show ?case
  proof (cases "p = rpref node \<and> PDI_KEY_EQ key (r_key node)")
    case True
    then show ?thesis using Cons.prems by (intro exI [of _ "[]"] exI [of _ node] exI [of _ rest]) auto
  next
    case False
    with Cons.prems obtain ms where ms: "delete_loop key p rest (n + 1) = Some (nr, ms)" "ns = node # ms"
      by auto
    then obtain us x vs where "rest = us @ x # vs" "ms = us @ vs" "nr = n + 1 + length us" "rpref x = p"
      "PDI_KEY_EQ key (r_key x)" "\<forall>y \<in> set us. \<not> (p = rpref y \<and> PDI_KEY_EQ key (r_key y))"
      using Cons.IH by blast
    with ms False show ?thesis by (intro exI [of _ "node # us"] exI [of _ x] exI [of _ vs]) auto
  qed
qed auto

lemma mirror_loop_table:
  "snd (mirror_loop c nr n rs ret t) = map (\<lambda>k. if n \<le> k \<and> k < n + length rs \<and> (k = 0 \<or> nr \<le> k)
     then ufw4_ent c k (rs ! (k - n)) else t ! k) [0 ..< length t]"
proof (induction rs arbitrary: n ret t)
  case Nil
  then show ?case by (intro nth_equalityI) auto
next
  case (Cons r rs)
  have e: "length (snd (fw_update t n p)) = length t" for p by (simp add: fw_update_def)
  show ?case
    by (rule nth_equalityI)
      (auto simp: Cons.IH fw_update_def Let_def nth_list_update nth_Cons' not_le less_Suc_eq split: if_splits)
qed

lemma clear_loop_table:
  "clear_loop n k t = map (\<lambda>i. if n \<le> i \<and> i < n + k then fwe0 else t ! i) [0 ..< length t]"
proof (induction k arbitrary: n t)
  case 0
  then show ?case by (intro nth_equalityI) auto
next
  case (Suc k)
  show ?case
    by (rule nth_equalityI) (auto simp: Suc.IH fw_update_def nth_list_update split: if_splits)
qed


text \<open>What a table with the right entries looks like.\<close>

definition table_of :: "pdi_rule list \<Rightarrow> dp_fwv4_ent list" where
  "table_of rs = map (\<lambda>n. if n < length rs then ufw4_ent (of_nat (length rs)) n (rs ! n) else fwe0)
     [0 ..< unat LLB_FW4_MAP_ENTRIES]"

lemma ent_count: "0 < n \<Longrightarrow> ufw4_ent c n r = ufw4_ent c' n r"
  by (simp add: ufw4_ent_def)

lemma add_table:
  assumes "length ns = Suc (length (us @ vs))" and "ns = us @ new # vs"
  shows "snd (mirror_loop (of_nat (length ns)) (length us) 0 ns ret (table_of (us @ vs))) = table_of ns"
  unfolding mirror_loop_table
  by (rule nth_equalityI)
    (use assms in \<open>auto simp: table_of_def nth_append intro: ent_count\<close>)


lemma del_table:
  assumes "rs = us @ x # vs" and "ns = us @ vs"
  shows "clear_loop (length ns) (unat LLB_FW4_MAP_ENTRIES - length ns)
    (snd (mirror_loop (of_nat (length ns)) (length us) 0 ns ret (table_of rs))) = table_of ns"
  unfolding mirror_loop_table clear_loop_table
  by (rule nth_equalityI)
    (use assms in \<open>auto simp: table_of_def nth_append intro: ent_count\<close>)

lemma by_pref_insert:
  assumes "by_pref (us @ vs)" and "\<forall>x \<in> set us. rpref new \<le> rpref x" and "vs \<noteq> [] \<longrightarrow> rpref (hd vs) < rpref new"
  shows "by_pref (us @ new # vs)"
proof -
  have "\<forall>x \<in> set vs. rpref x \<le> rpref new"
    using assms(1,3) by (cases vs) (auto simp: by_pref_def sorted_wrt_append intro: order_trans less_imp_le)
  then show ?thesis using assms(1,2) by (auto simp: by_pref_def sorted_wrt_append)
qed

lemma by_pref_delete: "by_pref (us @ x # vs) \<Longrightarrow> by_pref (us @ vs)"
  by (auto simp: by_pref_def sorted_wrt_append)

lemma ufw4_rule_bd [simp]: "k_bd (r_key (ufw4_rule e)) = tup0"
  by (simp add: ufw4_rule_def llb_dp_ufw42_pdik_def pdi_key0_def)

definition fw_state_of :: "pdi_rule list \<Rightarrow> fw_state" where
  "fw_state_of rs = \<lparr>ufw4 = \<lparr>pdi_nr = of_nat (length rs), pdi_rules = rs\<rparr>, fw_v4_map = table_of rs\<rparr>"

lemma rules_state_of [simp]: "rules (fw_state_of rs) = rs"
  by (simp add: fw_state_of_def)

lemma add_eq:
  "snd (llb_add_mf_map_elem e (fw_state_of rs)) =
     (case insert_loop (ufw4_rule e) rs 0 of None \<Rightarrow> fw_state_of rs | Some (nr, ns) \<Rightarrow> fw_state_of ns)"
proof (cases "insert_loop (ufw4_rule e) rs 0")
  case (Some x)
  then obtain nr ns where x: "insert_loop (ufw4_rule e) rs 0 = Some (nr, ns)" by (cases x) auto
  from insert_loop_split [OF this] obtain us vs where "rs = us @ vs" "ns = us @ ufw4_rule e # vs" "nr = length us" by auto
  then show ?thesis using x add_table [of ns us vs "ufw4_rule e"]
    by (simp add: llb_add_mf_map_elem_def pdi_rule_insert_def fw_state_of_def case_prod_unfold Let_def ac_simps)
qed (simp add: llb_add_mf_map_elem_def pdi_rule_insert_def fw_state_of_def)

lemma del_eq:
  "snd (llb_del_mf_map_elem e (fw_state_of rs)) =
     (case delete_loop (r_key (ufw4_rule e)) (rpref (ufw4_rule e)) rs 0 of None \<Rightarrow> fw_state_of rs | Some (nr, ns) \<Rightarrow> fw_state_of ns)"
proof (cases "delete_loop (r_key (ufw4_rule e)) (rpref (ufw4_rule e)) rs 0")
  case (Some x)
  then obtain nr ns where x: "delete_loop (r_key (ufw4_rule e)) (rpref (ufw4_rule e)) rs 0 = Some (nr, ns)" by (cases x) auto
  from delete_loop_split [OF this] obtain us y vs where y: "rs = us @ y # vs" "ns = us @ vs" "nr = length us" by auto
  have "of_nat (length rs) - 1 = (of_nat (length ns) :: u32)" using y by simp
  then show ?thesis using x y(3) del_table [OF y(1,2)]
    by (simp add: llb_del_mf_map_elem_def pdi_rule_delete_def fw_state_of_def case_prod_unfold Let_def)
qed (simp add: llb_del_mf_map_elem_def pdi_rule_delete_def fw_state_of_def)

definition rules_ok :: "pdi_rule list \<Rightarrow> bool" where
  "rules_ok rs \<longleftrightarrow> by_pref rs \<and> (\<forall>r \<in> set rs. k_bd (r_key r) = tup0)"

lemma insert_rules_ok:
  assumes "rules_ok rs" and "insert_loop (ufw4_rule e) rs 0 = Some (nr, ns)"
  shows "rules_ok ns"
  using insert_loop_split [OF assms(2)] assms(1) by_pref_insert by (fastforce simp: rules_ok_def)

lemma delete_rules_ok:
  assumes "rules_ok rs" and "delete_loop k p rs 0 = Some (nr, ns)"
  shows "rules_ok ns"
  using delete_loop_split [OF assms(2)] assms(1) by (auto simp: rules_ok_def intro: by_pref_delete)

lemma fw_reach_state: "fw_reach s \<Longrightarrow> s = fw_state_of (rules s) \<and> rules_ok (rules s)"
proof (induction rule: fw_reach.induct)
  case Init
  show ?case
    by (auto simp: fw_state0_def fw_state_of_def table_of_def rules_ok_def by_pref_def intro!: nth_equalityI)
next
  case (Add s e)
  then have "snd (llb_add_mf_map_elem e s) =
      (case insert_loop (ufw4_rule e) (rules s) 0 of None \<Rightarrow> fw_state_of (rules s) | Some (nr, ns) \<Rightarrow> fw_state_of ns)"
    using add_eq [of e "rules s"] by simp
  then show ?case using Add.IH insert_rules_ok [of "rules s" e] by (auto split: option.split)
next
  case (Del s e)
  then have "snd (llb_del_mf_map_elem e s) = (case delete_loop (r_key (ufw4_rule e)) (rpref (ufw4_rule e)) (rules s) 0
      of None \<Rightarrow> fw_state_of (rules s) | Some (nr, ns) \<Rightarrow> fw_state_of ns)"
    using del_eq [of e "rules s"] by simp
  then show ?case using Del.IH delete_rules_ok [of "rules s"] by (auto split: option.split)
qed


section \<open>The lookup finds the first rule\<close>

definition rule_applies :: "xfi \<Rightarrow> pdi_rule \<Rightarrow> bool" where
  "rule_applies xf r \<longleftrightarrow> tval (k_zone (r_key r)) \<noteq> 0 \<and> PDI_PKEY_EQ (fw_key xf) (r_key r)"

definition ent_matches :: "pdi_key \<Rightarrow> dp_fwv4_ent \<Rightarrow> bool" where
  "ent_matches key fwe \<longleftrightarrow> tval (k_zone (fwe_k fwe)) \<noteq> 0 \<and> PDI_PKEY_EQ key (fwe_k fwe)"

lemma unat_of_nat_u32: "n < 2 ^ 32 \<Longrightarrow> unat (of_nat n :: u32) = n"
  by (simp add: unat_of_nat take_bit_eq_mod)

lemma fw_loop_rest:
  assumes "i + k = 400" and "0 < i" and "unat mid < 256" and "length t = 8192"
  shows "fw_loop t key 0 k i (of_nat i) mid =
    (case find (ent_matches key) (drop i (take (unat mid) t)) of Some e \<Rightarrow> (Fw_hit e, mid) | None \<Rightarrow> (Fw_none, mid))"
  using assms
proof (induction k arbitrary: i)
  case (Suc k)
  have i: "unat (of_nat i :: u32) = i" using Suc.prems by (intro unat_of_nat_u32) auto
  have nz: "(of_nat i :: u32) \<noteq> 0" using i Suc.prems(2) by auto
  have s: "(of_nat i :: u32) + 1 = of_nat (Suc i)" by (simp add: add.commute)
  show ?case
  proof (cases "unat mid \<le> i")
    case True
    then show ?thesis using Suc.prems i nz by simp
  next
    case False
    then have "drop i (take (unat mid) t) = t ! i # drop (Suc i) (take (unat mid) t)"
      using Suc.prems by (subst Cons_nth_drop_Suc [symmetric]) auto
    then show ?thesis
      using False Suc.prems i nz s Suc.IH [of "Suc i"] by (simp add: ent_matches_def Let_def add.commute [of _ 1])
  qed
qed (simp add: DP_MAX_LOOPS_PER_FWLKUP_def)

lemma fw_loop_eq:
  assumes "length t = 8192"
  shows "fw_loop t key 0 400 0 0 mid = (let m = ucast (tval (k_nr (fwe_k (t ! 0)))) in
    (case find (ent_matches key) (take (max 1 (unat m)) t) of Some e \<Rightarrow> (Fw_hit e, m) | None \<Rightarrow> (Fw_none, m)))"
proof -
  let ?m = "ucast (tval (k_nr (fwe_k (t ! 0)))) :: u16"
  have m: "unat ?m < 256" unfolding unat_ucast_mod by (rule le_less_trans [OF mod_less_eq_dividend unat_u8_less])
  have t: "take (max 1 (unat ?m)) t = t ! 0 # drop 1 (take (unat ?m) t)"
    using assms by (cases t) (auto simp: max_def Suc_le_eq take_Cons')
  have "fw_loop t key 0 (Suc 399) 0 0 mid = (if ent_matches key (t ! 0) then (Fw_hit (t ! 0), ?m) else fw_loop t key 0 399 1 1 ?m)"
    unfolding fw_loop.simps(2) using assms by (simp add: ent_matches_def Let_def)
  then show ?thesis
    using fw_loop_rest [of 1 399 ?m t key] m assms t by (simp add: Let_def)
qed


lemma pkey_pdik2: "k_bd (r_key r) = tup0 \<Longrightarrow> PDI_PKEY_EQ key (llb_dp_pdik2_ufw4 r) = PDI_PKEY_EQ key (r_key r)"
  by (simp add: PDI_PKEY_EQ_def llb_dp_pdik2_ufw4_def pdi_key0_def)

lemma zone_pdik2: "k_zone (llb_dp_pdik2_ufw4 r) = k_zone (r_key r)"
  by (simp add: llb_dp_pdik2_ufw4_def)

lemma pkey_nr: "PDI_PKEY_EQ key (k\<lparr>k_nr := x\<rparr>) = PDI_PKEY_EQ key k"
  by (simp add: PDI_PKEY_EQ_def)

lemma ent_matches_rule:
  "k_bd (r_key r) = tup0 \<Longrightarrow> ent_matches (fw_key xf) (ufw4_ent c n r) = rule_applies xf r"
  by (simp add: ent_matches_def ufw4_ent_def rule_applies_def pkey_pdik2 pkey_nr zone_pdik2)

lemma ent_matches_empty: "\<not> ent_matches key fwe0"
  by (simp add: ent_matches_def fwe0_def pdi_key0_def tup0_def)

lemma find_map_idx:
  assumes "\<And>i. i < length xs \<Longrightarrow> P (f (k + i) (xs ! i)) = Q (xs ! i)" and "\<And>i x. h (f i x) = g x"
  shows "map_option h (find P (map (\<lambda>i. f (k + i) (xs ! i)) [0 ..< length xs])) = map_option g (find Q xs)"
  using assms(1)
proof (induction xs arbitrary: k)
  case (Cons x xs)
  have "map_option h (find P (map (\<lambda>i. f (Suc k + i) (xs ! i)) [0 ..< length xs])) = map_option g (find Q xs)"
    using Cons.prems [of "Suc _"] by (intro Cons.IH) simp
  then show ?case
    using Cons.prems [of 0] assms(2) by (simp add: map_upt_Suc del: upt_Suc)
qed simp

lemma take_table:
  assumes "m \<le> length rs" and "m \<le> unat LLB_FW4_MAP_ENTRIES"
  shows "take m (table_of rs) = map (\<lambda>i. ufw4_ent (of_nat (length rs)) i (take m rs ! i)) [0 ..< m]"
  using assms by (intro nth_equalityI) (auto simp: table_of_def)

lemma find_table:
  assumes "m \<le> length rs" and "m \<le> unat LLB_FW4_MAP_ENTRIES" and "\<forall>r \<in> set rs. k_bd (r_key r) = tup0"
  shows "map_option fwa (find (ent_matches (fw_key xf)) (take m (table_of rs))) =
    map_option llb_dp_pdiop2_ufw4 (find (rule_applies xf) (take m rs))"
proof -
  have "take m (table_of rs) = map (\<lambda>i. ufw4_ent (of_nat (length rs)) (0 + i) (take m rs ! i)) [0 ..< length (take m rs)]"
    using assms(1) by (simp add: take_table [OF assms(1,2)] min_absorb2)
  moreover have "ent_matches (fw_key xf) (ufw4_ent c n (take m rs ! i)) = rule_applies xf (take m rs ! i)"
    if "i < length (take m rs)" for c n i
    using assms(3) nth_mem [OF that] by (intro ent_matches_rule) (auto dest: in_set_takeD)
  ultimately show ?thesis
    by (simp only:) (rule find_map_idx, simp_all add: ufw4_ent_def)
qed

text \<open>The lookup on the table of a list of rules: the counter in the first entry has eight bits.\<close>

lemma table_lookup:
  assumes "\<forall>r \<in> set rs. k_bd (r_key r) = tup0"
  shows "\<exists>mid. mid = of_nat (length rs mod 256) \<and> (case find (rule_applies xf) (take (max 1 (length rs mod 256)) rs) of
      None \<Rightarrow> fw_loop (table_of rs) (fw_key xf) 0 400 0 0 mid0 = (Fw_none, mid)
    | Some r \<Rightarrow> \<exists>e. fw_loop (table_of rs) (fw_key xf) 0 400 0 0 mid0 = (Fw_hit e, mid) \<and> fwa e = llb_dp_pdiop2_ufw4 r)"
proof (cases "rs = []")
  case True
  have t: "table_of rs = replicate 8192 fwe0"
    by (rule nth_equalityI) (auto simp: table_of_def True LLB_FW4_MAP_ENTRIES_def)
  have z: "tval (k_nr (fwe_k (table_of rs ! 0))) = 0" "take (max 1 0) (table_of rs) = [fwe0]" "length (table_of rs) = 8192"
    by (simp_all add: t fwe0_def pdi_key0_def tup0_def take_replicate)
  have "fw_loop (table_of rs) (fw_key xf) 0 400 0 0 mid0 = (Fw_none, 0)"
    unfolding fw_loop_eq [OF z(3)] z(1) Let_def using z(2) ent_matches_empty by simp
  then show ?thesis using True by simp
next
  case False
  let ?n = "length rs" and ?m = "max 1 (length rs mod 256)"
  have l: "length (table_of rs) = 8192" by (simp add: table_of_def LLB_FW4_MAP_ENTRIES_def)
  have c: "tval (k_nr (fwe_k (table_of rs ! 0))) = ucast (of_nat ?n :: u32)"
    using False by (simp add: table_of_def ufw4_ent_def LLB_FW4_MAP_ENTRIES_def PDI_VAL_INIT_def)
  have u: "ucast (ucast (of_nat ?n :: u32) :: u8) = (of_nat (?n mod 256) :: u16)"
    by (rule unsigned_word_eqI [where 'a = nat]) (simp add: unat_ucast_mod unat_of_nat take_bit_eq_mod mod_mod_cancel)
  have ut: "unat (of_nat (?n mod 256) :: u16) = ?n mod 256"
    by (simp add: unat_of_nat take_bit_eq_mod)
  have m: "?m \<le> ?n" "?m \<le> unat LLB_FW4_MAP_ENTRIES"
    using False by (cases rs) (auto simp: LLB_FW4_MAP_ENTRIES_def intro: order_trans [OF less_imp_le [OF mod_less_divisor]])
  have "map_option fwa (find (ent_matches (fw_key xf)) (take ?m (table_of rs))) =
      map_option llb_dp_pdiop2_ufw4 (find (rule_applies xf) (take ?m rs))"
    by (rule find_table [OF m assms])
  then show ?thesis
    using fw_loop_eq [OF l, of "fw_key xf" mid0] unfolding c u ut Let_def
    by (auto simp: eq_commute [of "Some _" "map_option _ _"] split: option.splits)
qed


text \<open>What a lookup that starts afresh leaves in the metadata whatever it finds.\<close>

definition looked_up :: "nat \<Rightarrow> xfi \<Rightarrow> xfi" where
  "looked_up n xf = xf\<lparr>pm := (pm xf)\<lparr>pm_table_id := LL_DP_FW4_MAP, pm_fw_mid := of_nat (n mod 256),
     pm_fw_lid := LLB_FW4_MAP_ENTRIES\<rparr>\<rparr>"

lemma fw4_main_eq:
  assumes "fw_reach s" and "pm_fw_lid (pm xf) = 0"
  shows "dp_do_fw4_main (fw_v4_map s) xf st =
    (let n = length (rules s) in case find (rule_applies xf) (take (max 1 (n mod 256)) (rules s)) of
       None \<Rightarrow> (looked_up n xf, st)
     | Some r \<Rightarrow> (fw_apply (llb_dp_pdiop2_ufw4 r) (looked_up n xf), map_stats xf (rid (r_data r)) st))"
proof -
  let ?n = "length (rules s)"
  have t: "fw_v4_map s = table_of (rules s)" and b: "\<forall>r \<in> set (rules s). k_bd (r_key r) = tup0"
    using fw_reach_state [OF assms(1)] by (auto simp: rules_ok_def fw_state_of_def) (metis fw_state.select_convs(2))
  have l: "(of_nat 400 :: u16) > of_nat (?n mod 256)"
    by (simp add: word_less_nat_alt unat_of_nat take_bit_eq_mod less_trans [OF mod_less_divisor])
  have c: "cidx (fw_ca (llb_dp_pdiop2_ufw4 r)) = rid (r_data r)" for r
    by (simp add: llb_dp_pdiop2_ufw4_def Let_def)
  have m: "map_stats (xf\<lparr>pm := p\<rparr>) k st = map_stats xf k st" if "pm_py_bytes p = pm_py_bytes (pm xf)" for p k
    using that by (simp add: map_stats_def split: option.split)
  show ?thesis
    using table_lookup [OF b, of xf "pm_fw_mid (pm xf)"] assms(2) l unfolding t
    by (auto simp: dp_do_fw4_main_def Let_def DP_MAX_LOOPS_PER_FWLKUP_def looked_up_def c m split: option.splits)
qed


lemma by_pref_find:
  assumes "by_pref rs" and "find P rs = Some r"
  shows "\<forall>r' \<in> set rs. P r' \<longrightarrow> rpref r' \<le> rpref r"
  using assms by (induction rs) (auto simp: by_pref_def split: if_splits)

section \<open>Properties\<close>

text \<open>C16: The firewall from end to end: after any sequence of rules added and deleted through the control plane, with at most
  255 rules left, the lookup in the kernel carries out the rule of the highest preference that
  applies to the packet, and leaves the packet alone if there is none.\<close>

theorem firewall_enforces_rules:
  assumes "fw_reach s" and "length (pdi_rules (ufw4 s)) \<le> 255" and "pm_fw_lid (pm xf) = 0"
  shows "(\<forall>r \<in> set (pdi_rules (ufw4 s)). \<not> rule_applies xf r) \<and>
        dp_do_fw4_main (fw_v4_map s) xf st = (looked_up (length (pdi_rules (ufw4 s))) xf, st) \<or>
      (\<exists>r \<in> set (pdi_rules (ufw4 s)). rule_applies xf r \<and>
        (\<forall>r' \<in> set (pdi_rules (ufw4 s)). rule_applies xf r' \<longrightarrow> pref (r_data r') \<le> pref (r_data r)) \<and>
        dp_do_fw4_main (fw_v4_map s) xf st =
          (fw_apply (llb_dp_pdiop2_ufw4 r) (looked_up (length (pdi_rules (ufw4 s))) xf), map_stats xf (rid (r_data r)) st))"
proof -
  have b: "by_pref (rules s)" using fw_reach_state [OF assms(1)] by (simp add: rules_ok_def)
  have m: "take (max 1 (length (rules s) mod 256)) (rules s) = rules s" using assms(2) by simp
  show ?thesis
  proof (cases "find (rule_applies xf) (rules s)")
    case None
    then have "\<forall>r \<in> set (rules s). \<not> rule_applies xf r" by (metis find_None_iff)
    then show ?thesis
      using fw4_main_eq [OF assms(1,3), of st] None unfolding m Let_def by simp
  next
    case (Some r)
    then have "r \<in> set (rules s)" "rule_applies xf r" by (auto simp: find_Some_iff)
    then show ?thesis
      using fw4_main_eq [OF assms(1,3), of st] by_pref_find [OF b Some] Some unfolding m Let_def by auto
  qed
qed

text \<open>C33: The number of rules travels to the kernel in eight bits: of \<open>n\<close> rules only the first \<open>n mod 256\<close> (or the first one) are
  ever tried, so with 256 rules or more a packet that only a later rule drops gets through.\<close>

theorem firewall_rules_ignored:
  assumes "fw_reach s" and "pm_fw_lid (pm xf) = 0" and "n = length (pdi_rules (ufw4 s))"
    and "\<forall>r \<in> set (take (max 1 (n mod 256)) (pdi_rules (ufw4 s))). \<not> rule_applies xf r"
  shows "dp_do_fw4_main (fw_v4_map s) xf st = (looked_up n xf, st)"
proof -
  have "find (rule_applies xf) (take (max 1 (n mod 256)) (rules s)) = None"
    using assms(4) by (simp add: find_None_iff)
  then show ?thesis using fw4_main_eq [OF assms(1,2), of st] assms(3) by (simp add: Let_def)
qed

text \<open>A rule that is equal to itself: masks cover the values and ranges are not empty.\<close>

definition tup_ok :: "'a::len word pdi_tup \<Rightarrow> bool" where
  "tup_ok t \<longleftrightarrow> (tval t AND tvalid t) = tval t"

definition key_ok :: "pdi_key \<Rightarrow> bool" where
  "key_ok k \<longleftrightarrow> tup_ok (k_dest k) \<and> tup_ok (k_source k) \<and> tup_ok (k_inport k) \<and> tup_ok (k_zone k) \<and> tup_ok (k_protocol k) \<and>
     lo (k_dport k) \<le> hi (k_dport k) \<and> lo (k_sport k) \<le> hi (k_sport k)"

lemma key_eq_self: "key_ok (fwe_k e) \<Longrightarrow> PDI_KEY_EQ (r_key (ufw4_rule e)) (r_key (ufw4_rule e))"
  by (simp add: PDI_KEY_EQ_def key_ok_def tup_ok_def PDI_MATCH_ALL_def PDI_RMATCH_ALL_def ufw4_rule_def
      llb_dp_ufw42_pdik_def pdi_key0_def tup0_def)

lemma delete_loop_skip:
  "\<forall>y \<in> set us. \<not> (p = rpref y \<and> PDI_KEY_EQ key (r_key y)) \<Longrightarrow> p = rpref x \<Longrightarrow> PDI_KEY_EQ key (r_key x) \<Longrightarrow>
     delete_loop key p (us @ x # vs) n = Some (n + length us, us @ vs)"
  by (induction us arbitrary: n) auto



lemma insert_loop_None:
  "\<forall>y \<in> set us. rpref new \<le> rpref y \<Longrightarrow> rpref new = rpref x \<Longrightarrow> PDI_KEY_EQ (r_key new) (r_key x) \<Longrightarrow>
     insert_loop new (us @ x # vs) n = None"
  by (induction us arbitrary: n) (auto simp: not_less)

text \<open>Rules for different ports are taken for the same rule: once a rule for port \<open>a\<close> is in, a rule that differs from it only in being for a
  higher port \<open>b\<close> is refused as a duplicate.\<close>

theorem firewall_ports_collide:
  assumes "fw_reach s" and "llb_add_mf_map_elem e1 s = (ret, s')" and "s' \<noteq> s" and "key_ok (fwe_k e1)"
    and "k_dport (fwe_k e1) = \<lparr>has_range = 0, lo = a, hi = 0xFFFF\<rparr>" and "a < b"
    and "e2 = e1\<lparr>fwe_k := (fwe_k e1)\<lparr>k_dport := \<lparr>has_range = 0, lo = b, hi = 0xFFFF\<rparr>\<rparr>\<rparr>"
  shows "llb_add_mf_map_elem e2 s' = (- 1, s')"
proof -
  have s: "s = fw_state_of (rules s)" using fw_reach_state [OF assms(1)] by simp
  then have "s' = (case insert_loop (ufw4_rule e1) (rules s) 0 of None \<Rightarrow> fw_state_of (rules s) | Some (nr, ns) \<Rightarrow> fw_state_of ns)"
    using add_eq [of e1 "rules s"] assms(2) by (metis snd_conv)
  with s assms(3) obtain nr ns where i: "insert_loop (ufw4_rule e1) (rules s) 0 = Some (nr, ns)" "s' = fw_state_of ns"
    by (auto split: option.splits)
  from insert_loop_split [OF i(1)] obtain us vs where us: "ns = us @ ufw4_rule e1 # vs"
    "\<forall>x \<in> set us. rpref (ufw4_rule e1) \<le> rpref x" by blast
  have p: "rpref (ufw4_rule e2) = rpref (ufw4_rule e1)"
    by (simp add: assms(7) ufw4_rule_def llb_dp_ufw42_pdiop_def Let_def)
  have "b \<le> 0xFFFF" using unat_u16_less [of b] by (simp add: word_le_nat_alt)
  then have "PDI_KEY_EQ (r_key (ufw4_rule e2)) (r_key (ufw4_rule e1))"
    using assms(4-6) by (simp add: assms(7) PDI_KEY_EQ_def key_ok_def tup_ok_def PDI_MATCH_ALL_def PDI_RMATCH_ALL_def ufw4_rule_def
      llb_dp_ufw42_pdik_def pdi_key0_def tup0_def)
  then have "insert_loop (ufw4_rule e2) ns 0 = None"
    unfolding us(1) using us(2) p by (intro insert_loop_None) simp_all
  then show ?thesis by (simp add: i(2) llb_add_mf_map_elem_def pdi_rule_insert_def fw_state_of_def)
qed

section \<open>A control plane at work\<close>

definition fw_ent :: "nat \<Rightarrow> dp_fwv4_ent" where
  "fw_ent i = fwe0\<lparr>fwe_k := pdi_key0\<lparr>k_dest := PDI_VAL_INIT (of_nat i), k_zone := PDI_VAL_INIT 1,
       k_dport := \<lparr>has_range = 0, lo = 80, hi = 0xFFFF\<rparr>\<rparr>,
     fwa := (fwa fwe0)\<lparr>fw_ca := cmn_act0\<lparr>oaux := of_nat (Suc i), act_type := DP_SET_DROP\<rparr>\<rparr>\<rparr>"

fun many :: "nat \<Rightarrow> fw_state" where
  "many 0 = fw_state0"
| "many (Suc i) = snd (llb_add_mf_map_elem (fw_ent i) (many i))"

lemma many_reach: "fw_reach (many n)"
  by (induction n) (auto intro: fw_reach.intros)

lemma fw_ent_pref: "i < 65535 \<Longrightarrow> rpref (ufw4_rule (fw_ent i)) = of_nat (Suc i)"
  by (simp add: ufw4_rule_def llb_dp_ufw42_pdiop_def Let_def fw_ent_def cmn_act0_def dp_set_defs
      word_unat_eq_iff unat_ucast_mod unat_of_nat take_bit_eq_mod unat_word_ariths)

lemma many_rules: "n \<le> 65535 \<Longrightarrow> rules (many n) = map (\<lambda>i. ufw4_rule (fw_ent i)) (rev [0 ..< n])"
proof (induction n)
  case (Suc n)
  have s: "many n = fw_state_of (rules (many n))" using fw_reach_state [OF many_reach] by simp
  have "insert_loop (ufw4_rule (fw_ent n)) (rules (many n)) 0 = Some (0, ufw4_rule (fw_ent n) # rules (many n))"
  proof (cases n)
    case (Suc k)
    have "(of_nat (Suc k) :: u32) < of_nat (Suc n)"
      using Suc \<open>Suc n \<le> 65535\<close> by (simp add: word_less_nat_alt unat_of_nat take_bit_eq_mod unat_word_ariths)
    then show ?thesis using Suc.IH \<open>Suc n \<le> 65535\<close> Suc fw_ent_pref [of k] fw_ent_pref [of n] by simp
  qed (use Suc.IH in simp)
  then show ?case using Suc add_eq [of "fw_ent n" "rules (many n)"] s by simp
qed (simp add: fw_state0_def)


definition to_zero :: xfi where
  "to_zero = xfi0\<lparr>pm := (pm xfi0)\<lparr>pm_zone := 1\<rparr>, l34m := (l34m xfi0)\<lparr>l34_dest := 0x5000\<rparr>\<rparr>"

lemma bswap_consts: "bswap16 0x5000 = 80" "bswap32 0 = 0"
  by (simp_all add: bswap16_def bswap32_def)

lemma applies_fw_ent: "i < 65535 \<Longrightarrow> rule_applies to_zero (ufw4_rule (fw_ent i)) \<longleftrightarrow> i = 0"
proof -
  assume "i < 65535"
  then have "(of_nat i :: u32) = 0 \<longleftrightarrow> i = 0" by (simp add: word_unat_eq_iff unat_of_nat take_bit_eq_mod)
  then show ?thesis
    by (auto simp: rule_applies_def ufw4_rule_def fw_ent_def llb_dp_ufw42_pdik_def pdi_key0_def fwe0_def PDI_PKEY_EQ_def
        PDI_MATCH_def PDI_RMATCH_def fw_key_def PDI_VAL_INIT_def PDI_RVAL_INIT_def to_zero_def xfi0_def l34m0_def XADDR0_def
        bswap_consts tup0_def)
qed

theorem firewall_enforces_rules_witness:
  "\<exists>r. rule_applies to_zero r \<and> dp_do_fw4_main (fw_v4_map (many 3)) to_zero Map.empty =
     (fw_apply (llb_dp_pdiop2_ufw4 r) (looked_up 3 to_zero), map_stats to_zero (rid (r_data r)) Map.empty)"
proof -
  have l: "pm_fw_lid (pm to_zero) = 0" by (simp add: to_zero_def xfi0_def)
  have r: "rules (many 3) = map (\<lambda>i. ufw4_rule (fw_ent i)) (rev [0 ..< 3])" by (rule many_rules) simp
  then have "ufw4_rule (fw_ent 0) \<in> set (rules (many 3))" "rule_applies to_zero (ufw4_rule (fw_ent 0))"
    by (auto simp: applies_fw_ent)
  then show ?thesis
    using firewall_enforces_rules [OF many_reach _ l, of 3 Map.empty] r by auto
qed

theorem firewall_rules_ignored_witness:
  "(\<exists>r \<in> set (pdi_rules (ufw4 (many 256))). rule_applies to_zero r) \<and>
   dp_do_fw4_main (fw_v4_map (many 256)) to_zero Map.empty = (looked_up 256 to_zero, Map.empty)"
proof -
  have l: "pm_fw_lid (pm to_zero) = 0" by (simp add: to_zero_def xfi0_def)
  have r: "rules (many 256) = map (\<lambda>i. ufw4_rule (fw_ent i)) (rev [0 ..< 256])" by (rule many_rules) simp
  have f: "rev [0 ..< 256 :: nat] = 255 # rev [0 ..< 255]" using upt_Suc_append [of 0 255] by simp
  have "\<forall>r \<in> set (take (max 1 (256 mod 256)) (rules (many 256))). \<not> rule_applies to_zero r"
    unfolding r f by (simp add: applies_fw_ent)
  then have "dp_do_fw4_main (fw_v4_map (many 256)) to_zero Map.empty = (looked_up 256 to_zero, Map.empty)"
    using r by (intro firewall_rules_ignored [OF many_reach l]) simp_all
  moreover have "ufw4_rule (fw_ent 0) \<in> set (rules (many 256))" "rule_applies to_zero (ufw4_rule (fw_ent 0))"
    unfolding r by (auto simp: applies_fw_ent)
  ultimately show ?thesis by blast
qed

lemma fw_ent_ok: "key_ok (fwe_k (fw_ent i))"
  by (simp add: key_ok_def tup_ok_def fw_ent_def PDI_VAL_INIT_def pdi_key0_def tup0_def fwe0_def)

lemma many_grows: "n < 65535 \<Longrightarrow> many (Suc n) \<noteq> many n"
  using many_rules [of n] many_rules [of "Suc n"] by (metis Suc_le_eq diff_Suc_1 length_map length_rev length_upt
      diff_zero less_imp_le_nat n_not_Suc_n)


theorem firewall_ports_collide_witness:
  "llb_add_mf_map_elem ((fw_ent 2)\<lparr>fwe_k := (fwe_k (fw_ent 2))\<lparr>k_dport := \<lparr>has_range = 0, lo = 443, hi = 0xFFFF\<rparr>\<rparr>\<rparr>) (many 3) = (- 1, many 3)"
proof -
  have "llb_add_mf_map_elem (fw_ent 2) (many 2) = (fst (llb_add_mf_map_elem (fw_ent 2) (many 2)), many 3)"
    by (simp add: numeral_3_eq_3 numeral_2_eq_2 prod_eq_iff)
  moreover have "many 3 \<noteq> many 2" using many_grows [of 2] by (simp add: numeral_3_eq_3 numeral_2_eq_2)
  ultimately show ?thesis
    by (rule firewall_ports_collide [OF many_reach, where a = 80 and b = 443])
      (simp_all add: fw_ent_ok, simp add: fw_ent_def)
qed

end
