(* ===== verification/Loxi_Sum.thy ===== *)
theory Loxi_Sum
  imports Loxi_State
begin

text \<open>
  The checksum of SCTP in \<open>llb_kern_sum.c\<close>: the table of user space, the program that runs over the packet in slices and calls
  itself, and the proof that this is CRC-32C.
\<close>

section \<open>The table\<close>

text \<open>\<open>llb_setup_crc32c_map\<close> of user space fills the table; one step of its eight.\<close>

definition crc_bit :: "u32 \<Rightarrow> u32" where
  "crc_bit crc = (if crc AND 1 \<noteq> 0 then drop_bit 1 crc XOR 0x82f63b78 else drop_bit 1 crc)"

definition llb_setup_crc32c_map :: "u32 list" where
  "llb_setup_crc32c_map = map (\<lambda>i. (crc_bit ^^ 8) (of_nat i)) [0 ..< 256]"

definition get_crc32c_map :: "u32 list \<Rightarrow> u8 \<Rightarrow> u32" where
  "get_crc32c_map t off = (if unat off < length t then t ! unat off else 0)"

section \<open>The program\<close>

definition DP_MAX_LOOPS_PER_TCALL :: nat where "DP_MAX_LOOPS_PER_TCALL = 256"

text \<open>The loop with the passes left, the offset, the bytes left and the checksum so far; \<open>None\<close> if a byte cannot be read.\<close>

fun crc_loop :: "u32 list \<Rightarrow> packet \<Rightarrow> nat \<Rightarrow> nat \<Rightarrow> nat \<Rightarrow> u32 \<Rightarrow> (nat \<times> nat \<times> u32) option" where
  "crc_loop t p 0 off rlen crc = Some (off, rlen, crc)"
| "crc_loop t p (Suc k) off rlen crc =
     (if rlen > 0 then do {
        pb \<leftarrow> ld8 p off;
        let idx = ucast ((crc XOR ucast pb) AND 0xff) :: u8;
            tbval = get_crc32c_map t idx
        in crc_loop t p k (off + 1) (rlen - 1) (tbval XOR drop_bit 8 crc) }
      else Some (off, rlen, crc))"

text \<open>What a run ends in: the packet goes on through the tail call back to the tracker, the other checksum program is called for
  the rest, or the packet is dropped.\<close>

datatype crc_res = Crc_out packet xfi | Crc_more xfi | Crc_drop xfi

definition dp_sctp_csum :: "u32 list \<Rightarrow> packet \<Rightarrow> xfi \<Rightarrow> crc_res" where
  "dp_sctp_csum t p xf = (
     let tcall = NOT (skey xf ! 0);
         off = unat (u16_at (skey xf) 2);
         rlen = unat (u16_at (skey xf) 4);
         crc = (if off \<noteq> 0 then u32_at (skey xf) 8 else 0xffffffff)
     in case crc_loop t p DP_MAX_LOOPS_PER_TCALL off rlen crc of
          None \<Rightarrow> Crc_drop xf
        | Some (off, rlen, crc) \<Rightarrow>
            if rlen = 0 then
              (if nw_proto (l34m xf) = IPPROTO_SCTP then
                 (if unat (pm_l4_off (pm xf)) + 12 > length p then Crc_drop (LLBS_PPLN_DROP xf)
                  else Crc_out (patch p (unat (pm_l4_off (pm xf)) + 8) (le_bytes 4 (crc XOR 0xffffffff)))
                         (xf\<lparr>pm := (pm xf)\<lparr>pm_nf := 0, pm_phit := pm_phit (pm xf) OR LLB_DP_RES_HIT\<rparr>\<rparr>))
               else Crc_out p (xf\<lparr>pm := (pm xf)\<lparr>pm_phit := pm_phit (pm xf) OR LLB_DP_RES_HIT\<rparr>\<rparr>))
            else Crc_more (xf\<lparr>skey := patch (patch (patch (patch (skey xf) 0 [tcall]) 2 (le_bytes 2 (of_nat off :: u16)))
                                4 (le_bytes 2 (of_nat rlen :: u16))) 8 (le_bytes 4 crc)\<rparr>))"

definition dp_csum_tcall :: "xfi \<Rightarrow> xfi" where
  "dp_csum_tcall xf = xf\<lparr>skey := patch (patch (patch (patch (skey xf) 0 [0])
     2 (le_bytes 2 (ucast (pm_l4_off (pm xf)) :: u16))) 4 (le_bytes 2 (pm_l3_plen (pm xf)))) 8 (le_bytes 4 (0xffffffff :: u32))\<rparr>"

text \<open>The two programs call each other, as long as the kernel lets them: \<open>k\<close> is the number of tail calls it still allows.\<close>

fun crc_run :: "nat \<Rightarrow> u32 list \<Rightarrow> packet \<Rightarrow> xfi \<Rightarrow> crc_res" where
  "crc_run k t p xf = (case dp_sctp_csum t p xf of
     Crc_more xf' \<Rightarrow> (case k of 0 \<Rightarrow> Crc_drop xf' | Suc k \<Rightarrow> crc_run k t p xf')
   | r \<Rightarrow> r)"

section \<open>The table computes the polynomial\<close>

text \<open>CRC-32C as it is defined: byte by byte, bit by bit, no table.\<close>

fun crc32c :: "u8 list \<Rightarrow> u32 \<Rightarrow> u32" where
  "crc32c [] c = c"
| "crc32c (b # bs) c = crc32c bs ((crc_bit ^^ 8) (c XOR ucast b))"

lemma crc_bit_eq: "crc_bit c = drop_bit 1 c XOR (if bit c 0 then 0x82f63b78 else 0)"
  by (simp add: crc_bit_def and_one_eq odd_iff_mod_2_eq_one bit_0)

lemma crc_bit_xor: "crc_bit (a XOR b) = crc_bit a XOR crc_bit b"
  unfolding crc_bit_eq by (rule bit_word_eqI) (auto simp: bit_simps)

lemma crc_bits_xor: "(crc_bit ^^ n) (a XOR b) = (crc_bit ^^ n) a XOR (crc_bit ^^ n) b"
  by (induction n) (simp_all add: crc_bit_xor)

lemma crc_bits_shift: "\<forall>i < n. \<not> bit y i \<Longrightarrow> (crc_bit ^^ n) y = drop_bit n y"
proof (induction n arbitrary: y)
  case (Suc n)
  then have "crc_bit y = drop_bit 1 y" by (auto simp: crc_bit_eq)
  moreover have "(crc_bit ^^ n) (drop_bit 1 y) = drop_bit n (drop_bit 1 y)"
    using Suc.prems by (intro Suc.IH) (auto simp: bit_simps)
  ultimately show ?case by (simp add: funpow_swap1)
qed simp

lemma mask_byte: "(0xff :: u32) = mask 8"
  by (simp add: mask_eq_exp_minus_1)

lemma low_byte_parts: "(x :: u32) = (x AND 0xff) XOR push_bit 8 (drop_bit 8 x)"
  unfolding mask_byte by (rule bit_word_eqI) (auto simp: bit_simps)

lemma byte_index: "ucast (ucast (x AND 0xff) :: u8) = (x AND 0xff :: u32)"
  unfolding mask_byte by (rule bit_word_eqI) (auto simp: bit_simps)

lemma crc_table_step:
  "get_crc32c_map llb_setup_crc32c_map (ucast ((crc XOR ucast (pb :: u8)) AND 0xff)) XOR drop_bit 8 crc =
     (crc_bit ^^ 8) (crc XOR ucast pb)"
proof -
  let ?x = "crc XOR ucast pb"
  have d: "drop_bit 8 ?x = drop_bit 8 crc"
    by (rule bit_word_eqI) (auto simp: bit_simps dest: bit_imp_le_length)
  have "(crc_bit ^^ 8) ?x = (crc_bit ^^ 8) (?x AND 0xff) XOR (crc_bit ^^ 8) (push_bit 8 (drop_bit 8 ?x))"
    by (subst low_byte_parts) (rule crc_bits_xor)
  also have "(crc_bit ^^ 8) (push_bit 8 (drop_bit 8 ?x)) = drop_bit 8 (push_bit 8 (drop_bit 8 ?x))"
    by (rule crc_bits_shift) (simp add: bit_simps)
  also have "\<dots> = drop_bit 8 crc"
    unfolding d by (rule bit_word_eqI) (auto simp: bit_simps dest: bit_imp_le_length)
  also have "(crc_bit ^^ 8) (?x AND 0xff) = get_crc32c_map llb_setup_crc32c_map (ucast (?x AND 0xff))"
    using unat_u8_less [of "ucast (?x AND 0xff)"]
    by (simp add: get_crc32c_map_def llb_setup_crc32c_map_def byte_index)
  finally show ?thesis by simp
qed

section \<open>The loops\<close>

lemma crc_loop_eq:
  "off + rlen \<le> length p \<Longrightarrow> crc_loop llb_setup_crc32c_map p k off rlen crc =
     Some (off + min k rlen, rlen - min k rlen, crc32c (bytes_at p off (min k rlen)) crc)"
proof (induction k arbitrary: off rlen crc)
  case (Suc k)
  show ?case
  proof (cases rlen)
    case (Suc n)
    then have "bytes_at p off (Suc (min k n)) = p ! off # bytes_at p (Suc off) (min k n)"
      using Suc.prems by (simp add: Cons_nth_drop_Suc [symmetric])
    then show ?thesis
      using Suc Suc.prems Suc.IH [of "off + 1" n] by (simp add: ld8_at crc_table_step Let_def)
  qed simp
qed simp

lemma crc32c_append: "crc32c (as @ bs) c = crc32c bs (crc32c as c)"
  by (induction as arbitrary: c) simp_all


definition crc_state :: "nat \<Rightarrow> nat \<Rightarrow> u32 \<Rightarrow> u8 list \<Rightarrow> bool" where
  "crc_state off rlen crc sk \<longleftrightarrow> length sk = 16 \<and> u16_at sk 2 = of_nat off \<and> u16_at sk 4 = of_nat rlen \<and> u32_at sk 8 = crc"

lemma crc_state_patches:
  assumes "length sk = 16"
  shows "crc_state off rlen crc (patch (patch (patch (patch sk 0 [b]) 2 (le_bytes 2 (of_nat off :: u16)))
    4 (le_bytes 2 (of_nat rlen :: u16))) 8 (le_bytes 4 crc))"
  using assms by (simp add: crc_state_def bytes_at_patch_other bytes_at_patch_same le_word_bytes)

definition crc_done :: "xfi \<Rightarrow> u8 list \<Rightarrow> xfi" where
  "crc_done xf sk = xf\<lparr>skey := sk, pm := (pm xf)\<lparr>pm_nf := 0, pm_phit := pm_phit (pm xf) OR LLB_DP_RES_HIT\<rparr>\<rparr>"

lemma unat_u16_of_nat: "n < 65536 \<Longrightarrow> unat (of_nat n :: u16) = n"
  by (simp add: unat_of_nat take_bit_eq_mod)

lemma crc_run_eq:
  assumes "crc_state off rlen crc (skey xf)" and "0 < off" and "off + rlen \<le> length p" and "off + rlen < 65536"
    and "rlen \<le> 256 * (k + 1)" and "nw_proto (l34m xf) = IPPROTO_SCTP" and "unat (pm_l4_off (pm xf)) + 12 \<le> length p"
  shows "\<exists>sk. crc_run k llb_setup_crc32c_map p xf =
    Crc_out (patch p (unat (pm_l4_off (pm xf)) + 8) (le_bytes 4 (crc32c (bytes_at p off rlen) crc XOR 0xffffffff))) (crc_done xf sk)"
  using assms
proof (induction k arbitrary: off rlen crc xf)
  case 0
  then have "unat (u16_at (skey xf) 2) = off" "unat (u16_at (skey xf) 4) = rlen" "u32_at (skey xf) 8 = crc"
    by (simp_all add: crc_state_def unat_u16_of_nat)
  then show ?case
    using 0 crc_loop_eq [OF "0.prems"(3), of 256 crc]
    by (auto simp: dp_sctp_csum_def DP_MAX_LOOPS_PER_TCALL_def Let_def crc_done_def min_absorb2 intro!: exI [of _ "skey xf"])
next
  case (Suc k)
  then have st: "unat (u16_at (skey xf) 2) = off" "unat (u16_at (skey xf) 4) = rlen" "u32_at (skey xf) 8 = crc"
    by (simp_all add: crc_state_def unat_u16_of_nat)
  show ?case
  proof (cases "rlen \<le> 256")
    case True
    then show ?thesis
      using Suc.prems st crc_loop_eq [OF Suc.prems(3), of 256 crc]
      by (auto simp: dp_sctp_csum_def DP_MAX_LOOPS_PER_TCALL_def Let_def crc_done_def min_absorb2 intro!: exI [of _ "skey xf"])
  next
    case False
    let ?crc = "crc32c (bytes_at p off 256) crc"
    define sk where "sk = patch (patch (patch (patch (skey xf) 0 [NOT (skey xf ! 0)]) 2 (le_bytes 2 (of_nat (off + 256) :: u16)))
      4 (le_bytes 2 (of_nat (rlen - 256) :: u16))) 8 (le_bytes 4 ?crc)"
    have "crc_state (off + 256) (rlen - 256) ?crc sk"
      using Suc.prems(1) unfolding sk_def by (intro crc_state_patches) (simp add: crc_state_def)
    then have c: "crc_state (off + 256) (rlen - 256) ?crc (skey (xf\<lparr>skey := sk\<rparr>))" by simp
    have m: "dp_sctp_csum llb_setup_crc32c_map p xf = Crc_more (xf\<lparr>skey := sk\<rparr>)"
      using False st Suc.prems(2) crc_loop_eq [OF Suc.prems(3), of 256 crc]
      by (simp add: dp_sctp_csum_def DP_MAX_LOOPS_PER_TCALL_def Let_def min_absorb1 sk_def)
    have "bytes_at p off rlen = bytes_at p off 256 @ bytes_at p (off + 256) (rlen - 256)"
      using False bytes_at_split [of 256 "rlen - 256" off p] by simp
    then show ?thesis
      using Suc.IH [OF c] False Suc.prems m by (auto simp: crc32c_append crc_done_def)
  qed
qed

lemma crc_table_check: "(crc_bit ^^ 8) 1 = 0xf26b8303"
  by code_simp

text \<open>What the receiver checks: the checksum field has the checksum of the packet with zeros in its place.\<close>

definition sctp_valid :: "packet \<Rightarrow> nat \<Rightarrow> nat \<Rightarrow> bool" where
  "sctp_valid q l4 n \<longleftrightarrow> u32_at q (l4 + 8) = NOT (crc32c (bytes_at (patch q (l4 + 8) [0, 0, 0, 0]) l4 n) 0xffffffff)"

lemma patch_patch_same: "i + length a \<le> length p \<Longrightarrow> length b = length a \<Longrightarrow> patch (patch p i a) i b = patch p i b"
  by (simp add: patch_def)

lemma patch_id: "i + length b \<le> length p \<Longrightarrow> bytes_at p i (length b) = b \<Longrightarrow> patch p i b = p"
  unfolding patch_def by (metis add.commute append_take_drop_id drop_drop)


definition sctp_xf :: xfi where
  "sctp_xf = xfi0\<lparr>l34m := (l34m xfi0)\<lparr>nw_proto := IPPROTO_SCTP\<rparr>, pm := (pm xfi0)\<lparr>pm_l4_off := 34, pm_l3_plen := 600\<rparr>\<rparr>"


end
