(* ===== verification/Loxi_Rewrite.thy ===== *)
theory Loxi_Rewrite
  imports Loxi_Sum Katran_Csum Tc_Env
begin

text \<open>
  Address translation in \<open>llb_kern_cdefs.h\<close>: the setters of the header fields of every protocol, the translation of destination
  and source for IPv4, IPv6 and between the two, and the stage of \<open>llb_kern_compose.c\<close> that calls them.
\<close>

section \<open>The kernel\<close>

text \<open>The helpers of a classifier that the translation uses; \<open>None\<close> is a negative return code.  \<open>pgm_tbl\<close> tells which
  programs a tail call finds.\<close>

record nat_env = bpf_env +
  bpf_l3_csum_replace :: "packet \<Rightarrow> nat \<Rightarrow> u32 \<Rightarrow> u32 \<Rightarrow> u64 \<Rightarrow> packet option"
  bpf_l4_csum_replace :: "packet \<Rightarrow> nat \<Rightarrow> u32 \<Rightarrow> u32 \<Rightarrow> u64 \<Rightarrow> packet option"
  bpf_skb_store_bytes :: "packet \<Rightarrow> nat \<Rightarrow> u8 list \<Rightarrow> u64 \<Rightarrow> packet option"
  bpf_skb_change_proto :: "packet \<Rightarrow> u16 \<Rightarrow> u64 \<Rightarrow> packet option"
  pgm_tbl :: "u32 \<Rightarrow> bool"

definition BPF_F_PSEUDO_HDR :: u64 where "BPF_F_PSEUDO_HDR = 0x10"

text \<open>The code ignores what these helpers return: a failure leaves the packet as it is.\<close>

definition l3_csum_replace :: "'e nat_env_scheme \<Rightarrow> packet \<Rightarrow> nat \<Rightarrow> u32 \<Rightarrow> u32 \<Rightarrow> u64 \<Rightarrow> packet" where
  "l3_csum_replace e p off from to fl = (case bpf_l3_csum_replace e p off from to fl of None \<Rightarrow> p | Some p' \<Rightarrow> p')"

definition l4_csum_replace :: "'e nat_env_scheme \<Rightarrow> packet \<Rightarrow> nat \<Rightarrow> u32 \<Rightarrow> u32 \<Rightarrow> u64 \<Rightarrow> packet" where
  "l4_csum_replace e p off from to fl = (case bpf_l4_csum_replace e p off from to fl of None \<Rightarrow> p | Some p' \<Rightarrow> p')"

definition skb_store_bytes :: "'e nat_env_scheme \<Rightarrow> packet \<Rightarrow> nat \<Rightarrow> u8 list \<Rightarrow> packet" where
  "skb_store_bytes e p off bs = (case bpf_skb_store_bytes e p off bs 0 of None \<Rightarrow> p | Some p' \<Rightarrow> p')"

text \<open>The bytes of an address as it stands in memory.\<close>

definition xaddr_bytes :: "xaddr \<Rightarrow> u8 list" where
  "xaddr_bytes a = (case a of (b0, b1, b2, b3) \<Rightarrow> le_bytes 4 b0 @ le_bytes 4 b1 @ le_bytes 4 b2 @ le_bytes 4 b3)"

abbreviation l3_of :: "xfi \<Rightarrow> nat" where "l3_of xf \<equiv> unat (pm_l3_off (pm xf))"
abbreviation l4_of :: "xfi \<Rightarrow> nat" where "l4_of xf \<equiv> unat (pm_l4_off (pm xf))"

definition set_saddr :: "xaddr \<Rightarrow> xfi \<Rightarrow> xfi" where "set_saddr a xf = xf\<lparr>l34m := (l34m xf)\<lparr>l34_saddr := a\<rparr>\<rparr>"
definition set_daddr :: "xaddr \<Rightarrow> xfi \<Rightarrow> xfi" where "set_daddr a xf = xf\<lparr>l34m := (l34m xf)\<lparr>l34_daddr := a\<rparr>\<rparr>"
definition set_saddr4 :: "u32 \<Rightarrow> xfi \<Rightarrow> xfi" where "set_saddr4 a xf = set_saddr (set_addr4 a (l34_saddr (l34m xf))) xf"
definition set_daddr4 :: "u32 \<Rightarrow> xfi \<Rightarrow> xfi" where "set_daddr4 a xf = set_daddr (set_addr4 a (l34_daddr (l34m xf))) xf"
definition set_source :: "u16 \<Rightarrow> xfi \<Rightarrow> xfi" where "set_source v xf = xf\<lparr>l34m := (l34m xf)\<lparr>l34_source := v\<rparr>\<rparr>"
definition set_dest :: "u16 \<Rightarrow> xfi \<Rightarrow> xfi" where "set_dest v xf = xf\<lparr>l34m := (l34m xf)\<lparr>l34_dest := v\<rparr>\<rparr>"

section \<open>Setters of header fields\<close>

definition dp_set_tcp_src_ip6 :: "'e nat_env_scheme \<Rightarrow> packet \<Rightarrow> xfi \<Rightarrow> xaddr \<Rightarrow> packet \<times> xfi" where
  "dp_set_tcp_src_ip6 e p xf xip = (
     let tcp_csum_off = l4_of xf + 16;
         ip_src_off = l3_of xf + 8;
         (o0, o1, o2, o3) = l34_saddr (l34m xf);
         (x0, x1, x2, x3) = xip;
         p = l4_csum_replace e p tcp_csum_off o0 x0 (BPF_F_PSEUDO_HDR OR 4);
         p = l4_csum_replace e p tcp_csum_off o1 x1 (BPF_F_PSEUDO_HDR OR 4);
         p = l4_csum_replace e p tcp_csum_off o2 x2 (BPF_F_PSEUDO_HDR OR 4);
         p = l4_csum_replace e p tcp_csum_off o3 x3 (BPF_F_PSEUDO_HDR OR 4);
         p = skb_store_bytes e p ip_src_off (xaddr_bytes xip)
     in (p, set_saddr xip xf))"

definition dp_set_tcp_src_ip :: "'e nat_env_scheme \<Rightarrow> packet \<Rightarrow> xfi \<Rightarrow> u32 \<Rightarrow> packet \<times> xfi" where
  "dp_set_tcp_src_ip e p xf xip = (
     let ip_csum_off = l3_of xf + 10;
         tcp_csum_off = l4_of xf + 16;
         ip_src_off = l3_of xf + 12;
         old_sip = addr4 (l34_saddr (l34m xf));
         p = l4_csum_replace e p tcp_csum_off old_sip xip (BPF_F_PSEUDO_HDR OR 4);
         p = l3_csum_replace e p ip_csum_off old_sip xip 4;
         p = skb_store_bytes e p ip_src_off (le_bytes 4 xip)
     in (p, set_saddr4 xip xf))"

definition dp_set_tcp_dst_ip6 :: "'e nat_env_scheme \<Rightarrow> packet \<Rightarrow> xfi \<Rightarrow> xaddr \<Rightarrow> packet \<times> xfi" where
  "dp_set_tcp_dst_ip6 e p xf xip = (
     let tcp_csum_off = l4_of xf + 16;
         ip_dst_off = l3_of xf + 24;
         (o0, o1, o2, o3) = l34_daddr (l34m xf);
         (x0, x1, x2, x3) = xip;
         p = l4_csum_replace e p tcp_csum_off o0 x0 (BPF_F_PSEUDO_HDR OR 4);
         p = l4_csum_replace e p tcp_csum_off o1 x1 (BPF_F_PSEUDO_HDR OR 4);
         p = l4_csum_replace e p tcp_csum_off o2 x2 (BPF_F_PSEUDO_HDR OR 4);
         p = l4_csum_replace e p tcp_csum_off o3 x3 (BPF_F_PSEUDO_HDR OR 4);
         p = skb_store_bytes e p ip_dst_off (xaddr_bytes xip)
     in (p, set_daddr xip xf))"

definition dp_set_tcp_dst_ip :: "'e nat_env_scheme \<Rightarrow> packet \<Rightarrow> xfi \<Rightarrow> u32 \<Rightarrow> packet \<times> xfi" where
  "dp_set_tcp_dst_ip e p xf xip = (
     let ip_csum_off = l3_of xf + 10;
         tcp_csum_off = l4_of xf + 16;
         ip_dst_off = l3_of xf + 16;
         old_dip = addr4 (l34_daddr (l34m xf));
         p = l4_csum_replace e p tcp_csum_off old_dip xip (BPF_F_PSEUDO_HDR OR 4);
         p = l3_csum_replace e p ip_csum_off old_dip xip 4;
         p = skb_store_bytes e p ip_dst_off (le_bytes 4 xip)
     in (p, set_daddr4 xip xf))"

definition dp_set_tcp_sport :: "'e nat_env_scheme \<Rightarrow> packet \<Rightarrow> xfi \<Rightarrow> u16 \<Rightarrow> packet \<times> xfi" where
  "dp_set_tcp_sport e p xf xport = (
     let tcp_csum_off = l4_of xf + 16;
         tcp_sport_off = l4_of xf + 0;
         old_sport = ucast (l34_source (l34m xf));
         p = l4_csum_replace e p tcp_csum_off old_sport (ucast xport) 2;
         p = skb_store_bytes e p tcp_sport_off (le_bytes 2 xport)
     in (p, set_source xport xf))"

definition dp_set_tcp_dport :: "'e nat_env_scheme \<Rightarrow> packet \<Rightarrow> xfi \<Rightarrow> u16 \<Rightarrow> packet \<times> xfi" where
  "dp_set_tcp_dport e p xf xport = (
     let tcp_csum_off = l4_of xf + 16;
         tcp_dport_off = l4_of xf + 2;
         old_dport = ucast (l34_dest (l34m xf));
         p = l4_csum_replace e p tcp_csum_off old_dport (ucast xport) 2;
         p = skb_store_bytes e p tcp_dport_off (le_bytes 2 xport)
     in (p, set_dest xport xf))"

definition dp_set_udp_src_ip6 :: "'e nat_env_scheme \<Rightarrow> packet \<Rightarrow> xfi \<Rightarrow> xaddr \<Rightarrow> packet \<times> xfi" where
  "dp_set_udp_src_ip6 e p xf xip = (
     let udp_csum_off = l4_of xf + 6;
         ip_src_off = l3_of xf + 8;
         p = skb_store_bytes e p udp_csum_off (le_bytes 2 (0 :: u16));
         p = skb_store_bytes e p ip_src_off (xaddr_bytes xip)
     in (p, set_saddr xip xf))"

definition dp_set_udp_src_ip :: "'e nat_env_scheme \<Rightarrow> packet \<Rightarrow> xfi \<Rightarrow> u32 \<Rightarrow> packet \<times> xfi" where
  "dp_set_udp_src_ip e p xf xip = (
     let ip_csum_off = l3_of xf + 10;
         udp_csum_off = l4_of xf + 6;
         ip_src_off = l3_of xf + 12;
         old_sip = addr4 (l34_saddr (l34m xf));
         p = skb_store_bytes e p udp_csum_off (le_bytes 2 (0 :: u16));
         p = l3_csum_replace e p ip_csum_off old_sip xip 4;
         p = skb_store_bytes e p ip_src_off (le_bytes 4 xip)
     in (p, set_saddr4 xip xf))"

definition dp_set_udp_dst_ip6 :: "'e nat_env_scheme \<Rightarrow> packet \<Rightarrow> xfi \<Rightarrow> xaddr \<Rightarrow> packet \<times> xfi" where
  "dp_set_udp_dst_ip6 e p xf xip = (
     let udp_csum_off = l4_of xf + 6;
         ip_dst_off = l3_of xf + 24;
         p = skb_store_bytes e p udp_csum_off (le_bytes 2 (0 :: u16));
         p = skb_store_bytes e p ip_dst_off (xaddr_bytes xip)
     in (p, set_daddr xip xf))"

definition dp_set_udp_dst_ip :: "'e nat_env_scheme \<Rightarrow> packet \<Rightarrow> xfi \<Rightarrow> u32 \<Rightarrow> packet \<times> xfi" where
  "dp_set_udp_dst_ip e p xf xip = (
     let ip_csum_off = l3_of xf + 10;
         udp_csum_off = l4_of xf + 6;
         ip_dst_off = l3_of xf + 16;
         old_dip = addr4 (l34_daddr (l34m xf));
         p = skb_store_bytes e p udp_csum_off (le_bytes 2 (0 :: u16));
         p = l3_csum_replace e p ip_csum_off old_dip xip 4;
         p = skb_store_bytes e p ip_dst_off (le_bytes 4 xip)
     in (p, set_daddr4 xip xf))"

definition dp_set_udp_sport :: "'e nat_env_scheme \<Rightarrow> packet \<Rightarrow> xfi \<Rightarrow> u16 \<Rightarrow> packet \<times> xfi" where
  "dp_set_udp_sport e p xf xport = (
     let udp_csum_off = l4_of xf + 6;
         udp_sport_off = l4_of xf + 0;
         p = skb_store_bytes e p udp_csum_off (le_bytes 2 (0 :: u16));
         p = skb_store_bytes e p udp_sport_off (le_bytes 2 xport)
     in (p, set_source xport xf))"

definition dp_set_udp_dport :: "'e nat_env_scheme \<Rightarrow> packet \<Rightarrow> xfi \<Rightarrow> u16 \<Rightarrow> packet \<times> xfi" where
  "dp_set_udp_dport e p xf xport = (
     let udp_csum_off = l4_of xf + 6;
         udp_dport_off = l4_of xf + 2;
         p = skb_store_bytes e p udp_csum_off (le_bytes 2 (0 :: u16));
         p = skb_store_bytes e p udp_dport_off (le_bytes 2 xport)
     in (p, set_dest xport xf))"

definition dp_set_icmp_src_ip6 :: "'e nat_env_scheme \<Rightarrow> packet \<Rightarrow> xfi \<Rightarrow> xaddr \<Rightarrow> packet \<times> xfi" where
  "dp_set_icmp_src_ip6 e p xf xip = (
     let ip_src_off = l3_of xf + 8;
         p = skb_store_bytes e p ip_src_off (xaddr_bytes xip)
     in (p, set_saddr xip xf))"

definition dp_set_icmp_src_ip :: "'e nat_env_scheme \<Rightarrow> packet \<Rightarrow> xfi \<Rightarrow> u32 \<Rightarrow> packet \<times> xfi" where
  "dp_set_icmp_src_ip e p xf xip = (
     let ip_csum_off = l3_of xf + 10;
         ip_src_off = l3_of xf + 12;
         old_sip = addr4 (l34_saddr (l34m xf));
         p = l3_csum_replace e p ip_csum_off old_sip xip 4;
         p = skb_store_bytes e p ip_src_off (le_bytes 4 xip)
     in (p, set_saddr4 xip xf))"

definition dp_set_icmp_dst_ip6 :: "'e nat_env_scheme \<Rightarrow> packet \<Rightarrow> xfi \<Rightarrow> xaddr \<Rightarrow> packet \<times> xfi" where
  "dp_set_icmp_dst_ip6 e p xf xip = (
     let ip_dst_off = l3_of xf + 24;
         p = skb_store_bytes e p ip_dst_off (xaddr_bytes xip)
     in (p, set_daddr xip xf))"

definition dp_set_icmp_dst_ip :: "'e nat_env_scheme \<Rightarrow> packet \<Rightarrow> xfi \<Rightarrow> u32 \<Rightarrow> packet \<times> xfi" where
  "dp_set_icmp_dst_ip e p xf xip = (
     let ip_csum_off = l3_of xf + 10;
         ip_dst_off = l3_of xf + 16;
         old_dip = addr4 (l34_daddr (l34m xf));
         p = l3_csum_replace e p ip_csum_off old_dip xip 4;
         p = skb_store_bytes e p ip_dst_off (le_bytes 4 xip)
     in (p, set_daddr4 xip xf))"

definition dp_set_sctp_src_ip6 :: "'e nat_env_scheme \<Rightarrow> packet \<Rightarrow> xfi \<Rightarrow> xaddr \<Rightarrow> packet \<times> xfi" where
  "dp_set_sctp_src_ip6 e p xf xip = (
     let ip_src_off = l3_of xf + 8;
         p = skb_store_bytes e p ip_src_off (xaddr_bytes xip)
     in (p, set_saddr xip xf))"

definition dp_set_sctp_src_ip :: "'e nat_env_scheme \<Rightarrow> packet \<Rightarrow> xfi \<Rightarrow> u32 \<Rightarrow> packet \<times> xfi" where
  "dp_set_sctp_src_ip e p xf xip = (
     let ip_csum_off = l3_of xf + 10;
         ip_src_off = l3_of xf + 12;
         old_sip = addr4 (l34_saddr (l34m xf));
         p = l3_csum_replace e p ip_csum_off old_sip xip 4;
         p = skb_store_bytes e p ip_src_off (le_bytes 4 xip)
     in (p, set_saddr4 xip xf))"

definition dp_set_sctp_dst_ip6 :: "'e nat_env_scheme \<Rightarrow> packet \<Rightarrow> xfi \<Rightarrow> xaddr \<Rightarrow> packet \<times> xfi" where
  "dp_set_sctp_dst_ip6 e p xf xip = (
     let ip_dst_off = l3_of xf + 24;
         p = skb_store_bytes e p ip_dst_off (xaddr_bytes xip)
     in (p, set_daddr xip xf))"

definition dp_set_sctp_dst_ip :: "'e nat_env_scheme \<Rightarrow> packet \<Rightarrow> xfi \<Rightarrow> u32 \<Rightarrow> packet \<times> xfi" where
  "dp_set_sctp_dst_ip e p xf xip = (
     let ip_csum_off = l3_of xf + 10;
         ip_dst_off = l3_of xf + 16;
         old_dip = addr4 (l34_daddr (l34m xf));
         p = l3_csum_replace e p ip_csum_off old_dip xip 4;
         p = skb_store_bytes e p ip_dst_off (le_bytes 4 xip)
     in (p, set_daddr4 xip xf))"

definition dp_set_sctp_sport :: "'e nat_env_scheme \<Rightarrow> packet \<Rightarrow> xfi \<Rightarrow> u16 \<Rightarrow> packet \<times> xfi" where
  "dp_set_sctp_sport e p xf xport = (
     let sctp_csum_off = l4_of xf + 8;
         sctp_sport_off = l4_of xf + 0;
         p = skb_store_bytes e p sctp_csum_off (le_bytes 4 (0 :: u32));
         p = skb_store_bytes e p sctp_sport_off (le_bytes 2 xport)
     in (p, set_source xport xf))"

definition dp_set_sctp_dport :: "'e nat_env_scheme \<Rightarrow> packet \<Rightarrow> xfi \<Rightarrow> u16 \<Rightarrow> packet \<times> xfi" where
  "dp_set_sctp_dport e p xf xport = (
     let sctp_csum_off = l4_of xf + 8;
         sctp_dport_off = l4_of xf + 2;
         p = skb_store_bytes e p sctp_csum_off (le_bytes 4 (0 :: u32));
         p = skb_store_bytes e p sctp_dport_off (le_bytes 2 xport)
     in (p, set_dest xport xf))"

section \<open>Translation\<close>

definition LLB_DP_SUNP_PGM_ID2 :: u32 where "LLB_DP_SUNP_PGM_ID2 = 6"
definition LLB_DP_CRC_PGM_ID1 :: u32 where "LLB_DP_CRC_PGM_ID1 = 4"
definition LLB_DP_CT_PGM_ID :: u32 where "LLB_DP_CT_PGM_ID = 2"

text \<open>What a stage that may leave by a tail call ends in: its value, or the program that goes on with the packet.\<close>

datatype 'r nat_out = Ret 'r packet xfi | Tcall u32 packet xfi

text \<open>\<open>dp_csum_tcall\<close> and the \<open>return 0\<close> behind it, which is only reached when the program is missing.\<close>

definition csum_tcall :: "'e nat_env_scheme \<Rightarrow> packet \<Rightarrow> xfi \<Rightarrow> int nat_out" where
  "csum_tcall e p xf = (
     let xf = dp_csum_tcall xf
     in if pgm_tbl e LLB_DP_CRC_PGM_ID1 then Tcall LLB_DP_CRC_PGM_ID1 p xf else Ret 0 p xf)"

definition dp_do_dnat :: "'e nat_env_scheme \<Rightarrow> packet \<Rightarrow> xfi \<Rightarrow> u32 \<Rightarrow> u16 \<Rightarrow> int nat_out" where
  "dp_do_dnat e p xf xip xport = (
     if nw_proto (l34m xf) = IPPROTO_TCP then
       (if l4_of xf + 20 > length p then Ret (-1) p (LLBS_PPLN_DROP xf)
        else let (p, xf) =
               (if xip = 0 then
                  (let xip = addr4 (l34_saddr (l34m xf));
                       (p, xf) = dp_set_tcp_src_ip e p xf (addr4 (l34_daddr (l34m xf)))
                   in dp_set_tcp_dst_ip e p xf xip)
                else
                  (let (p, xf) = (if addr4 (nm_nrip (nm xf)) \<noteq> 0 then dp_set_tcp_src_ip e p xf (addr4 (nm_nrip (nm xf))) else (p, xf))
                   in dp_set_tcp_dst_ip e p xf xip));
                 (p, xf) = dp_set_tcp_dport e p xf xport
             in Ret 0 p xf)
     else if nw_proto (l34m xf) = IPPROTO_UDP then
       (if l4_of xf + 8 > length p then Ret (-1) p (LLBS_PPLN_DROP xf)
        else let (p, xf) =
               (if xip = 0 then
                  (let xip = addr4 (l34_saddr (l34m xf));
                       (p, xf) = dp_set_udp_src_ip e p xf (addr4 (l34_daddr (l34m xf)))
                   in dp_set_udp_dst_ip e p xf xip)
                else
                  (let (p, xf) = (if addr4 (nm_nrip (nm xf)) \<noteq> 0 then dp_set_udp_src_ip e p xf (addr4 (nm_nrip (nm xf))) else (p, xf))
                   in dp_set_udp_dst_ip e p xf xip));
                 (p, xf) = dp_set_udp_dport e p xf xport
             in Ret 0 p xf)
     else if nw_proto (l34m xf) = IPPROTO_SCTP then
       (if l4_of xf + 12 > length p then Ret (-1) p (LLBS_PPLN_DROP xf)
        else let (p, xf) =
               (if xip = 0 then
                  (let xip = addr4 (l34_saddr (l34m xf));
                       (p, xf) = dp_set_sctp_src_ip e p xf (addr4 (l34_daddr (l34m xf)))
                   in dp_set_sctp_dst_ip e p xf xip)
                else
                  (let (p, xf) = (if addr4 (nm_nrip (nm xf)) \<noteq> 0 then dp_set_sctp_src_ip e p xf (addr4 (nm_nrip (nm xf))) else (p, xf))
                   in dp_set_sctp_dst_ip e p xf xip));
                 (p, xf) = dp_set_sctp_dport e p xf xport
             in csum_tcall e p xf)
     else if nw_proto (l34m xf) = IPPROTO_ICMP then
       (let (p, xf) = (if addr4 (nm_nrip (nm xf)) \<noteq> 0 then dp_set_icmp_src_ip e p xf (addr4 (nm_nrip (nm xf))) else (p, xf));
            (p, xf) = dp_set_icmp_dst_ip e p xf xip
        in Ret 0 p xf)
     else Ret 0 p xf)"

text \<open>The address is passed by reference: a hairpin writes it into \<open>xf->nm.nxip\<close>, which is what the callers pass.\<close>

definition dp_do_dnat6 :: "'e nat_env_scheme \<Rightarrow> packet \<Rightarrow> xfi \<Rightarrow> xaddr \<Rightarrow> u16 \<Rightarrow> int nat_out" where
  "dp_do_dnat6 e p xf xip xport = (
     if nw_proto (l34m xf) = IPPROTO_TCP then
       (if l4_of xf + 20 > length p then Ret (-1) p (LLBS_PPLN_DROP xf)
        else let (p, xf) =
               (if DP_XADDR_ISZR xip then
                  (let xip = l34_saddr (l34m xf);
                       xf = xf\<lparr>nm := (nm xf)\<lparr>nm_nxip := xip\<rparr>\<rparr>;
                       (p, xf) = dp_set_tcp_src_ip6 e p xf (l34_daddr (l34m xf))
                   in dp_set_tcp_dst_ip6 e p xf xip)
                else
                  (let (p, xf) = (if \<not> DP_XADDR_ISZR (nm_nrip (nm xf)) then dp_set_tcp_src_ip6 e p xf (nm_nrip (nm xf)) else (p, xf))
                   in dp_set_tcp_dst_ip6 e p xf xip));
                 (p, xf) = dp_set_tcp_dport e p xf xport
             in Ret 0 p xf)
     else if nw_proto (l34m xf) = IPPROTO_UDP then
       (if l4_of xf + 8 > length p then Ret (-1) p (LLBS_PPLN_DROP xf)
        else let (p, xf) =
               (if DP_XADDR_ISZR xip then
                  (let xip = l34_saddr (l34m xf);
                       xf = xf\<lparr>nm := (nm xf)\<lparr>nm_nxip := xip\<rparr>\<rparr>;
                       (p, xf) = dp_set_udp_src_ip6 e p xf (l34_daddr (l34m xf))
                   in dp_set_udp_dst_ip6 e p xf xip)
                else
                  (let (p, xf) = (if \<not> DP_XADDR_ISZR (nm_nrip (nm xf)) then dp_set_udp_src_ip6 e p xf (nm_nrip (nm xf)) else (p, xf))
                   in dp_set_udp_dst_ip6 e p xf xip));
                 (p, xf) = dp_set_udp_dport e p xf xport
             in Ret 0 p xf)
     else if nw_proto (l34m xf) = IPPROTO_SCTP then
       (if l4_of xf + 12 > length p then Ret (-1) p (LLBS_PPLN_DROP xf)
        else let (p, xf) =
               (if DP_XADDR_ISZR xip then
                  (let xip = l34_saddr (l34m xf);
                       xf = xf\<lparr>nm := (nm xf)\<lparr>nm_nxip := xip\<rparr>\<rparr>;
                       (p, xf) = dp_set_sctp_src_ip6 e p xf (l34_daddr (l34m xf))
                   in dp_set_sctp_dst_ip6 e p xf xip)
                else
                  (let (p, xf) = (if \<not> DP_XADDR_ISZR (nm_nrip (nm xf)) then dp_set_sctp_src_ip6 e p xf (nm_nrip (nm xf)) else (p, xf))
                   in dp_set_sctp_dst_ip6 e p xf xip));
                 (p, xf) = dp_set_sctp_dport e p xf xport
             in csum_tcall e p xf)
     else if nw_proto (l34m xf) = IPPROTO_ICMP then
       (let (p, xf) = (if \<not> DP_XADDR_ISZR (nm_nrip (nm xf)) then dp_set_icmp_src_ip6 e p xf (nm_nrip (nm xf)) else (p, xf));
            (p, xf) = dp_set_icmp_dst_ip6 e p xf xip
        in Ret 0 p xf)
     else Ret 0 p xf)"

definition dp_do_snat :: "'e nat_env_scheme \<Rightarrow> packet \<Rightarrow> xfi \<Rightarrow> u32 \<Rightarrow> u16 \<Rightarrow> int nat_out" where
  "dp_do_snat e p xf xip xport = (
     if nw_proto (l34m xf) = IPPROTO_TCP then
       (if l4_of xf + 20 > length p then Ret (-1) p (LLBS_PPLN_DROP xf)
        else let (p, xf) =
               (if xip = 0 then
                  (let xip = addr4 (l34_saddr (l34m xf));
                       (p, xf) = dp_set_tcp_src_ip e p xf (addr4 (l34_daddr (l34m xf)))
                   in dp_set_tcp_dst_ip e p xf xip)
                else
                  (let (p, xf) = dp_set_tcp_src_ip e p xf xip
                   in if addr4 (nm_nrip (nm xf)) \<noteq> 0 then dp_set_tcp_dst_ip e p xf (addr4 (nm_nrip (nm xf))) else (p, xf)));
                 (p, xf) = dp_set_tcp_sport e p xf xport
             in Ret 0 p xf)
     else if nw_proto (l34m xf) = IPPROTO_UDP then
       (if l4_of xf + 8 > length p then Ret (-1) p (LLBS_PPLN_DROP xf)
        else let (p, xf) =
               (if xip = 0 then
                  (let xip = addr4 (l34_saddr (l34m xf));
                       (p, xf) = dp_set_udp_src_ip e p xf (addr4 (l34_daddr (l34m xf)))
                   in dp_set_udp_dst_ip e p xf xip)
                else
                  (let (p, xf) = dp_set_udp_src_ip e p xf xip
                   in if addr4 (nm_nrip (nm xf)) \<noteq> 0 then dp_set_udp_dst_ip e p xf (addr4 (nm_nrip (nm xf))) else (p, xf)));
                 (p, xf) = dp_set_udp_sport e p xf xport
             in Ret 0 p xf)
     else if nw_proto (l34m xf) = IPPROTO_SCTP then
       (if l4_of xf + 12 > length p then Ret (-1) p (LLBS_PPLN_DROP xf)
        else let (p, xf) =
               (if xip = 0 then
                  (let xip = addr4 (l34_saddr (l34m xf));
                       (p, xf) = dp_set_sctp_src_ip e p xf (addr4 (l34_daddr (l34m xf)))
                   in dp_set_sctp_dst_ip e p xf xip)
                else
                  (let (p, xf) = dp_set_sctp_src_ip e p xf xip
                   in if addr4 (nm_nrip (nm xf)) \<noteq> 0 then dp_set_sctp_dst_ip e p xf (addr4 (nm_nrip (nm xf))) else (p, xf)));
                 (p, xf) = dp_set_sctp_sport e p xf xport
             in csum_tcall e p xf)
     else if nw_proto (l34m xf) = IPPROTO_ICMP then
       (let (p, xf) = dp_set_icmp_src_ip e p xf xip;
            (p, xf) = (if addr4 (nm_nrip (nm xf)) \<noteq> 0 then dp_set_icmp_dst_ip e p xf (addr4 (nm_nrip (nm xf))) else (p, xf))
        in Ret 0 p xf)
     else Ret 0 p xf)"

definition dp_do_snat6 :: "'e nat_env_scheme \<Rightarrow> packet \<Rightarrow> xfi \<Rightarrow> xaddr \<Rightarrow> u16 \<Rightarrow> int nat_out" where
  "dp_do_snat6 e p xf xip xport = (
     if nw_proto (l34m xf) = IPPROTO_TCP then
       (if l4_of xf + 20 > length p then Ret (-1) p (LLBS_PPLN_DROP xf)
        else let (p, xf) =
               (if DP_XADDR_ISZR xip then
                  (let xip = l34_saddr (l34m xf);
                       xf = xf\<lparr>nm := (nm xf)\<lparr>nm_nxip := xip\<rparr>\<rparr>;
                       (p, xf) = dp_set_tcp_src_ip6 e p xf (l34_daddr (l34m xf))
                   in dp_set_tcp_dst_ip6 e p xf xip)
                else
                  (let (p, xf) = dp_set_tcp_src_ip6 e p xf xip
                   in if \<not> DP_XADDR_ISZR (nm_nrip (nm xf)) then dp_set_tcp_dst_ip6 e p xf (nm_nrip (nm xf)) else (p, xf)));
                 (p, xf) = dp_set_tcp_sport e p xf xport
             in Ret 0 p xf)
     else if nw_proto (l34m xf) = IPPROTO_UDP then
       (if l4_of xf + 8 > length p then Ret (-1) p (LLBS_PPLN_DROP xf)
        else let (p, xf) =
               (if DP_XADDR_ISZR xip then
                  (let xip = l34_saddr (l34m xf);
                       xf = xf\<lparr>nm := (nm xf)\<lparr>nm_nxip := xip\<rparr>\<rparr>;
                       (p, xf) = dp_set_udp_src_ip6 e p xf (l34_daddr (l34m xf))
                   in dp_set_udp_dst_ip6 e p xf xip)
                else
                  (let (p, xf) = dp_set_udp_src_ip6 e p xf xip
                   in if \<not> DP_XADDR_ISZR (nm_nrip (nm xf)) then dp_set_udp_dst_ip6 e p xf (nm_nrip (nm xf)) else (p, xf)));
                 (p, xf) = dp_set_udp_sport e p xf xport
             in Ret 0 p xf)
     else if nw_proto (l34m xf) = IPPROTO_SCTP then
       (if l4_of xf + 12 > length p then Ret (-1) p (LLBS_PPLN_DROP xf)
        else let (p, xf) =
               (if DP_XADDR_ISZR xip then
                  (let xip = l34_saddr (l34m xf);
                       xf = xf\<lparr>nm := (nm xf)\<lparr>nm_nxip := xip\<rparr>\<rparr>;
                       (p, xf) = dp_set_sctp_src_ip6 e p xf (l34_daddr (l34m xf))
                   in dp_set_sctp_dst_ip6 e p xf xip)
                else
                  (let (p, xf) = dp_set_sctp_src_ip6 e p xf xip
                   in if \<not> DP_XADDR_ISZR (nm_nrip (nm xf)) then dp_set_sctp_dst_ip6 e p xf (nm_nrip (nm xf)) else (p, xf)));
                 (p, xf) = dp_set_sctp_sport e p xf xport
             in csum_tcall e p xf)
     else if nw_proto (l34m xf) = IPPROTO_ICMP then
       (let (p, xf) = dp_set_icmp_src_ip6 e p xf xip;
            (p, xf) = (if \<not> DP_XADDR_ISZR (nm_nrip (nm xf)) then dp_set_icmp_dst_ip6 e p xf (nm_nrip (nm xf)) else (p, xf))
        in Ret 0 p xf)
     else Ret 0 p xf)"

section \<open>The stage\<close>

definition DP_DROP :: int where "DP_DROP = 2"

text \<open>The translation in \<open>dp_unparse_packet_always\<close>; \<open>Ret 0\<close> goes on with the tunnels.\<close>

definition dp_sunp_tcall :: "'e nat_env_scheme \<Rightarrow> packet \<Rightarrow> xfi \<Rightarrow> int nat_out" where
  "dp_sunp_tcall e p xf = (if pgm_tbl e LLB_DP_SUNP_PGM_ID2 then Tcall LLB_DP_SUNP_PGM_ID2 p xf else Ret 0 p xf)"

fun or_drop :: "int nat_out \<Rightarrow> int nat_out" where
  "or_drop (Ret r p xf) = (if r \<noteq> 0 then Ret DP_DROP p xf else Ret 0 p xf)"
| "or_drop (Tcall i p xf) = Tcall i p xf"

definition unparse_nat :: "'e nat_env_scheme \<Rightarrow> packet \<Rightarrow> xfi \<Rightarrow> int nat_out" where
  "unparse_nat e p xf = (
     if pm_nf (pm xf) AND LLB_NAT_SRC \<noteq> 0 \<and> nm_dsr (nm xf) = 0 then
       (if is_v6 xf \<or> nm_nv6 (nm xf) \<noteq> 0 then dp_sunp_tcall e p xf
        else or_drop (dp_do_snat e p xf (addr4 (nm_nxip (nm xf))) (nm_nxport (nm xf))))
     else if pm_nf (pm xf) AND LLB_NAT_DST \<noteq> 0 \<and> nm_dsr (nm xf) = 0 then
       (if is_v6 xf then dp_sunp_tcall e p xf
        else or_drop (dp_do_dnat e p xf (addr4 (nm_nxip (nm xf))) (nm_nxport (nm xf))))
     else Ret 0 p xf)"

section \<open>Translation between the versions\<close>

text \<open>The sum over the ten words of a header, as a 32-bit value, and the checksum made of it in one fold.\<close>

fun iph_sum :: "packet \<Rightarrow> nat \<Rightarrow> nat \<Rightarrow> u32 \<Rightarrow> u32 option" where
  "iph_sum p i 0 csum = Some csum"
| "iph_sum p i (Suc n) csum = do { w \<leftarrow> ld16 p i; iph_sum p (i + 2) n (csum + ucast w) }"

definition dp_ipv4_new_csum :: "packet \<Rightarrow> nat \<Rightarrow> packet option" where
  "dp_ipv4_new_csum p iph = do {
     p \<leftarrow> st16 p (iph + 10) 0;
     csum \<leftarrow> iph_sum p iph 10 0;
     st16 p (iph + 10) (ucast (NOT ((csum AND 0xffff) + drop_bit 16 csum)))
   }"

text \<open>The Ethernet type in front of the new network header, behind the checks.\<close>

definition set_l2_hdr :: "packet \<Rightarrow> xfi \<Rightarrow> packet option" where
  "set_l2_hdr p xf =
     (if vlan0 (l2m xf) \<noteq> 0 then do { p \<leftarrow> st16 p 12 (bswap16 0x8100); st16 p 16 (dl_type (l2m xf)) }
      else st16 p 12 (dl_type (l2m xf)))"

definition set_dl_type :: "u16 \<Rightarrow> xfi \<Rightarrow> xfi" where
  "set_dl_type ty xf = xf\<lparr>l2m := (l2m xf)\<lparr>dl_type := ty\<rparr>\<rparr>"

definition set_l34_len :: "u16 \<Rightarrow> u8 \<Rightarrow> u8 \<Rightarrow> xfi \<Rightarrow> xfi" where
  "set_l34_len n o3 o4 xf = xf\<lparr>pm := (pm xf)\<lparr>pm_l3_len := n, pm_l3_off := o3, pm_l4_off := o4\<rparr>\<rparr>"

definition nat_drop :: "packet \<Rightarrow> xfi \<Rightarrow> int nat_out option" where
  "nat_drop p xf = Some (Ret (-1) p (LLBS_PPLN_DROP xf))"

definition csum_of :: "int \<Rightarrow> u32" where
  "csum_of d = word_of_int d"

definition dp_do_dnat64 :: "'e nat_env_scheme \<Rightarrow> packet \<Rightarrow> xfi \<Rightarrow> int nat_out option" where
  "dp_do_dnat64 e p xf = (
     if nw_proto (l34m xf) \<noteq> IPPROTO_TCP \<and> nw_proto (l34m xf) \<noteq> IPPROTO_UDP then nat_drop p xf
     else case bpf_skb_change_proto e p (bswap16 ETH_P_IP) 0 of
       None \<Rightarrow> nat_drop p xf
     | Some p \<Rightarrow>
         if 14 > length p then nat_drop p xf
         else do {
           let xf = set_dl_type (bswap16 ETH_P_IP) xf;
           p \<leftarrow> wr p 0 (dl_dst (l2m xf) @ dl_src (l2m xf));
           if vlan0 (l2m xf) \<noteq> 0 \<and> 18 > length p then nat_drop p xf
           else do {
             p \<leftarrow> set_l2_hdr p xf;
             if 34 > length p then nat_drop p xf
             else do {
               let xf = set_l34_len (pm_l3_plen (pm xf) + 20) 14 34 xf;
               p \<leftarrow> st8 p 14 0x45;
               p \<leftarrow> st16 p 16 (bswap16 (pm_l3_len (pm xf)));
               p \<leftarrow> st8 p 22 64;
               p \<leftarrow> st8 p 23 (nw_proto (l34m xf));
               p \<leftarrow> st32 p 26 (addr4 (nm_nrip (nm xf)));
               p \<leftarrow> st32 p 30 (addr4 (nm_nxip (nm xf)));
               p \<leftarrow> dp_ipv4_new_csum p 14;
               if nw_proto (l34m xf) = IPPROTO_TCP then
                 (if 54 > length p then nat_drop p xf
                  else do {
                    s4 \<leftarrow> rd p 26 4;
                    let sum = csum_of (bpf_csum_diff e (xaddr_bytes (l34_saddr (l34m xf))) s4 0);
                    d4 \<leftarrow> rd p 30 4;
                    let sum = csum_of (bpf_csum_diff e (xaddr_bytes (l34_daddr (l34m xf))) d4 sum);
                    let p = l4_csum_replace e p (l4_of xf + 16) 0 sum BPF_F_PSEUDO_HDR;
                    let (p, xf) = dp_set_tcp_dport e p xf (nm_nxport (nm xf));
                    Some (Ret 0 p xf)
                  })
               else
                 (if 42 > length p then nat_drop p xf
                  else do {
                    let (p, xf) = dp_set_udp_dport e p xf (nm_nxport (nm xf));
                    Some (Ret 0 p xf)
                  })
             }
           }
         })"

text \<open>The version field is the upper half of the first byte; the traffic class in the lower half stays.\<close>

definition dp_do_snat46 :: "'e nat_env_scheme \<Rightarrow> packet \<Rightarrow> xfi \<Rightarrow> int nat_out option" where
  "dp_do_snat46 e p xf = (
     if nw_proto (l34m xf) \<noteq> IPPROTO_TCP \<and> nw_proto (l34m xf) \<noteq> IPPROTO_UDP then nat_drop p xf
     else case bpf_skb_change_proto e p (bswap16 ETH_P_IPV6) 0 of
       None \<Rightarrow> nat_drop p xf
     | Some p \<Rightarrow>
         if 14 > length p then nat_drop p xf
         else do {
           let xf = set_dl_type (bswap16 ETH_P_IPV6) xf;
           p \<leftarrow> wr p 0 (dl_dst (l2m xf) @ dl_src (l2m xf));
           if vlan0 (l2m xf) \<noteq> 0 \<and> 18 > length p then nat_drop p xf
           else do {
             p \<leftarrow> set_l2_hdr p xf;
             if 54 > length p then nat_drop p xf
             else do {
               let xf = set_l34_len (pm_l3_plen (pm xf) + 40) 14 54 xf;
               b \<leftarrow> ld8 p 14;
               p \<leftarrow> st8 p 14 ((b AND 0x0f) OR 0x60);
               p \<leftarrow> st16 p 18 (bswap16 (pm_l3_plen (pm xf)));
               p \<leftarrow> st8 p 21 64;
               p \<leftarrow> wr p 15 [0, 0, 0];
               p \<leftarrow> st8 p 20 (nw_proto (l34m xf));
               p \<leftarrow> wr p 22 (xaddr_bytes (nm_nxip (nm xf)));
               p \<leftarrow> wr p 38 (xaddr_bytes (nm_nrip (nm xf)));
               if nw_proto (l34m xf) = IPPROTO_TCP then
                 (if 74 > length p then nat_drop p xf
                  else do {
                    s6 \<leftarrow> rd p 22 16;
                    let sum = csum_of (bpf_csum_diff e (le_bytes 4 (addr4 (l34_saddr (l34m xf)))) s6 0);
                    d6 \<leftarrow> rd p 38 16;
                    let sum = csum_of (bpf_csum_diff e (le_bytes 4 (addr4 (l34_daddr (l34m xf)))) d6 sum);
                    let p = l4_csum_replace e p (l4_of xf + 16) 0 sum BPF_F_PSEUDO_HDR;
                    let (p, xf) = dp_set_tcp_sport e p xf (nm_nxport (nm xf));
                    Some (Ret 0 p xf)
                  })
               else
                 (if 62 > length p then nat_drop p xf
                  else do {
                    let (p, xf) = dp_set_udp_sport e p xf (nm_nxport (nm xf));
                    Some (Ret 0 p xf)
                  })
             }
           }
         })"

section \<open>The slow path\<close>

definition BPF_F_INGRESS :: u64 where "BPF_F_INGRESS = 1"

definition dp_rewire_port :: "(u16 \<rightharpoonup> u32) \<Rightarrow> xfi \<Rightarrow> tc_ret" where
  "dp_rewire_port tbl xf = (case tbl (pm_oport (pm xf)) of None \<Rightarrow> Tc TC_ACT_SHOT | Some oif \<Rightarrow> Redirect oif BPF_F_INGRESS)"

definition RETURN_TO_MP_OUT :: "xfi \<Rightarrow> xfi" where
  "RETURN_TO_MP_OUT xf = xf\<lparr>pm := (pm xf)\<lparr>pm_phit := pm_phit (pm xf) OR LLB_DP_RES_HIT\<rparr>\<rparr>"

text \<open>What follows a translation: the packet goes back to the tracker.\<close>

definition slow_end :: "'e nat_env_scheme \<Rightarrow> packet \<Rightarrow> xfi \<Rightarrow> tc_ret nat_out" where
  "slow_end e p xf = (
     let xf = RETURN_TO_MP_OUT (xf\<lparr>pm := (pm xf)\<lparr>pm_nf := 0\<rparr>\<rparr>)
     in if pgm_tbl e LLB_DP_CT_PGM_ID then Tcall LLB_DP_CT_PGM_ID p xf else Ret (Tc DP_DROP) p xf)"

fun slow_next :: "(packet \<Rightarrow> xfi \<Rightarrow> tc_ret nat_out) \<Rightarrow> int nat_out \<Rightarrow> tc_ret nat_out" where
  "slow_next k (Ret r p xf) = (if r \<noteq> 0 then Ret (Tc DP_DROP) p xf else k p xf)"
| "slow_next k (Tcall i p xf) = Tcall i p xf"

definition dp_unparse_packet_always_slow ::
  "'e nat_env_scheme \<Rightarrow> (u16 \<rightharpoonup> u32) \<Rightarrow> packet \<Rightarrow> xfi \<Rightarrow> tc_ret nat_out option" where
  "dp_unparse_packet_always_slow e tx p xf = (
     let nx = nm_nxip (nm xf); port = nm_nxport (nm xf)
     in if pm_nf (pm xf) AND LLB_NAT_SRC \<noteq> 0 then
          (if is_v6 xf then
             (if nm_nv6 (nm xf) \<noteq> 0 then Some (slow_next (slow_end e) (dp_do_snat6 e p xf nx port))
              else Some (Ret (Tc DP_DROP) p xf))
           else if nm_nv6 (nm xf) = 0 then Some (slow_next (slow_end e) (dp_do_snat e p xf (addr4 nx) port))
           else map_option (slow_next (\<lambda>p xf.
             if pm_pipe_act (pm xf) AND (LLB_PIPE_TRAP OR LLB_PIPE_PASS) \<noteq> 0 then
               (let xf = xf\<lparr>pm := (pm xf)\<lparr>pm_oport := pm_iport (pm xf)\<rparr>\<rparr> in Ret (dp_rewire_port tx xf) p xf)
             else slow_end e p xf)) (dp_do_snat46 e p xf))
        else if pm_nf (pm xf) AND LLB_NAT_DST \<noteq> 0 then
          (if is_v6 xf then
             (if nm_nv6 (nm xf) = 1 then Some (slow_next (slow_end e) (dp_do_dnat6 e p xf nx port))
              else map_option (slow_next (slow_end e)) (dp_do_dnat64 e p xf))
           else if nm_nv6 (nm xf) = 0 then Some (slow_next (slow_end e) (dp_do_dnat e p xf (addr4 nx) port))
           else Some (Ret (Tc DP_DROP) p xf))
        else Some (slow_end e p xf))"

end
