(* ===== verification/Loxi_Rewrite_Laws.thy ===== *)
theory Loxi_Rewrite_Laws
  imports Loxi_Rewrite
begin

text \<open>
  What a translation does to a packet.  The laws of the checksum and store helpers; a packet in its parts; the effect of every setter,
  brought into one form (\<open>nat_op\<close>: the metadata keep describing the packet, and addresses, ports and checksums are all that
  changes); and the composition of the setters, once for all protocols and both versions (the locale \<open>nat_setters\<close>).
\<close>

section \<open>Laws of the helpers\<close>

text \<open>
  As documented: a checksum helper updates the two bytes at its offset for a field that goes from one value to another
  (sizes 2 and 4) or for a difference (size 0), and a store inside the linear data writes the bytes.  The checksums are
  the complete ones of a received packet.
\<close>

definition cong16 :: "int \<Rightarrow> int \<Rightarrow> bool" where
  "cong16 x y \<longleftrightarrow> x mod 65535 = y mod 65535"

lemma cong16_dvd: "cong16 x y \<longleftrightarrow> 65535 dvd (x - y)"
  by (simp add: cong16_def mod_eq_dvd_iff)

lemma cong16_refl [simp]: "cong16 x x"
  by (simp add: cong16_def)

lemma cong16_trans: "cong16 x y \<Longrightarrow> cong16 y z \<Longrightarrow> cong16 x z"
  by (simp add: cong16_def)

lemma cong16_sym: "cong16 x y \<Longrightarrow> cong16 y x"
  by (simp add: cong16_def)

lemma cong16_lin: "cong16 a b \<Longrightarrow> x - y = a - b \<Longrightarrow> cong16 x y"
  by (simp add: cong16_dvd)

lemma cong16_add: "cong16 (z + x) (z + y) = cong16 x y"
  by (simp add: cong16_dvd)

lemma cong16_lin2: "cong16 a b \<Longrightarrow> cong16 c d \<Longrightarrow> x - y = (a - b) + (c - d) \<Longrightarrow> cong16 x y"
  by (simp add: cong16_dvd)

definition csum_args :: "u64 \<Rightarrow> u32 \<Rightarrow> u32 \<Rightarrow> bool" where
  "csum_args fl from to \<longleftrightarrow>
     fl AND 0xf = 0 \<and> from = 0 \<or> fl AND 0xf = 2 \<and> unat from < 65536 \<and> unat to < 65536 \<or> fl AND 0xf = 4"

definition csum_replace_ok :: "(packet \<Rightarrow> nat \<Rightarrow> u32 \<Rightarrow> u32 \<Rightarrow> u64 \<Rightarrow> packet option) \<Rightarrow> bool" where
  "csum_replace_ok f \<longleftrightarrow> (\<forall>p off from to fl. off + 2 \<le> length p \<longrightarrow> csum_args fl from to \<longrightarrow>
     (\<exists>c :: u16. f p off from to fl = Some (patch p off (le_bytes 2 c)) \<and>
        cong16 (int (unat c)) (int (unat (u16_at p off)) + int (unat from) - int (unat to))))"

definition store_bytes_ok :: "(packet \<Rightarrow> nat \<Rightarrow> u8 list \<Rightarrow> u64 \<Rightarrow> packet option) \<Rightarrow> bool" where
  "store_bytes_ok f \<longleftrightarrow> (\<forall>p off bs. off + length bs \<le> length p \<longrightarrow> f p off bs 0 = Some (patch p off bs))"

definition nat_env_ok :: "'e nat_env_scheme \<Rightarrow> bool" where
  "nat_env_ok e \<longleftrightarrow> csum_replace_ok (bpf_l3_csum_replace e) \<and> csum_replace_ok (bpf_l4_csum_replace e) \<and>
     store_bytes_ok (bpf_skb_store_bytes e)"

text \<open>A kernel.\<close>

definition kernel_csum_replace :: "packet \<Rightarrow> nat \<Rightarrow> u32 \<Rightarrow> u32 \<Rightarrow> u64 \<Rightarrow> packet option" where
  "kernel_csum_replace p off from to fl =
     (if off + 2 \<le> length p
      then Some (patch p off (le_bytes 2 (word_of_int ((uint (u16_at p off) + uint from - uint to) mod 65535) :: u16)))
      else None)"

definition kernel_store_bytes :: "packet \<Rightarrow> nat \<Rightarrow> u8 list \<Rightarrow> u64 \<Rightarrow> packet option" where
  "kernel_store_bytes p off bs fl = (if off + length bs \<le> length p then Some (patch p off bs) else None)"

definition kernel_change_proto :: "packet \<Rightarrow> u16 \<Rightarrow> u64 \<Rightarrow> packet option" where
  "kernel_change_proto p pr fl =
     (if length p < 54 then None
      else if pr = bswap16 ETH_P_IP then Some (take 14 p @ drop 34 p)
      else Some (take 14 p @ replicate 20 0 @ drop 14 p))"

definition nat_kernel :: nat_env where
  "nat_kernel = bpf_env.extend kernel_env
     \<lparr>bpf_l3_csum_replace = kernel_csum_replace, bpf_l4_csum_replace = kernel_csum_replace,
      bpf_skb_store_bytes = kernel_store_bytes, bpf_skb_change_proto = kernel_change_proto, pgm_tbl = (\<lambda>_. True)\<rparr>"

lemma kernel_csum_replace_ok: "csum_replace_ok kernel_csum_replace"
proof -
  have "uint (word_of_int (x mod 65535) :: u16) mod 65535 = x mod 65535" for x :: int
    using pos_mod_bound [of 65535 x] by (simp add: uint_word_of_int)
  then show ?thesis
    unfolding csum_replace_ok_def kernel_csum_replace_def cong16_def of_nat_unat by (metis (no_types))
qed

lemma nat_kernel_ok: "nat_env_ok nat_kernel"
  by (simp add: nat_env_ok_def nat_kernel_def bpf_env.defs kernel_csum_replace_ok store_bytes_ok_def kernel_store_bytes_def)

section \<open>A packet in its parts\<close>

text \<open>A packet is what precedes the network header, its fixed part \<open>H\<close>, its options \<open>M\<close>, and the transport segment \<open>T\<close>.\<close>

lemma patch_app1: "length A = i \<Longrightarrow> k + length bs \<le> length H \<Longrightarrow>
    patch (A @ H @ X) (i + k) bs = A @ patch H k bs @ X"
  by (simp add: patch_def)

lemma patch_app2: "length A + length H + length M = i \<Longrightarrow> k + length bs \<le> length T \<Longrightarrow>
    patch (A @ H @ M @ T) (i + k) bs = A @ H @ M @ patch T k bs"
  using patch_app1 [of "A @ H @ M" i k bs T "[]"] by simp

lemma store_H:
  assumes "nat_env_ok e" and "length A = i" and "k + length bs \<le> length H"
  shows "skb_store_bytes e (A @ H @ X) (i + k) bs = A @ patch H k bs @ X"
  using assms by (simp add: skb_store_bytes_def nat_env_ok_def store_bytes_ok_def patch_app1)

lemma store_T:
  assumes "nat_env_ok e" and "length A + length H + length M = i" and "k + length bs \<le> length T"
  shows "skb_store_bytes e (A @ H @ M @ T) (i + k) bs = A @ H @ M @ patch T k bs"
  using store_H [of e "A @ H @ M" i k bs T "[]"] assms by simp

lemma bytes_at_app: "length A = i \<Longrightarrow> k + n \<le> length H \<Longrightarrow> bytes_at (A @ H @ X) (i + k) n = bytes_at H k n"
  by simp

lemma csum_H:
  assumes "nat_env_ok e" and "length A = i" and "k + 2 \<le> length H" and "csum_args fl from to"
  obtains c :: u16 where "l3_csum_replace e (A @ H @ X) (i + k) from to fl = A @ patch H k (le_bytes 2 c) @ X"
    and "cong16 (int (unat c)) (int (sum16 (bytes_at H k 2)) + int (unat from) - int (unat to))"
proof -
  have "i + k + 2 \<le> length (A @ H @ X)" using assms by simp
  then obtain c :: u16 where
    c: "bpf_l3_csum_replace e (A @ H @ X) (i + k) from to fl = Some (patch (A @ H @ X) (i + k) (le_bytes 2 c))"
    "cong16 (int (unat c)) (int (unat (u16_at (A @ H @ X) (i + k))) + int (unat from) - int (unat to))"
    using assms(1,4) unfolding nat_env_ok_def csum_replace_ok_def by blast
  have u: "unat (u16_at (A @ H @ X) (i + k)) = sum16 (bytes_at H k 2)"
    using assms(2,3) by (subst bytes_at_app) (simp_all add: sum16_bytes2)
  have "patch (A @ H @ X) (i + k) (le_bytes 2 c) = A @ patch H k (le_bytes 2 c) @ X"
    using assms by (intro patch_app1) simp_all
  then show ?thesis
    using c by (intro that [of c]) (simp only: l3_csum_replace_def option.case, simp only: u)
qed

lemma csum_T:
  assumes "nat_env_ok e" and "length A + length H + length M = i" and "k + 2 \<le> length T" and "csum_args fl from to"
  obtains c :: u16 where "l4_csum_replace e (A @ H @ M @ T) (i + k) from to fl = A @ H @ M @ patch T k (le_bytes 2 c)"
    and "cong16 (int (unat c)) (int (sum16 (bytes_at T k 2)) + int (unat from) - int (unat to))"
proof -
  have "i + k + 2 \<le> length (A @ H @ M @ T)" using assms by simp
  then obtain c :: u16 where
    c: "bpf_l4_csum_replace e (A @ H @ M @ T) (i + k) from to fl = Some (patch (A @ H @ M @ T) (i + k) (le_bytes 2 c))"
    "cong16 (int (unat c)) (int (unat (u16_at (A @ H @ M @ T) (i + k))) + int (unat from) - int (unat to))"
    using assms(1,4) unfolding nat_env_ok_def csum_replace_ok_def by blast
  have u: "unat (u16_at (A @ H @ M @ T) (i + k)) = sum16 (bytes_at T k 2)"
    using assms(2,3) bytes_at_app [of "A @ H @ M" i k 2 T "[]"] by (simp add: sum16_bytes2)
  have "patch (A @ H @ M @ T) (i + k) (le_bytes 2 c) = A @ H @ M @ patch T k (le_bytes 2 c)"
    using assms by (intro patch_app2) simp_all
  then show ?thesis
    using c by (intro that [of c]) (simp only: l4_csum_replace_def option.case, simp only: u)
qed

section \<open>Sums of patched parts\<close>

lemma sum_patch_int:
  assumes "i + length bs \<le> length h" and "even i" and "even (length bs)"
  shows "int (sum16 (patch h i bs)) = int (sum16 h) + int (sum16 bs) - int (sum16 (bytes_at h i (length bs)))"
  using sum16_patch [OF assms] by linarith

lemma drop_patch_in:
  "a \<le> i \<Longrightarrow> i + length bs \<le> length h \<Longrightarrow> drop a (patch h i bs) = patch (drop a h) (i - a) bs"
  by (simp add: patch_def drop_take)

lemma drop_patch_out: "i + length bs \<le> a \<Longrightarrow> i + length bs \<le> length h \<Longrightarrow> drop a (patch h i bs) = drop a h"
  by (simp add: patch_def)

lemma take_patch_out: "n \<le> i \<Longrightarrow> i \<le> length h \<Longrightarrow> take n (patch h i bs) = take n h"
  by (simp add: patch_def min_absorb1)

lemma cong16_le4: "cong16 (int (sum16 (le_bytes 4 (w :: u32)))) (int (unat w))"
proof -
  have "le_bytes 4 w = le_enc (Suc (Suc (Suc (Suc 0)))) (unat w)"
    by (simp only: le_bytes_def numeral_eq_Suc pred_numeral_simps BitM.simps)
  then have "sum16 (le_bytes 4 w) = unat w mod 65536 + unat w div 65536 mod 65536"
    by (simp only: sum16_le_enc) simp
  also have "unat w div 65536 mod 65536 = unat w div 65536"
    using unsigned_less [of w, where 'a = nat] by (intro mod_less) (simp add: div_less_iff_less_mult)
  finally have "int (sum16 (le_bytes 4 w)) = int (unat w) - 65535 * (int (unat w) div 65536)"
    by (simp add: zmod_int zdiv_int minus_mult_div_eq_mod [symmetric])
  then show ?thesis by (simp add: cong16_dvd)
qed

lemma take_patch_same: "n = length bs \<Longrightarrow> take n (patch h 0 bs) = bs"
  by (simp add: patch_def)

lemma drop_patch_end: "length h = i + length bs \<Longrightarrow> drop i (patch h i bs) = bs"
  by (simp add: patch_def)

lemma length_xaddr_bytes [simp]: "length (xaddr_bytes a) = 16"
  by (simp add: xaddr_bytes_def split: prod.split)

section \<open>Translation steps\<close>

text \<open>Per protocol: the bytes of the header that must be there, the place and the size of the checksum.\<close>

definition l4_hdr :: "u8 \<Rightarrow> nat" where
  "l4_hdr pr = (if pr = IPPROTO_TCP then 20 else if pr = IPPROTO_UDP then 8 else 12)"

definition csum_at :: "u8 \<Rightarrow> nat" where
  "csum_at pr = (if pr = IPPROTO_TCP then 16 else if pr = IPPROTO_UDP then 6 else 8)"

definition csum_end :: "u8 \<Rightarrow> nat" where
  "csum_end pr = (if pr = IPPROTO_TCP then 18 else if pr = IPPROTO_UDP then 8 else 12)"

definition hdr_len :: "bool \<Rightarrow> nat" where "hdr_len six = (if six then 40 else 20)"
definition src_at :: "bool \<Rightarrow> nat" where "src_at six = (if six then 8 else 12)"
definition dst_at :: "bool \<Rightarrow> nat" where "dst_at six = (if six then 24 else 16)"
definition addr_len :: "bool \<Rightarrow> nat" where "addr_len six = (if six then 16 else 4)"

definition nat_addr_bytes :: "bool \<Rightarrow> xaddr \<Rightarrow> u8 list" where
  "nat_addr_bytes six a = (if six then xaddr_bytes a else le_bytes 4 (addr4 a))"

lemmas nat_layout = hdr_len_def src_at_def dst_at_def addr_len_def nat_addr_bytes_def

text \<open>The metadata describe the packet, and the packet has the headers they speak of.\<close>

definition nat_view :: "bool \<Rightarrow> u8 \<Rightarrow> xfi \<Rightarrow> packet \<Rightarrow> packet \<Rightarrow> packet \<Rightarrow> packet \<Rightarrow> bool" where
  "nat_view six pr xf A H M T \<longleftrightarrow>
     length A = l3_of xf \<and> length H = hdr_len six \<and> length A + length H + length M = l4_of xf \<and> l4_hdr pr \<le> length T \<and>
     bytes_at H (src_at six) (addr_len six) = nat_addr_bytes six (l34_saddr (l34m xf)) \<and>
     bytes_at H (dst_at six) (addr_len six) = nat_addr_bytes six (l34_daddr (l34m xf)) \<and>
     take 2 T = le_bytes 2 (l34_source (l34m xf)) \<and> bytes_at T 2 2 = le_bytes 2 (l34_dest (l34m xf))"

text \<open>What a translation leaves as it is: all but addresses, ports and checksums; the sum of the IPv4 header; for TCP, the sum
  of the addresses and the segment.\<close>

definition nat_keeps :: "bool \<Rightarrow> u8 \<Rightarrow> packet \<Rightarrow> packet \<Rightarrow> packet \<Rightarrow> packet \<Rightarrow> bool" where
  "nat_keeps six pr H T H' T' \<longleftrightarrow>
     length H' = length H \<and> length T' = length T \<and>
     take (if six then 8 else 10) H' = take (if six then 8 else 10) H \<and>
     bytes_at T' 4 (csum_at pr - 4) = bytes_at T 4 (csum_at pr - 4) \<and> drop (csum_end pr) T' = drop (csum_end pr) T \<and>
     (\<not> six \<longrightarrow> cong16 (int (sum16 H')) (int (sum16 H))) \<and>
     (pr = IPPROTO_TCP \<longrightarrow>
        cong16 (int (sum16 (drop (src_at six) H')) + int (sum16 T')) (int (sum16 (drop (src_at six) H)) + int (sum16 T)))"

lemma nat_keeps_refl: "nat_keeps six pr H T H T"
  by (simp add: nat_keeps_def)

lemma nat_keeps_trans: "nat_keeps six pr H T H1 T1 \<Longrightarrow> nat_keeps six pr H1 T1 H2 T2 \<Longrightarrow> nat_keeps six pr H T H2 T2"
  unfolding nat_keeps_def by (auto intro: cong16_trans)

definition nat_op :: "bool \<Rightarrow> u8 \<Rightarrow> (packet \<Rightarrow> packet \<times> xfi) \<Rightarrow> xfi \<Rightarrow> xfi \<Rightarrow> packet \<Rightarrow> bool" where
  "nat_op six pr f xf xf' p \<longleftrightarrow> (\<forall>A H M T. p = A @ H @ M @ T \<longrightarrow> nat_view six pr xf A H M T \<longrightarrow>
     (\<exists>H' T'. f p = (A @ H' @ M @ T', xf') \<and> nat_view six pr xf' A H' M T' \<and> nat_keeps six pr H T H' T'))"

lemma flag_args [simp]: "csum_args (BPF_F_PSEUDO_HDR OR 4) a b" "csum_args 4 a b"
    "csum_args 2 (ucast (v :: u16)) (ucast (w :: u16))" "csum_args BPF_F_PSEUDO_HDR 0 b"
  using unat_u16_less [of v] unat_u16_less [of w] by (simp_all add: csum_args_def BPF_F_PSEUDO_HDR_def unat_ucast_mod)

lemmas nat_consts = l4_hdr_def csum_at_def csum_end_def proto_defs

lemma set_xf_simps [simp]:
  "pm (set_saddr a xf) = pm xf" "pm (set_daddr a xf) = pm xf" "pm (set_source v xf) = pm xf" "pm (set_dest v xf) = pm xf"
  "nm (set_saddr a xf) = nm xf" "nm (set_daddr a xf) = nm xf" "nm (set_source v xf) = nm xf" "nm (set_dest v xf) = nm xf"
  "l34m (set_saddr a xf) = (l34m xf)\<lparr>l34_saddr := a\<rparr>" "l34m (set_daddr a xf) = (l34m xf)\<lparr>l34_daddr := a\<rparr>"
  "l34m (set_source v xf) = (l34m xf)\<lparr>l34_source := v\<rparr>" "l34m (set_dest v xf) = (l34m xf)\<lparr>l34_dest := v\<rparr>"
  by (simp_all add: set_saddr_def set_daddr_def set_source_def set_dest_def)

lemma addr4_set_addr4 [simp]: "addr4 (set_addr4 v a) = v"
  by (simp add: set_addr4_def)

lemma length_nat_addr_bytes [simp]: "length (nat_addr_bytes six a) = addr_len six"
  by (simp add: nat_layout)

lemmas patch_rules = bytes_at_patch_same bytes_at_patch_other drop_patch_out take_patch_out take_patch_same drop_patch_end

text \<open>A new checksum and a new port.\<close>

lemma port_step:
  assumes "nat_view six pr xf A H M T" and "length C = csum_end pr - csum_at pr"
    and "T' = patch (patch T (csum_at pr) C) (if src then 0 else 2) (le_bytes 2 x)"
    and "old = (if src then l34_source (l34m xf) else l34_dest (l34m xf))"
    and "pr = IPPROTO_TCP \<Longrightarrow> cong16 (int (sum16 C)) (int (sum16 (bytes_at T 16 2)) + int (unat old) - int (unat x))"
    and "xf' = (if src then set_source x xf else set_dest x xf)"
  shows "nat_view six pr xf' A H M T' \<and> nat_keeps six pr H T H T'"
proof
  have len: "csum_end pr \<le> length T" "4 \<le> csum_at pr" "csum_at pr < csum_end pr"
    using assms(1) by (auto simp: nat_view_def nat_consts split: if_splits)
  let ?T1 = "patch T (csum_at pr) C"
  have l1: "length ?T1 = length T" using len assms(2) by simp
  show "nat_view six pr xf' A H M T'"
    using assms(1,2) len l1 unfolding assms(3,6) by (auto simp: nat_view_def patch_rules)
  have "cong16 (int (sum16 T')) (int (sum16 T))" if tcp: "pr = IPPROTO_TCP"
  proof -
    let ?k = "if src then 0 else 2 :: nat"
    have n: "csum_at pr = 16" "csum_end pr = 18" using tcp by (simp_all add: nat_consts)
    have "int (sum16 ?T1) = int (sum16 T) + int (sum16 C) - int (sum16 (bytes_at T 16 2))"
      using len(1) assms(2) sum_patch_int [of 16 C T] n by simp
    moreover have "bytes_at ?T1 ?k 2 = le_bytes 2 old"
      using assms(1,2,4) len n by (auto simp: nat_view_def patch_rules)
    then have "int (sum16 T') = int (sum16 ?T1) + int (unat x) - int (unat old)"
      using len l1 n sum_patch_int [of ?k "le_bytes 2 x" ?T1] by (simp add: assms(3) sum16_le_bytes2)
    ultimately show ?thesis using assms(5) [OF tcp] by (elim cong16_lin) simp
  qed
  then show "nat_keeps six pr H T H T'"
    using assms(2) len l1
    by (auto simp: nat_keeps_def assms(3) patch_rules cong16_add)
qed

text \<open>A new address, the checksum of the IPv4 header and that of the segment.\<close>

lemma addr_step:
  assumes "nat_view six pr xf A H M T"
    and "T' = T \<and> pr \<noteq> IPPROTO_TCP \<or> T' = patch T (csum_at pr) C \<and> length C = csum_end pr - csum_at pr"
    and "H' = patch (if six then H else patch H 10 c) (if src then src_at six else dst_at six) (nat_addr_bytes six a)"
    and "length c = 2" and "old = (if src then l34_saddr (l34m xf) else l34_daddr (l34m xf))"
    and "\<not> six \<Longrightarrow> cong16 (int (sum16 c))
           (int (sum16 (bytes_at H 10 2)) + int (sum16 (nat_addr_bytes six old)) - int (sum16 (nat_addr_bytes six a)))"
    and "pr = IPPROTO_TCP \<Longrightarrow> cong16 (int (sum16 C))
           (int (sum16 (bytes_at T 16 2)) + int (sum16 (nat_addr_bytes six old)) - int (sum16 (nat_addr_bytes six a)))"
    and "xf' = (if src then set_saddr a xf else set_daddr a xf)"
  shows "nat_view six pr xf' A H' M T' \<and> nat_keeps six pr H T H' T'"
proof
  have len: "csum_end pr \<le> length T" "4 \<le> csum_at pr" "csum_at pr < csum_end pr" "length H = hdr_len six"
    using assms(1) by (auto simp: nat_view_def nat_consts split: if_splits)
  let ?H1 = "if six then H else patch H 10 c"
  let ?k = "if src then src_at six else dst_at six"
  have l1: "length ?H1 = hdr_len six" using len(4) assms(4) by (simp add: nat_layout)
  have lT: "length T' = length T" "take 4 T' = take 4 T" "bytes_at T' 4 (csum_at pr - 4) = bytes_at T 4 (csum_at pr - 4)"
    "drop (csum_end pr) T' = drop (csum_end pr) T"
    using assms(2) len by (auto simp: patch_rules)
  have k: "?k + addr_len six \<le> hdr_len six" "even ?k" "even (addr_len six)" "src_at six \<le> ?k" "even (src_at six)"
    by (auto simp: nat_layout)
  have lH: "length H' = length H" using l1 len(4) k by (simp add: assms(3))
  have rd: "bytes_at ?H1 ?k (addr_len six) = nat_addr_bytes six old"
    using assms(1,4,5) len(4) by (auto simp: nat_view_def nat_layout patch_rules)
  have ports: "take 2 T' = take 2 T" "bytes_at T' 2 2 = bytes_at T 2 2"
    using arg_cong [OF lT(2), of "take 2"] arg_cong [OF lT(2), of "drop 2"] by (simp_all add: drop_take)
  show "nat_view six pr xf' A H' M T'"
    using assms(1,4) len ports lT(1) lH unfolding assms(8)
    by (auto simp: nat_view_def assms(3) patch_rules nat_layout)
  have s: "int (sum16 H') = int (sum16 ?H1) + int (sum16 (nat_addr_bytes six a)) - int (sum16 (nat_addr_bytes six old))"
    unfolding assms(3) using sum_patch_int [of ?k "nat_addr_bytes six a" ?H1] l1 k rd by simp
  have ip: "cong16 (int (sum16 H')) (int (sum16 H))" if "\<not> six"
    using s assms(6) [OF that] sum_patch_int [of 10 c H] that len(4) assms(4)
    by (elim cong16_lin) (simp add: nat_layout)
  have d: "drop (src_at six) H' = patch (drop (src_at six) H) (?k - src_at six) (nat_addr_bytes six a)"
    using l1 k len(4) assms(4) unfolding assms(3)
    by (subst drop_patch_in) (auto simp: nat_layout patch_rules)
  have "drop (src_at six) ?H1 = drop (src_at six) H"
    using len(4) assms(4) by (auto simp: nat_layout patch_rules)
  then have "bytes_at (drop (src_at six) H) (?k - src_at six) (addr_len six) = nat_addr_bytes six old"
    using rd k(4) by (metis drop_drop le_add_diff_inverse add.commute)
  then have sd: "int (sum16 (drop (src_at six) H')) =
      int (sum16 (drop (src_at six) H)) + int (sum16 (nat_addr_bytes six a)) - int (sum16 (nat_addr_bytes six old))"
    unfolding d using sum_patch_int [of "?k - src_at six" "nat_addr_bytes six a" "drop (src_at six) H"] k len(4) by simp
  have tcp: "cong16 (int (sum16 (drop (src_at six) H')) + int (sum16 T')) (int (sum16 (drop (src_at six) H)) + int (sum16 T))"
    if "pr = IPPROTO_TCP"
    using sd assms(7) [OF that] assms(2) that sum_patch_int [of 16 C T] len(1)
    by (elim cong16_lin) (auto simp: nat_consts)
  have "take (if six then 8 else 10) H' = take (if six then 8 else 10) H"
    using len(4) l1 assms(4) by (auto simp: assms(3) nat_layout patch_rules)
  then show "nat_keeps six pr H T H' T'"
    using lT lH ip tcp by (simp add: nat_keeps_def)
qed

lemma nat_opI:
  assumes "\<And>A H M T. p = A @ H @ M @ T \<Longrightarrow> nat_view six pr xf A H M T \<Longrightarrow>
    \<exists>H' T'. f p = (A @ H' @ M @ T', xf') \<and> nat_view six pr xf' A H' M T' \<and> nat_keeps six pr H T H' T'"
  shows "nat_op six pr f xf xf' p"
  using assms unfolding nat_op_def by blast

lemma view_len:
  assumes "nat_view six pr xf A H M T"
  shows "length A = l3_of xf" "length H = hdr_len six" "length A + length H + length M = l4_of xf"
    "csum_at pr < csum_end pr" "4 \<le> csum_at pr" "csum_end pr \<le> length T"
  using assms by (auto simp: nat_view_def nat_consts split: if_splits)

lemma tcp_len: "csum_at IPPROTO_TCP = 16" "csum_end IPPROTO_TCP = 18"
  by (simp_all add: nat_consts)

definition set_port :: "bool \<Rightarrow> u16 \<Rightarrow> xfi \<Rightarrow> xfi" where
  "set_port src x xf = (if src then set_source x xf else set_dest x xf)"

definition set_addr :: "bool \<Rightarrow> xaddr \<Rightarrow> xfi \<Rightarrow> xfi" where
  "set_addr src a xf = (if src then set_saddr a xf else set_daddr a xf)"

lemma tcp_port_op:
  assumes "nat_env_ok e" and "old = (if src then l34_source (l34m xf) else l34_dest (l34m xf))"
    and "f p = (skb_store_bytes e (l4_csum_replace e p (l4_of xf + 16) (ucast old) (ucast x) 2)
           (l4_of xf + (if src then 0 else 2)) (le_bytes 2 x), set_port src x xf)"
  shows "nat_op six IPPROTO_TCP f xf (set_port src x xf) p"
proof (rule nat_opI)
  fix A H M T assume p: "p = A @ H @ M @ T" and v: "nat_view six IPPROTO_TCP xf A H M T"
  note l = view_len [OF v, unfolded tcp_len]
  obtain c :: u16 where c: "l4_csum_replace e p (l4_of xf + 16) (ucast old) (ucast x) 2 = A @ H @ M @ patch T 16 (le_bytes 2 c)"
    "cong16 (int (unat c)) (int (sum16 (bytes_at T 16 2)) + int (unat (ucast old :: u32)) - int (unat (ucast x :: u32)))"
    unfolding p by (rule csum_T [of e A H M "l4_of xf" 16 T 2 "ucast old" "ucast x"]) (use assms(1) l in simp_all)
  let ?T = "patch (patch T (csum_at IPPROTO_TCP) (le_bytes 2 c)) (if src then 0 else 2) (le_bytes 2 x)"
  have "f p = (A @ H @ M @ ?T, set_port src x xf)"
    unfolding assms(3) c(1) tcp_len by (subst store_T [OF assms(1) l(3)]) (use l in auto)
  moreover have "nat_view six IPPROTO_TCP (set_port src x xf) A H M ?T \<and> nat_keeps six IPPROTO_TCP H T H ?T"
    using c(2) unat_u16_less [of old] unat_u16_less [of x] unfolding set_port_def
    by (intro port_step [OF v _ refl assms(2) _ refl]) (simp_all add: tcp_len sum16_le_bytes2 unat_ucast_mod)
  ultimately show "\<exists>H' T'. f p = (A @ H' @ M @ T', set_port src x xf) \<and>
      nat_view six IPPROTO_TCP (set_port src x xf) A H' M T' \<and> nat_keeps six IPPROTO_TCP H T H' T'" by blast
qed

lemma zero_port_op:
  assumes "nat_env_ok e" and "pr \<noteq> IPPROTO_TCP" and "length C = csum_end pr - csum_at pr"
    and "f p = (skb_store_bytes e (skb_store_bytes e p (l4_of xf + csum_at pr) C)
           (l4_of xf + (if src then 0 else 2)) (le_bytes 2 x), set_port src x xf)"
  shows "nat_op six pr f xf (set_port src x xf) p"
proof (rule nat_opI)
  fix A H M T assume p: "p = A @ H @ M @ T" and v: "nat_view six pr xf A H M T"
  note l = view_len [OF v]
  let ?T = "patch (patch T (csum_at pr) C) (if src then 0 else 2) (le_bytes 2 x)"
  have "skb_store_bytes e p (l4_of xf + csum_at pr) C = A @ H @ M @ patch T (csum_at pr) C"
    unfolding p using l assms(3) by (intro store_T [OF assms(1)]) auto
  then have "f p = (A @ H @ M @ ?T, set_port src x xf)"
    unfolding assms(4) by (simp only:) (subst store_T [OF assms(1) l(3)], use l assms(3) in auto)
  moreover have "nat_view six pr (set_port src x xf) A H M ?T \<and> nat_keeps six pr H T H ?T"
    unfolding set_port_def by (rule port_step [OF v assms(3) refl refl _ refl]) (use assms(2) in simp)
  ultimately show "\<exists>H' T'. f p = (A @ H' @ M @ T', set_port src x xf) \<and>
      nat_view six pr (set_port src x xf) A H' M T' \<and> nat_keeps six pr H T H' T'" by blast
qed

text \<open>Addresses: what is done to the segment first (\<open>g\<close>), then the header.\<close>

definition seg_op :: "bool \<Rightarrow> u8 \<Rightarrow> (packet \<Rightarrow> packet) \<Rightarrow> xfi \<Rightarrow> xaddr \<Rightarrow> xaddr \<Rightarrow> bool" where
  "seg_op six pr g xf old a \<longleftrightarrow> (\<forall>A H M T. nat_view six pr xf A H M T \<longrightarrow>
     (\<exists>T' C. g (A @ H @ M @ T) = A @ H @ M @ T' \<and>
        (T' = T \<and> pr \<noteq> IPPROTO_TCP \<or> T' = patch T (csum_at pr) C \<and> length C = csum_end pr - csum_at pr) \<and>
        (pr = IPPROTO_TCP \<longrightarrow> cong16 (int (sum16 C))
           (int (sum16 (bytes_at T 16 2)) + int (sum16 (nat_addr_bytes six old)) - int (sum16 (nat_addr_bytes six a))))))"

lemma seg_none: "pr \<noteq> IPPROTO_TCP \<Longrightarrow> seg_op six pr (\<lambda>p. p) xf old a"
  by (simp add: seg_op_def)

lemma seg_zero:
  assumes "nat_env_ok e" and "pr \<noteq> IPPROTO_TCP" and "length C = csum_end pr - csum_at pr"
  shows "seg_op six pr (\<lambda>p. skb_store_bytes e p (l4_of xf + csum_at pr) C) xf old a"
  unfolding seg_op_def
proof (intro allI impI)
  fix A H M T assume "nat_view six pr xf A H M T"
  note l = view_len [OF this]
  have "skb_store_bytes e (A @ H @ M @ T) (l4_of xf + csum_at pr) C = A @ H @ M @ patch T (csum_at pr) C"
    using l assms(3) by (intro store_T [OF assms(1)]) auto
  then show "\<exists>T' C'. skb_store_bytes e (A @ H @ M @ T) (l4_of xf + csum_at pr) C = A @ H @ M @ T' \<and>
        (T' = T \<and> pr \<noteq> IPPROTO_TCP \<or> T' = patch T (csum_at pr) C' \<and> length C' = csum_end pr - csum_at pr) \<and>
        (pr = IPPROTO_TCP \<longrightarrow> cong16 (int (sum16 C'))
           (int (sum16 (bytes_at T 16 2)) + int (sum16 (nat_addr_bytes six old)) - int (sum16 (nat_addr_bytes six a))))"
    using assms(2,3) by blast
qed

text \<open>One word of an address.\<close>

lemma tcp_word:
  assumes "nat_env_ok e" and "nat_view six IPPROTO_TCP xf A H M T0" and "length T = length T0" and "length C = 2"
  obtains C' where "l4_csum_replace e (A @ H @ M @ patch T 16 C) (l4_of xf + 16) fr tw (BPF_F_PSEUDO_HDR OR 4) =
      A @ H @ M @ patch T 16 C'" and "length C' = 2"
    and "cong16 (int (sum16 C')) (int (sum16 C) + int (sum16 (le_bytes 4 fr)) - int (sum16 (le_bytes 4 tw)))"
proof -
  note l = view_len [OF assms(2), unfolded tcp_len]
  have lT: "length (patch T 16 C) = length T" using l assms(3,4) by simp
  have rd: "bytes_at (patch T 16 C) 16 2 = C" using l assms(3,4) by (simp add: bytes_at_patch_same)
  obtain c :: u16 where c: "l4_csum_replace e (A @ H @ M @ patch T 16 C) (l4_of xf + 16) fr tw (BPF_F_PSEUDO_HDR OR 4) =
      A @ H @ M @ patch (patch T 16 C) 16 (le_bytes 2 c)"
    "cong16 (int (unat c)) (int (sum16 (bytes_at (patch T 16 C) 16 2)) + int (unat fr) - int (unat tw))"
    by (rule csum_T [of e A H M "l4_of xf" 16 "patch T 16 C" "BPF_F_PSEUDO_HDR OR 4" fr tw]) (use assms l lT in simp_all)
  have "patch (patch T 16 C) 16 (le_bytes 2 c) = patch T 16 (le_bytes 2 c)"
    using l assms(3,4) by (simp add: patch_def min_absorb1)
  moreover have "cong16 (int (sum16 (le_bytes 2 c))) (int (sum16 C) + int (sum16 (le_bytes 4 fr)) - int (sum16 (le_bytes 4 tw)))"
    unfolding sum16_le_bytes2 using c(2) [unfolded rd]
    by (rule cong16_trans) (use cong16_lin2 [OF cong16_sym [OF cong16_le4 [of fr]] cong16_le4 [of tw]] in simp)
  ultimately show ?thesis using c(1) by (intro that [of "le_bytes 2 c"]) simp_all
qed

lemma patch_same_bytes: "i + n \<le> length h \<Longrightarrow> patch h i (bytes_at h i n) = h"
  by (simp add: patch_def) (metis append_take_drop_id drop_drop add.commute)

lemma seg_opI:
  assumes "\<And>A H M T. nat_view six IPPROTO_TCP xf A H M T \<Longrightarrow> \<exists>C. g (A @ H @ M @ T) = A @ H @ M @ patch T 16 C \<and> length C = 2 \<and>
     cong16 (int (sum16 C))
       (int (sum16 (bytes_at T 16 2)) + int (sum16 (nat_addr_bytes six old)) - int (sum16 (nat_addr_bytes six a)))"
  shows "seg_op six IPPROTO_TCP g xf old a"
  using assms unfolding seg_op_def tcp_len by simp blast

lemma seg_tcp4:
  assumes "nat_env_ok e" and "x = addr4 a"
  shows "seg_op False IPPROTO_TCP (\<lambda>p. l4_csum_replace e p (l4_of xf + 16) (addr4 old) x (BPF_F_PSEUDO_HDR OR 4)) xf old a"
proof (rule seg_opI)
  fix A H M T assume v: "nat_view False IPPROTO_TCP xf A H M T"
  note l = view_len [OF v, unfolded tcp_len]
  show "\<exists>C. l4_csum_replace e (A @ H @ M @ T) (l4_of xf + 16) (addr4 old) x (BPF_F_PSEUDO_HDR OR 4) =
      A @ H @ M @ patch T 16 C \<and> length C = 2 \<and> cong16 (int (sum16 C))
       (int (sum16 (bytes_at T 16 2)) + int (sum16 (nat_addr_bytes False old)) - int (sum16 (nat_addr_bytes False a)))"
    using l(6) patch_same_bytes [of 16 2 T]
    by (rule_tac tcp_word [OF assms(1) v refl, of "bytes_at T 16 2" "addr4 old" x]) (auto simp: nat_addr_bytes_def assms(2))
qed

lemma sum16_xaddr:
  "int (sum16 (xaddr_bytes (b0, b1, b2, b3))) = int (sum16 (le_bytes 4 b0)) + int (sum16 (le_bytes 4 b1)) +
     int (sum16 (le_bytes 4 b2)) + int (sum16 (le_bytes 4 b3))"
  by (simp add: xaddr_bytes_def sum16_append)

lemma seg_tcp6:
  assumes "nat_env_ok e" and "old = (o0, o1, o2, o3)" and "a = (x0, x1, x2, x3)"
  shows "seg_op True IPPROTO_TCP (\<lambda>p.
     l4_csum_replace e (l4_csum_replace e (l4_csum_replace e (l4_csum_replace e p
       (l4_of xf + 16) o0 x0 (BPF_F_PSEUDO_HDR OR 4)) (l4_of xf + 16) o1 x1 (BPF_F_PSEUDO_HDR OR 4))
       (l4_of xf + 16) o2 x2 (BPF_F_PSEUDO_HDR OR 4)) (l4_of xf + 16) o3 x3 (BPF_F_PSEUDO_HDR OR 4)) xf old a"
proof (rule seg_opI)
  fix A H M T assume v: "nat_view True IPPROTO_TCP xf A H M T"
  note l = view_len [OF v, unfolded tcp_len] and w = tcp_word [OF assms(1) v refl]
  let ?R = "\<lambda>p f t. l4_csum_replace e p (l4_of xf + 16) f t (BPF_F_PSEUDO_HDR OR 4)"
  let ?s = "\<lambda>b. int (sum16 (le_bytes 4 (b :: u32)))"
  have T: "patch T 16 (bytes_at T 16 2) = T" "length (bytes_at T 16 2) = 2" using l(6) patch_same_bytes [of 16 2 T] by simp_all
  obtain C0 where c0: "?R (A @ H @ M @ T) o0 x0 = A @ H @ M @ patch T 16 C0" "length C0 = 2"
    "cong16 (int (sum16 C0)) (int (sum16 (bytes_at T 16 2)) + ?s o0 - ?s x0)"
    using w [OF T(2), of o0 x0] T(1) by metis
  obtain C1 where c1: "?R (A @ H @ M @ patch T 16 C0) o1 x1 = A @ H @ M @ patch T 16 C1" "length C1 = 2"
    "cong16 (int (sum16 C1)) (int (sum16 C0) + ?s o1 - ?s x1)" by (rule w [OF c0(2), of o1 x1])
  obtain C2 where c2: "?R (A @ H @ M @ patch T 16 C1) o2 x2 = A @ H @ M @ patch T 16 C2" "length C2 = 2"
    "cong16 (int (sum16 C2)) (int (sum16 C1) + ?s o2 - ?s x2)" by (rule w [OF c1(2), of o2 x2])
  obtain C3 where c3: "?R (A @ H @ M @ patch T 16 C2) o3 x3 = A @ H @ M @ patch T 16 C3" "length C3 = 2"
    "cong16 (int (sum16 C3)) (int (sum16 C2) + ?s o3 - ?s x3)" by (rule w [OF c2(2), of o3 x3])
  have "cong16 (int (sum16 C1)) (int (sum16 (bytes_at T 16 2)) + ?s o0 - ?s x0 + ?s o1 - ?s x1)"
    using c0(3) c1(3) by (rule cong16_lin2) simp
  moreover have "cong16 (int (sum16 C3)) (int (sum16 C1) + ?s o2 - ?s x2 + ?s o3 - ?s x3)"
    using c2(3) c3(3) by (rule cong16_lin2) simp
  ultimately have "cong16 (int (sum16 C3)) (int (sum16 (bytes_at T 16 2)) +
      int (sum16 (nat_addr_bytes True old)) - int (sum16 (nat_addr_bytes True a)))"
    by (rule cong16_lin2) (simp add: nat_addr_bytes_def assms(2,3) sum16_xaddr)
  then show "\<exists>C. ?R (?R (?R (?R (A @ H @ M @ T) o0 x0) o1 x1) o2 x2) o3 x3 = A @ H @ M @ patch T 16 C \<and> length C = 2 \<and>
      cong16 (int (sum16 C)) (int (sum16 (bytes_at T 16 2)) +
        int (sum16 (nat_addr_bytes True old)) - int (sum16 (nat_addr_bytes True a)))"
    unfolding c0(1) c1(1) c2(1) c3(1) using c3(2) by blast
qed

lemma addr4_op:
  assumes e: "nat_env_ok e" and old: "old = (if src then l34_saddr (l34m xf) else l34_daddr (l34m xf))"
    and g: "seg_op False pr g xf old (set_addr4 x old)"
    and f: "f p = (skb_store_bytes e (l3_csum_replace e (g p) (l3_of xf + 10) (addr4 old) x 4)
           (l3_of xf + (if src then 12 else 16)) (le_bytes 4 x), set_addr src (set_addr4 x old) xf)"
  shows "nat_op False pr f xf (set_addr src (set_addr4 x old) xf) p"
proof (rule nat_opI)
  fix A H M T assume p: "p = A @ H @ M @ T" and v: "nat_view False pr xf A H M T"
  note l = view_len [OF v]
  obtain T' C where t: "g p = A @ H @ M @ T'"
      "T' = T \<and> pr \<noteq> IPPROTO_TCP \<or> T' = patch T (csum_at pr) C \<and> length C = csum_end pr - csum_at pr"
      "pr = IPPROTO_TCP \<longrightarrow> cong16 (int (sum16 C))
           (int (sum16 (bytes_at T 16 2)) + int (sum16 (nat_addr_bytes False old)) - int (sum16 (nat_addr_bytes False (set_addr4 x old))))"
    using g v unfolding p seg_op_def by blast
  obtain c :: u16 where c: "l3_csum_replace e (A @ H @ M @ T') (l3_of xf + 10) (addr4 old) x 4 = A @ patch H 10 (le_bytes 2 c) @ M @ T'"
    "cong16 (int (unat c)) (int (sum16 (bytes_at H 10 2)) + int (unat (addr4 old)) - int (unat x))"
    by (rule csum_H [OF e l(1), of 10 H 4 "addr4 old" x]) (use l in \<open>simp_all add: nat_layout\<close>)
  have cc: "cong16 (int (sum16 (le_bytes 2 c)))
      (int (sum16 (bytes_at H 10 2)) + int (sum16 (nat_addr_bytes False old)) - int (sum16 (nat_addr_bytes False (set_addr4 x old))))"
    unfolding sum16_le_bytes2 nat_addr_bytes_def using c(2)
    by (rule cong16_trans) (use cong16_lin2 [OF cong16_sym [OF cong16_le4 [of "addr4 old"]] cong16_le4 [of x]] in simp)
  let ?H = "patch (if False then H else patch H 10 (le_bytes 2 c)) (if src then src_at False else dst_at False)
     (nat_addr_bytes False (set_addr4 x old))"
  have "f p = (A @ ?H @ M @ T', set_addr src (set_addr4 x old) xf)"
    unfolding f t(1) c(1) by (subst store_H [OF e l(1)]) (use l in \<open>auto simp: nat_layout\<close>)
  moreover have "nat_view False pr (set_addr src (set_addr4 x old) xf) A ?H M T' \<and> nat_keeps False pr H T ?H T'"
    unfolding set_addr_def by (rule addr_step [OF v t(2) refl _ old cc _ refl]) (use t(3) in simp_all)
  ultimately show "\<exists>H' T'. f p = (A @ H' @ M @ T', set_addr src (set_addr4 x old) xf) \<and>
      nat_view False pr (set_addr src (set_addr4 x old) xf) A H' M T' \<and> nat_keeps False pr H T H' T'" by blast
qed

lemma addr6_op:
  assumes e: "nat_env_ok e" and old: "old = (if src then l34_saddr (l34m xf) else l34_daddr (l34m xf))"
    and g: "seg_op True pr g xf old a"
    and f: "f p = (skb_store_bytes e (g p) (l3_of xf + (if src then 8 else 24)) (xaddr_bytes a), set_addr src a xf)"
  shows "nat_op True pr f xf (set_addr src a xf) p"
proof (rule nat_opI)
  fix A H M T assume p: "p = A @ H @ M @ T" and v: "nat_view True pr xf A H M T"
  note l = view_len [OF v]
  obtain T' C where t: "g p = A @ H @ M @ T'"
      "T' = T \<and> pr \<noteq> IPPROTO_TCP \<or> T' = patch T (csum_at pr) C \<and> length C = csum_end pr - csum_at pr"
      "pr = IPPROTO_TCP \<longrightarrow> cong16 (int (sum16 C))
           (int (sum16 (bytes_at T 16 2)) + int (sum16 (nat_addr_bytes True old)) - int (sum16 (nat_addr_bytes True a)))"
    using g v unfolding p seg_op_def by blast
  let ?H = "patch (if True then H else patch H 10 [0, 0]) (if src then src_at True else dst_at True) (nat_addr_bytes True a)"
  have "f p = (A @ ?H @ M @ T', set_addr src a xf)"
    unfolding f t(1) by (subst store_H [OF e l(1)]) (use l in \<open>auto simp: nat_layout\<close>)
  moreover have "nat_view True pr (set_addr src a xf) A ?H M T' \<and> nat_keeps True pr H T ?H T'"
    unfolding set_addr_def by (rule addr_step [OF v t(2) refl _ old _ _ refl]) (use t(3) in simp_all)
  ultimately show "\<exists>H' T'. f p = (A @ H' @ M @ T', set_addr src a xf) \<and>
      nat_view True pr (set_addr src a xf) A H' M T' \<and> nat_keeps True pr H T H' T'" by blast
qed

lemma op_tcp:
  assumes "nat_env_ok e"
  shows "nat_op six IPPROTO_TCP (\<lambda>p. dp_set_tcp_sport e p xf v) xf (set_source v xf) p"
    and "nat_op six IPPROTO_TCP (\<lambda>p. dp_set_tcp_dport e p xf v) xf (set_dest v xf) p"
    and "nat_op False IPPROTO_TCP (\<lambda>p. dp_set_tcp_src_ip e p xf x) xf (set_saddr4 x xf) p"
    and "nat_op False IPPROTO_TCP (\<lambda>p. dp_set_tcp_dst_ip e p xf x) xf (set_daddr4 x xf) p"
    and "nat_op True IPPROTO_TCP (\<lambda>p. dp_set_tcp_src_ip6 e p xf a) xf (set_saddr a xf) p"
    and "nat_op True IPPROTO_TCP (\<lambda>p. dp_set_tcp_dst_ip6 e p xf a) xf (set_daddr a xf) p"
proof -
  note pt = tcp_port_op [OF assms refl] and a4 = addr4_op [OF assms refl seg_tcp4 [OF assms]]
    and a6 = addr6_op [OF assms refl seg_tcp6 [OF assms]]
  show "nat_op six IPPROTO_TCP (\<lambda>p. dp_set_tcp_sport e p xf v) xf (set_source v xf) p"
    using pt [where src = True] by (simp add: dp_set_tcp_sport_def set_port_def Let_def)
  show "nat_op six IPPROTO_TCP (\<lambda>p. dp_set_tcp_dport e p xf v) xf (set_dest v xf) p"
    using pt [where src = False] by (simp add: dp_set_tcp_dport_def set_port_def Let_def)
  show "nat_op False IPPROTO_TCP (\<lambda>p. dp_set_tcp_src_ip e p xf x) xf (set_saddr4 x xf) p"
    using a4 [where src = True and x1 = x] by (simp add: dp_set_tcp_src_ip_def set_addr_def set_saddr4_def Let_def)
  show "nat_op False IPPROTO_TCP (\<lambda>p. dp_set_tcp_dst_ip e p xf x) xf (set_daddr4 x xf) p"
    using a4 [where src = False and x1 = x] by (simp add: dp_set_tcp_dst_ip_def set_addr_def set_daddr4_def Let_def)
  show "nat_op True IPPROTO_TCP (\<lambda>p. dp_set_tcp_src_ip6 e p xf a) xf (set_saddr a xf) p"
    using a6 [where src = True and xf = xf] by (cases a, cases "l34_saddr (l34m xf)")
      (simp add: dp_set_tcp_src_ip6_def set_addr_def Let_def)
  show "nat_op True IPPROTO_TCP (\<lambda>p. dp_set_tcp_dst_ip6 e p xf a) xf (set_daddr a xf) p"
    using a6 [where src = False and xf = xf] by (cases a, cases "l34_daddr (l34m xf)")
      (simp add: dp_set_tcp_dst_ip6_def set_addr_def Let_def)
qed

lemma udp_len: "IPPROTO_UDP \<noteq> IPPROTO_TCP" "csum_at IPPROTO_UDP = 6" "csum_end IPPROTO_UDP = 8"
  by (simp_all add: nat_consts)

lemma sctp_len: "IPPROTO_SCTP \<noteq> IPPROTO_TCP" "csum_at IPPROTO_SCTP = 8" "csum_end IPPROTO_SCTP = 12"
  by (simp_all add: nat_consts)

lemma op_udp:
  assumes "nat_env_ok e"
  shows "nat_op six IPPROTO_UDP (\<lambda>p. dp_set_udp_sport e p xf v) xf (set_source v xf) p"
    and "nat_op six IPPROTO_UDP (\<lambda>p. dp_set_udp_dport e p xf v) xf (set_dest v xf) p"
    and "nat_op False IPPROTO_UDP (\<lambda>p. dp_set_udp_src_ip e p xf x) xf (set_saddr4 x xf) p"
    and "nat_op False IPPROTO_UDP (\<lambda>p. dp_set_udp_dst_ip e p xf x) xf (set_daddr4 x xf) p"
    and "nat_op True IPPROTO_UDP (\<lambda>p. dp_set_udp_src_ip6 e p xf a) xf (set_saddr a xf) p"
    and "nat_op True IPPROTO_UDP (\<lambda>p. dp_set_udp_dst_ip6 e p xf a) xf (set_daddr a xf) p"
proof -
  note pt = zero_port_op [OF assms udp_len(1), of "le_bytes 2 (0 :: u16)"]
    and z = seg_zero [OF assms udp_len(1), of "le_bytes 2 (0 :: u16)"]
  note a4 = addr4_op [OF assms refl z] and a6 = addr6_op [OF assms refl z]
  show "nat_op six IPPROTO_UDP (\<lambda>p. dp_set_udp_sport e p xf v) xf (set_source v xf) p"
    using pt [where src = True] by (simp add: dp_set_udp_sport_def set_port_def Let_def udp_len)
  show "nat_op six IPPROTO_UDP (\<lambda>p. dp_set_udp_dport e p xf v) xf (set_dest v xf) p"
    using pt [where src = False] by (simp add: dp_set_udp_dport_def set_port_def Let_def udp_len)
  show "nat_op False IPPROTO_UDP (\<lambda>p. dp_set_udp_src_ip e p xf x) xf (set_saddr4 x xf) p"
    using a4 [where src = True and x = x] by (simp add: dp_set_udp_src_ip_def set_addr_def set_saddr4_def Let_def udp_len)
  show "nat_op False IPPROTO_UDP (\<lambda>p. dp_set_udp_dst_ip e p xf x) xf (set_daddr4 x xf) p"
    using a4 [where src = False and x = x] by (simp add: dp_set_udp_dst_ip_def set_addr_def set_daddr4_def Let_def udp_len)
  show "nat_op True IPPROTO_UDP (\<lambda>p. dp_set_udp_src_ip6 e p xf a) xf (set_saddr a xf) p"
    using a6 [where src = True] by (simp add: dp_set_udp_src_ip6_def set_addr_def Let_def udp_len)
  show "nat_op True IPPROTO_UDP (\<lambda>p. dp_set_udp_dst_ip6 e p xf a) xf (set_daddr a xf) p"
    using a6 [where src = False] by (simp add: dp_set_udp_dst_ip6_def set_addr_def Let_def udp_len)
qed

lemma op_sctp:
  assumes "nat_env_ok e"
  shows "nat_op six IPPROTO_SCTP (\<lambda>p. dp_set_sctp_sport e p xf v) xf (set_source v xf) p"
    and "nat_op six IPPROTO_SCTP (\<lambda>p. dp_set_sctp_dport e p xf v) xf (set_dest v xf) p"
    and "nat_op False IPPROTO_SCTP (\<lambda>p. dp_set_sctp_src_ip e p xf x) xf (set_saddr4 x xf) p"
    and "nat_op False IPPROTO_SCTP (\<lambda>p. dp_set_sctp_dst_ip e p xf x) xf (set_daddr4 x xf) p"
    and "nat_op True IPPROTO_SCTP (\<lambda>p. dp_set_sctp_src_ip6 e p xf a) xf (set_saddr a xf) p"
    and "nat_op True IPPROTO_SCTP (\<lambda>p. dp_set_sctp_dst_ip6 e p xf a) xf (set_daddr a xf) p"
proof -
  note pt = zero_port_op [OF assms sctp_len(1), of "le_bytes 4 (0 :: u32)"] and z = seg_none [OF sctp_len(1)]
  note a4 = addr4_op [OF assms refl z] and a6 = addr6_op [OF assms refl z]
  show "nat_op six IPPROTO_SCTP (\<lambda>p. dp_set_sctp_sport e p xf v) xf (set_source v xf) p"
    using pt [where src = True] by (simp add: dp_set_sctp_sport_def set_port_def Let_def sctp_len)
  show "nat_op six IPPROTO_SCTP (\<lambda>p. dp_set_sctp_dport e p xf v) xf (set_dest v xf) p"
    using pt [where src = False] by (simp add: dp_set_sctp_dport_def set_port_def Let_def sctp_len)
  show "nat_op False IPPROTO_SCTP (\<lambda>p. dp_set_sctp_src_ip e p xf x) xf (set_saddr4 x xf) p"
    using a4 [where src = True and x = x] by (simp add: dp_set_sctp_src_ip_def set_addr_def set_saddr4_def Let_def)
  show "nat_op False IPPROTO_SCTP (\<lambda>p. dp_set_sctp_dst_ip e p xf x) xf (set_daddr4 x xf) p"
    using a4 [where src = False and x = x] by (simp add: dp_set_sctp_dst_ip_def set_addr_def set_daddr4_def Let_def)
  show "nat_op True IPPROTO_SCTP (\<lambda>p. dp_set_sctp_src_ip6 e p xf a) xf (set_saddr a xf) p"
    using a6 [where src = True] by (simp add: dp_set_sctp_src_ip6_def set_addr_def Let_def)
  show "nat_op True IPPROTO_SCTP (\<lambda>p. dp_set_sctp_dst_ip6 e p xf a) xf (set_daddr a xf) p"
    using a6 [where src = False] by (simp add: dp_set_sctp_dst_ip6_def set_addr_def Let_def)
qed

lemma op_id: "nat_op six pr (\<lambda>p. (p, xf)) xf xf p"
  unfolding nat_op_def using nat_keeps_refl by blast

lemma op_seq:
  assumes "nat_op six pr f xf xf1 p" and "\<And>p. nat_op six pr (\<lambda>p. g p xf1) xf1 xf2 p"
  shows "nat_op six pr (\<lambda>p. case f p of (p, xf) \<Rightarrow> g p xf) xf xf2 p"
proof (rule nat_opI)
  fix A H M T assume p: "p = A @ H @ M @ T" and v: "nat_view six pr xf A H M T"
  obtain H1 T1 where 1: "f p = (A @ H1 @ M @ T1, xf1)" "nat_view six pr xf1 A H1 M T1" "nat_keeps six pr H T H1 T1"
    using assms(1) p v unfolding nat_op_def by blast
  obtain H2 T2 where "g (A @ H1 @ M @ T1) xf1 = (A @ H2 @ M @ T2, xf2)" "nat_view six pr xf2 A H2 M T2"
      "nat_keeps six pr H1 T1 H2 T2"
    using assms(2) 1(2) unfolding nat_op_def by blast
  then show "\<exists>H' T'. (case f p of (p, xf) \<Rightarrow> g p xf) = (A @ H' @ M @ T', xf2) \<and> nat_view six pr xf2 A H' M T' \<and> nat_keeps six pr H T H' T'"
    using 1 by (auto intro: nat_keeps_trans)
qed

text \<open>What the translation needs of the setters of a protocol: \<open>us\<close> and \<open>ud\<close> are what the address setters do to the
  metadata.  The order of the steps is that of \<open>dp_do_dnat\<close> and \<open>dp_do_snat\<close>, for every protocol and both versions.\<close>

locale nat_setters =
  fixes six :: bool and pr :: u8
    and s_src :: "packet \<Rightarrow> xfi \<Rightarrow> 'a \<Rightarrow> packet \<times> xfi" and s_dst :: "packet \<Rightarrow> xfi \<Rightarrow> 'a \<Rightarrow> packet \<times> xfi"
    and s_sport :: "packet \<Rightarrow> xfi \<Rightarrow> u16 \<Rightarrow> packet \<times> xfi" and s_dport :: "packet \<Rightarrow> xfi \<Rightarrow> u16 \<Rightarrow> packet \<times> xfi"
    and us :: "'a \<Rightarrow> xfi \<Rightarrow> xfi" and ud :: "'a \<Rightarrow> xfi \<Rightarrow> xfi"
  assumes src_op: "nat_op six pr (\<lambda>p. s_src p xf a) xf (us a xf) p"
    and dst_op: "nat_op six pr (\<lambda>p. s_dst p xf a) xf (ud a xf) p"
    and sport_op: "nat_op six pr (\<lambda>p. s_sport p xf v) xf (set_source v xf) p"
    and dport_op: "nat_op six pr (\<lambda>p. s_dport p xf v) xf (set_dest v xf) p"
begin

lemma hairpin: "nat_op six pr (\<lambda>p. case s_src p xf d of (p, xf) \<Rightarrow> s_dst p xf s) xf (ud s (us d xf)) p"
  by (rule op_seq, rule src_op, rule dst_op)

lemma dnat:
  "nat_op six pr (\<lambda>p. case (case (if nr then s_src p xf r else (p, xf)) of (p, xf) \<Rightarrow> s_dst p xf a) of (p, xf) \<Rightarrow> s_dport p xf v)
     xf (set_dest v (ud a (if nr then us r xf else xf))) p"
proof (cases nr)
  case True
  have "nat_op six pr (\<lambda>p. case s_src p xf r of (p, xf) \<Rightarrow> s_dst p xf a) xf (ud a (us r xf)) p" for p by (rule hairpin)
  then show ?thesis unfolding if_P [OF True] by (rule op_seq) (rule dport_op)
next
  case False
  show ?thesis unfolding if_not_P [OF False] prod.case by (rule op_seq, rule dst_op, rule dport_op)
qed

lemma snat:
  "nat_op six pr (\<lambda>p. case (case s_src p xf a of (p, xf) \<Rightarrow> if nr then s_dst p xf r else (p, xf)) of (p, xf) \<Rightarrow> s_sport p xf v)
     xf (set_source v (if nr then ud r (us a xf) else us a xf)) p"
proof (cases nr)
  case True
  show ?thesis unfolding if_P [OF True] by (rule op_seq, rule hairpin, rule sport_op)
next
  case False
  show ?thesis unfolding if_not_P [OF False] by (rule op_seq, rule op_seq, rule src_op, rule op_id, rule sport_op)
qed

lemma dnat_all:
  "nat_op six pr (\<lambda>p. case (if z then (case s_src p xf d of (p, xf) \<Rightarrow> s_dst p xf s)
       else case (if nr then s_src p xf r else (p, xf)) of (p, xf) \<Rightarrow> s_dst p xf a) of (p, xf) \<Rightarrow> s_dport p xf v)
     xf (set_dest v (if z then ud s (us d xf) else ud a (if nr then us r xf else xf))) p"
proof (cases z)
  case True
  show ?thesis unfolding if_P [OF True] by (rule op_seq, rule hairpin, rule dport_op)
next
  case False
  show ?thesis unfolding if_not_P [OF False] by (rule dnat)
qed

lemma snat_all:
  "nat_op six pr (\<lambda>p. case (if z then (case s_src p xf d of (p, xf) \<Rightarrow> s_dst p xf s)
       else case s_src p xf a of (p, xf) \<Rightarrow> if nr then s_dst p xf r else (p, xf)) of (p, xf) \<Rightarrow> s_sport p xf v)
     xf (set_source v (if z then ud s (us d xf) else if nr then ud r (us a xf) else us a xf)) p"
proof (cases z)
  case True
  show ?thesis unfolding if_P [OF True] by (rule op_seq, rule hairpin, rule sport_op)
next
  case False
  show ?thesis unfolding if_not_P [OF False] by (rule snat)
qed

end

lemma tcp4_setters:
  "nat_env_ok e \<Longrightarrow> nat_setters False IPPROTO_TCP (dp_set_tcp_src_ip e) (dp_set_tcp_dst_ip e)
     (dp_set_tcp_sport e) (dp_set_tcp_dport e) set_saddr4 set_daddr4"
  by unfold_locales (simp_all add: op_tcp)

lemma udp4_setters:
  "nat_env_ok e \<Longrightarrow> nat_setters False IPPROTO_UDP (dp_set_udp_src_ip e) (dp_set_udp_dst_ip e)
     (dp_set_udp_sport e) (dp_set_udp_dport e) set_saddr4 set_daddr4"
  by unfold_locales (simp_all add: op_udp)

lemma sctp4_setters:
  "nat_env_ok e \<Longrightarrow> nat_setters False IPPROTO_SCTP (dp_set_sctp_src_ip e) (dp_set_sctp_dst_ip e)
     (dp_set_sctp_sport e) (dp_set_sctp_dport e) set_saddr4 set_daddr4"
  by unfold_locales (simp_all add: op_sctp)

lemma tcp6_setters:
  "nat_env_ok e \<Longrightarrow> nat_setters True IPPROTO_TCP (dp_set_tcp_src_ip6 e) (dp_set_tcp_dst_ip6 e)
     (dp_set_tcp_sport e) (dp_set_tcp_dport e) set_saddr set_daddr"
  by unfold_locales (simp_all add: op_tcp)

lemma udp6_setters:
  "nat_env_ok e \<Longrightarrow> nat_setters True IPPROTO_UDP (dp_set_udp_src_ip6 e) (dp_set_udp_dst_ip6 e)
     (dp_set_udp_sport e) (dp_set_udp_dport e) set_saddr set_daddr"
  by unfold_locales (simp_all add: op_udp)

lemma sctp6_setters:
  "nat_env_ok e \<Longrightarrow> nat_setters True IPPROTO_SCTP (dp_set_sctp_src_ip6 e) (dp_set_sctp_dst_ip6 e)
     (dp_set_sctp_sport e) (dp_set_sctp_dport e) set_saddr set_daddr"
  by unfold_locales (simp_all add: op_sctp)

interpretation kernel_tcp4: nat_setters False IPPROTO_TCP "dp_set_tcp_src_ip nat_kernel" "dp_set_tcp_dst_ip nat_kernel"
     "dp_set_tcp_sport nat_kernel" "dp_set_tcp_dport nat_kernel" set_saddr4 set_daddr4
  by (rule tcp4_setters [OF nat_kernel_ok])

section \<open>The translation of a connection\<close>

text \<open>The addresses and ports of a connection, and what a translation makes of them: \<open>z\<close> is the address that stands for a
  hairpin, \<open>r\<close> the other new address, if there is one.\<close>

fun dnat_tuple :: "'a \<Rightarrow> 'a \<Rightarrow> 'a \<Rightarrow> u16 \<Rightarrow> 'a \<times> 'a \<times> u16 \<times> u16 \<Rightarrow> 'a \<times> 'a \<times> u16 \<times> u16" where
  "dnat_tuple z r a v (s, d, sp, dp) = (if a = z then (d, s, sp, v) else (if r = z then s else r, a, sp, v))"

fun snat_tuple :: "'a \<Rightarrow> 'a \<Rightarrow> 'a \<Rightarrow> u16 \<Rightarrow> 'a \<times> 'a \<times> u16 \<times> u16 \<Rightarrow> 'a \<times> 'a \<times> u16 \<times> u16" where
  "snat_tuple z r a v (s, d, sp, dp) = (if a = z then (d, s, v, dp) else (a, if r = z then d else r, v, dp))"

definition meta4 :: "xfi \<Rightarrow> u32 \<times> u32 \<times> u16 \<times> u16" where
  "meta4 xf = (addr4 (l34_saddr (l34m xf)), addr4 (l34_daddr (l34m xf)), l34_source (l34m xf), l34_dest (l34m xf))"

definition meta6 :: "xfi \<Rightarrow> xaddr \<times> xaddr \<times> u16 \<times> u16" where
  "meta6 xf = (l34_saddr (l34m xf), l34_daddr (l34m xf), l34_source (l34m xf), l34_dest (l34m xf))"

text \<open>The same in the packet.\<close>

definition xaddr_at :: "packet \<Rightarrow> nat \<Rightarrow> xaddr" where
  "xaddr_at p i = (u32_at p i, u32_at p (i + 4), u32_at p (i + 8), u32_at p (i + 12))"

definition tuple4 :: "packet \<Rightarrow> nat \<Rightarrow> nat \<Rightarrow> u32 \<times> u32 \<times> u16 \<times> u16" where
  "tuple4 p l3 l4 = (u32_at p (l3 + 12), u32_at p (l3 + 16), u16_at p l4, u16_at p (l4 + 2))"

definition tuple6 :: "packet \<Rightarrow> nat \<Rightarrow> nat \<Rightarrow> xaddr \<times> xaddr \<times> u16 \<times> u16" where
  "tuple6 p l3 l4 = (xaddr_at p (l3 + 8), xaddr_at p (l3 + 24), u16_at p l4, u16_at p (l4 + 2))"

text \<open>Two packets that differ in addresses, ports and checksums at most.\<close>

definition same_rest :: "bool \<Rightarrow> u8 \<Rightarrow> nat \<Rightarrow> nat \<Rightarrow> packet \<Rightarrow> packet \<Rightarrow> bool" where
  "same_rest six pr l3 l4 p p' \<longleftrightarrow> length p' = length p \<and>
     take (l3 + (if six then 8 else 10)) p' = take (l3 + (if six then 8 else 10)) p \<and>
     bytes_at p' (l3 + hdr_len six) (l4 - (l3 + hdr_len six)) = bytes_at p (l3 + hdr_len six) (l4 - (l3 + hdr_len six)) \<and>
     bytes_at p' (l4 + 4) (csum_at pr - 4) = bytes_at p (l4 + 4) (csum_at pr - 4) \<and>
     drop (l4 + csum_end pr) p' = drop (l4 + csum_end pr) p"

text \<open>The sum a receiver of a TCP segment forms over the addresses and the segment; the other two words of the pseudo header
  do not change.\<close>

definition tcp_sum :: "bool \<Rightarrow> nat \<Rightarrow> nat \<Rightarrow> packet \<Rightarrow> int" where
  "tcp_sum six l3 l4 p = int (sum16 (bytes_at p (l3 + src_at six) (2 * addr_len six))) + int (sum16 (drop l4 p))"

definition nat_good :: "bool \<Rightarrow> u8 \<Rightarrow> nat \<Rightarrow> nat \<Rightarrow> packet \<Rightarrow> packet \<Rightarrow> bool" where
  "nat_good six pr l3 l4 p p' \<longleftrightarrow> same_rest six pr l3 l4 p p' \<and>
     (pr = IPPROTO_TCP \<longrightarrow> cong16 (tcp_sum six l3 l4 p') (tcp_sum six l3 l4 p)) \<and>
     (\<not> six \<longrightarrow> p ! l3 \<noteq> 0 \<longrightarrow> ip_csum_ok (bytes_at p l3 (l4 - l3)) \<longrightarrow> ip_csum_ok (bytes_at p' l3 (l4 - l3)))"

lemma split4:
  assumes "i + n \<le> j" and "j \<le> length p"
  shows "p = take i p @ bytes_at p i n @ bytes_at p (i + n) (j - (i + n)) @ drop j p"
proof -
  have "bytes_at p (i + n) (j - (i + n)) @ drop j p = drop (i + n) p"
    using assms append_take_drop_id [of "j - (i + n)" "drop (i + n) p"] by simp
  moreover have "bytes_at p i n @ drop (i + n) p = drop i p"
    using append_take_drop_id [of n "drop i p"] by (simp add: add.commute)
  ultimately show ?thesis by simp
qed

lemma cong16_nat: "cong16 (int a) (int b) \<longleftrightarrow> a mod 65535 = b mod 65535"
  using zmod_int [of a 65535] zmod_int [of b 65535] by (auto simp: cong16_def)

lemma le4_at: "i + 4 \<le> length p \<Longrightarrow> le_bytes 4 (u32_at p i) = bytes_at p i 4"
  by (rule le_bytes_word) simp_all

lemma le2_at: "i + 2 \<le> length p \<Longrightarrow> le_bytes 2 (u16_at p i) = bytes_at p i 2"
  by (rule le_bytes_word) simp_all

lemma xaddr_bytes_at:
  assumes "i + 16 \<le> length p"
  shows "xaddr_bytes (xaddr_at p i) = bytes_at p i 16"
  using assms bytes_at_split [of 4 12 i p] bytes_at_split [of 4 8 "i + 4" p] bytes_at_split [of 4 4 "i + 8" p]
  by (simp add: xaddr_bytes_def xaddr_at_def le4_at add.commute)

lemma xaddr_bytes_inj: "xaddr_bytes a = xaddr_bytes b \<Longrightarrow> a = b"
proof (cases a; cases b)
  fix a0 a1 a2 a3 b0 b1 b2 b3 assume ab: "a = (a0, a1, a2, a3)" "b = (b0, b1, b2, b3)" "xaddr_bytes a = xaddr_bytes b"
  have "le_bytes 4 x = le_bytes 4 y \<Longrightarrow> x = y" for x y :: u32
  proof -
    have "le_word (le_bytes 4 w) = w" for w :: u32 by (rule le_word_bytes) simp
    then show "le_bytes 4 x = le_bytes 4 y \<Longrightarrow> x = y" by metis
  qed
  then show "a = b" using ab by (simp add: xaddr_bytes_def)
qed

lemma view_exists:
  assumes "l3_of xf + hdr_len six \<le> l4_of xf" and "l4_of xf + l4_hdr pr \<le> length p"
    and "bytes_at p (l3_of xf + src_at six) (addr_len six) = nat_addr_bytes six (l34_saddr (l34m xf))"
    and "bytes_at p (l3_of xf + dst_at six) (addr_len six) = nat_addr_bytes six (l34_daddr (l34m xf))"
    and "u16_at p (l4_of xf) = l34_source (l34m xf)" and "u16_at p (l4_of xf + 2) = l34_dest (l34m xf)"
  obtains A H M T where "p = A @ H @ M @ T" and "nat_view six pr xf A H M T"
proof
  let ?l3 = "l3_of xf" and ?l4 = "l4_of xf" and ?n = "hdr_len six"
  have l: "?l4 \<le> length p" "4 \<le> l4_hdr pr" using assms(2) by (simp_all add: l4_hdr_def)
  show "p = take ?l3 p @ bytes_at p ?l3 ?n @ bytes_at p (?l3 + ?n) (?l4 - (?l3 + ?n)) @ drop ?l4 p"
    using assms(1) l by (intro split4) simp_all
  have "bytes_at (bytes_at p ?l3 ?n) k m = bytes_at p (?l3 + k) m" if "k + m \<le> ?n" for k m
    using that by (simp add: drop_take min_absorb1 add.commute)
  moreover have "src_at six + addr_len six \<le> ?n" "dst_at six + addr_len six \<le> ?n" by (simp_all add: nat_layout)
  moreover have "bytes_at p ?l4 2 = le_bytes 2 (l34_source (l34m xf))" "bytes_at p (?l4 + 2) 2 = le_bytes 2 (l34_dest (l34m xf))"
    using assms(2,5,6) l(2) le2_at [of ?l4 p] le2_at [of "?l4 + 2" p] by simp_all
  ultimately show "nat_view six pr xf (take ?l3 p) (bytes_at p ?l3 ?n) (bytes_at p (?l3 + ?n) (?l4 - (?l3 + ?n))) (drop ?l4 p)"
    using assms l by (simp add: nat_view_def add.commute)
qed

lemma view_reads:
  assumes "nat_view six pr xf A H M T"
  shows "bytes_at (A @ H @ M @ T) (l3_of xf + src_at six) (addr_len six) = nat_addr_bytes six (l34_saddr (l34m xf))"
    and "bytes_at (A @ H @ M @ T) (l3_of xf + dst_at six) (addr_len six) = nat_addr_bytes six (l34_daddr (l34m xf))"
    and "u16_at (A @ H @ M @ T) (l4_of xf) = l34_source (l34m xf)"
    and "u16_at (A @ H @ M @ T) (l4_of xf + 2) = l34_dest (l34m xf)"
proof -
  note l = view_len [OF assms]
  have at: "src_at six + addr_len six \<le> length H" "dst_at six + addr_len six \<le> length H" "4 \<le> length T"
    using l by (simp_all add: nat_layout)
  show "bytes_at (A @ H @ M @ T) (l3_of xf + src_at six) (addr_len six) = nat_addr_bytes six (l34_saddr (l34m xf))"
    "bytes_at (A @ H @ M @ T) (l3_of xf + dst_at six) (addr_len six) = nat_addr_bytes six (l34_daddr (l34m xf))"
    unfolding bytes_at_app [OF l(1) at(1)] bytes_at_app [OF l(1) at(2)] using assms by (simp_all add: nat_view_def)
  have "length (A @ H @ M) = l4_of xf" using l(3) by simp
  then have "bytes_at ((A @ H @ M) @ T) (l4_of xf + k) 2 = bytes_at T k 2" for k
    by (simp del: append_assoc)
  from this [of 0] this [of 2] show "u16_at (A @ H @ M @ T) (l4_of xf) = l34_source (l34m xf)"
    "u16_at (A @ H @ M @ T) (l4_of xf + 2) = l34_dest (l34m xf)"
    using assms by (simp_all add: nat_view_def le_word_bytes)
qed

lemma view_good:
  assumes v: "nat_view six pr xf A H M T" and v': "nat_view six pr xf' A H' M T'" and k: "nat_keeps six pr H T H' T'"
  shows "nat_good six pr (l3_of xf) (l4_of xf) (A @ H @ M @ T) (A @ H' @ M @ T')"
proof -
  note l = view_len [OF v] and l' = view_len [OF v']
  note k' = k [unfolded nat_keeps_def]
  have L4: "length (A @ H @ M) = l4_of xf" "length (A @ H' @ M) = l4_of xf" using l k' by simp_all
  have rd: "bytes_at (A @ H @ M @ T) (l4_of xf + i) n = bytes_at T i n"
    "bytes_at (A @ H' @ M @ T') (l4_of xf + i) n = bytes_at T' i n"
    "drop (l4_of xf + i) (A @ H @ M @ T) = drop i T" "drop (l4_of xf + i) (A @ H' @ M @ T') = drop i T'" for i n
    using L4 by (simp_all del: append_assoc add: append_assoc [symmetric])
  let ?k = "if six then 8 else 10 :: nat"
  have tk: "take (l3_of xf + ?k) (A @ H @ M @ T) = A @ take ?k H" "take (l3_of xf + ?k) (A @ H' @ M @ T') = A @ take ?k H'"
    using l k' by (simp_all add: nat_layout)
  have md: "bytes_at (A @ H @ M @ T) (l3_of xf + hdr_len six) (l4_of xf - (l3_of xf + hdr_len six)) = M"
    "bytes_at (A @ H' @ M @ T') (l3_of xf + hdr_len six) (l4_of xf - (l3_of xf + hdr_len six)) = M"
    using l k' by auto
  have "same_rest six pr (l3_of xf) (l4_of xf) (A @ H @ M @ T) (A @ H' @ M @ T')"
    using k' unfolding same_rest_def rd tk md by simp
  moreover have "cong16 (tcp_sum six (l3_of xf) (l4_of xf) (A @ H' @ M @ T')) (tcp_sum six (l3_of xf) (l4_of xf) (A @ H @ M @ T))"
    if "pr = IPPROTO_TCP"
  proof -
    have "src_at six + 2 * addr_len six = length H" using l by (simp add: nat_layout)
    then show ?thesis
      using k' that l rd(3,4) [of 0] unfolding tcp_sum_def by simp
  qed
  moreover have "ip_csum_ok (bytes_at (A @ H' @ M @ T') (l3_of xf) (l4_of xf - l3_of xf))"
    if "\<not> six" "(A @ H @ M @ T) ! l3_of xf \<noteq> 0" "ip_csum_ok (bytes_at (A @ H @ M @ T) (l3_of xf) (l4_of xf - l3_of xf))"
  proof -
    have b: "bytes_at (A @ H @ M @ T) (l3_of xf) (l4_of xf - l3_of xf) = H @ M"
      "bytes_at (A @ H' @ M @ T') (l3_of xf) (l4_of xf - l3_of xf) = H' @ M" using l k' by auto
    have ev: "even (length H)" "even (length H')" using l k' by (simp_all add: nat_layout)
    have "H ! 0 \<noteq> 0" using that(1,2) l by (simp add: nth_append nat_layout)
    then obtain b0 b1 h where "H' = b0 # b1 # h" "b0 \<noteq> 0"
    proof -
      have "take 10 H' = take 10 H" using k' \<open>\<not> six\<close> by (simp only: if_False simp_thms)
      then have "H' ! 0 = H ! 0" by (metis nth_take zero_less_numeral)
      moreover have "length H' = 20" using k' l \<open>\<not> six\<close> by (simp add: nat_layout)
      moreover from this have "H' = H' ! 0 # H' ! 1 # drop 2 H'"
        by (simp add: Cons_nth_drop_Suc numeral_2_eq_2)
      ultimately show ?thesis using \<open>H ! 0 \<noteq> 0\<close> that [of "H' ! 0" "H' ! 1" "drop 2 H'"] by metis
    qed
    then have "sum16 (H' @ M) \<noteq> 0" by (simp add: unat_eq_0)
    moreover have "cong16 (int (sum16 (H' @ M))) (int (sum16 (H @ M)))"
      using k' that(1) by (auto simp: sum16_append [OF ev(1)] sum16_append [OF ev(2)] intro: cong16_lin)
    then have "sum16 (H' @ M) mod 65535 = sum16 (H @ M) mod 65535"
      by (simp only: cong16_nat)
    ultimately show ?thesis using that(3) unfolding b ip_csum_ok_iff by simp
  qed
  ultimately show ?thesis by (simp add: nat_good_def)
qed

lemma op_packet:
  assumes op: "nat_op six pr f xf xf' p" and "l3_of xf + hdr_len six \<le> l4_of xf" and "l4_of xf + l4_hdr pr \<le> length p"
    and "bytes_at p (l3_of xf + src_at six) (addr_len six) = nat_addr_bytes six (l34_saddr (l34m xf))"
    and "bytes_at p (l3_of xf + dst_at six) (addr_len six) = nat_addr_bytes six (l34_daddr (l34m xf))"
    and "u16_at p (l4_of xf) = l34_source (l34m xf)" and "u16_at p (l4_of xf + 2) = l34_dest (l34m xf)"
  shows "\<exists>p'. f p = (p', xf') \<and> nat_good six pr (l3_of xf) (l4_of xf) p p' \<and>
    bytes_at p' (l3_of xf + src_at six) (addr_len six) = nat_addr_bytes six (l34_saddr (l34m xf')) \<and>
    bytes_at p' (l3_of xf + dst_at six) (addr_len six) = nat_addr_bytes six (l34_daddr (l34m xf')) \<and>
    u16_at p' (l4_of xf) = l34_source (l34m xf') \<and> u16_at p' (l4_of xf + 2) = l34_dest (l34m xf')"
proof -
  obtain A H M T where p: "p = A @ H @ M @ T" and v: "nat_view six pr xf A H M T"
    using view_exists [OF assms(2-7)] by blast
  then obtain H' T' where f: "f p = (A @ H' @ M @ T', xf')" and v': "nat_view six pr xf' A H' M T'"
    and k: "nat_keeps six pr H T H' T'"
    using op unfolding nat_op_def by blast
  have off: "l3_of xf' = l3_of xf" "l4_of xf' = l4_of xf"
    using view_len(1-3) [OF v] view_len(1-3) [OF v'] by simp_all
  show ?thesis
    using f view_good [OF v v' k, folded p] view_reads [OF v', unfolded off] by blast
qed

lemma u32_bytes: "i + 4 \<le> length p \<Longrightarrow> bytes_at p i 4 = le_bytes 4 w \<longleftrightarrow> u32_at p i = (w :: u32)"
proof -
  have "le_word (le_bytes 4 w) = w" by (rule le_word_bytes) simp
  then show "i + 4 \<le> length p \<Longrightarrow> bytes_at p i 4 = le_bytes 4 w \<longleftrightarrow> u32_at p i = w" by (metis le4_at)
qed

lemma xaddr_at_iff: "i + 16 \<le> length p \<Longrightarrow> bytes_at p i 16 = xaddr_bytes a \<longleftrightarrow> xaddr_at p i = a"
  by (metis xaddr_bytes_at xaddr_bytes_inj)

lemma op_packet4:
  assumes "nat_op False pr f xf xf' p" and "l3_of xf + 20 \<le> l4_of xf" and "l4_of xf + l4_hdr pr \<le> length p"
    and "tuple4 p (l3_of xf) (l4_of xf) = meta4 xf"
  shows "\<exists>p'. f p = (p', xf') \<and> tuple4 p' (l3_of xf) (l4_of xf) = meta4 xf' \<and>
    nat_good False pr (l3_of xf) (l4_of xf) p p'"
proof -
  have "length p' = length p" if "nat_good False pr (l3_of xf) (l4_of xf) p p'" for p'
    using that by (simp add: nat_good_def same_rest_def)
  then show ?thesis
    using op_packet [OF assms(1)] assms(2-4)
    by (fastforce simp: nat_layout tuple4_def meta4_def u32_bytes)
qed

lemma op_packet6:
  assumes "nat_op True pr f xf xf' p" and "l3_of xf + 40 \<le> l4_of xf" and "l4_of xf + l4_hdr pr \<le> length p"
    and "tuple6 p (l3_of xf) (l4_of xf) = meta6 xf"
  shows "\<exists>p'. f p = (p', xf') \<and> tuple6 p' (l3_of xf) (l4_of xf) = meta6 xf' \<and>
    nat_good True pr (l3_of xf) (l4_of xf) p p'"
proof -
  have "length p' = length p" if "nat_good True pr (l3_of xf) (l4_of xf) p p'" for p'
    using that by (simp add: nat_good_def same_rest_def)
  then show ?thesis
    using op_packet [OF assms(1)] assms(2-4)
    by (fastforce simp: nat_layout tuple6_def meta6_def xaddr_at_iff)
qed

text \<open>How a translation ends: with the checksum program for SCTP.\<close>

definition nat_fin :: "'e nat_env_scheme \<Rightarrow> u8 \<Rightarrow> packet \<Rightarrow> xfi \<Rightarrow> int nat_out" where
  "nat_fin e pr p xf = (if pr = IPPROTO_SCTP then csum_tcall e p xf else Ret 0 p xf)"

lemma nat_fin_simps [simp]:
  "nat_fin e IPPROTO_TCP p xf = Ret 0 p xf" "nat_fin e IPPROTO_UDP p xf = Ret 0 p xf"
  "nat_fin e IPPROTO_SCTP p xf = csum_tcall e p xf"
  by (simp_all add: nat_fin_def proto_defs)

lemma proto_neq:
  "IPPROTO_UDP \<noteq> IPPROTO_TCP" "IPPROTO_SCTP \<noteq> IPPROTO_TCP" "IPPROTO_SCTP \<noteq> IPPROTO_UDP"
  "l4_hdr IPPROTO_TCP = 20" "l4_hdr IPPROTO_UDP = 8" "l4_hdr IPPROTO_SCTP = 12"
  by (simp_all add: nat_consts)

lemma case_prod_assoc: "case_prod g (case_prod f x) = case_prod (\<lambda>a b. case_prod g (f a b)) x"
  by (cases x) simp

definition dnat4_xf :: "u32 \<Rightarrow> u16 \<Rightarrow> xfi \<Rightarrow> xfi" where
  "dnat4_xf a v xf = set_dest v
     (if a = 0 then set_daddr4 (addr4 (l34_saddr (l34m xf))) (set_saddr4 (addr4 (l34_daddr (l34m xf))) xf)
      else set_daddr4 a (if addr4 (nm_nrip (nm xf)) \<noteq> 0 then set_saddr4 (addr4 (nm_nrip (nm xf))) xf else xf))"

lemma meta_dnat4: "meta4 (dnat4_xf a v xf) = dnat_tuple 0 (addr4 (nm_nrip (nm xf))) a v (meta4 xf)"
  by (simp add: dnat4_xf_def meta4_def set_saddr4_def set_daddr4_def)

lemma dnat4_steps:
  assumes e: "nat_env_ok e" and "nw_proto (l34m xf) = pr" and "pr \<in> {IPPROTO_TCP, IPPROTO_UDP, IPPROTO_SCTP}"
    and "l4_of xf + l4_hdr pr \<le> length p"
  shows "\<exists>f. dp_do_dnat e p xf a v = (case f p of (p, xf) \<Rightarrow> nat_fin e pr p xf) \<and> nat_op False pr f xf (dnat4_xf a v xf) p"
proof -
  consider "pr = IPPROTO_TCP" | "pr = IPPROTO_UDP" | "pr = IPPROTO_SCTP" using assms(3) by blast
  then show ?thesis
  proof cases
    case 1
    show ?thesis unfolding dnat4_xf_def 1
      by (intro exI conjI, rule_tac [2] nat_setters.dnat_all [OF tcp4_setters [OF e]])
        (use 1 assms(2,4) in \<open>simp add: dp_do_dnat_def proto_neq case_prod_assoc Let_def\<close>)
  next
    case 2
    show ?thesis unfolding dnat4_xf_def 2
      by (intro exI conjI, rule_tac [2] nat_setters.dnat_all [OF udp4_setters [OF e]])
        (use 2 assms(2,4) in \<open>simp add: dp_do_dnat_def proto_neq case_prod_assoc Let_def\<close>)
  next
    case 3
    show ?thesis unfolding dnat4_xf_def 3
      by (intro exI conjI, rule_tac [2] nat_setters.dnat_all [OF sctp4_setters [OF e]])
        (use 3 assms(2,4) in \<open>simp add: dp_do_dnat_def proto_neq case_prod_assoc Let_def\<close>)
  qed
qed

definition snat4_xf :: "u32 \<Rightarrow> u16 \<Rightarrow> xfi \<Rightarrow> xfi" where
  "snat4_xf a v xf = set_source v
     (if a = 0 then set_daddr4 (addr4 (l34_saddr (l34m xf))) (set_saddr4 (addr4 (l34_daddr (l34m xf))) xf)
      else if addr4 (nm_nrip (nm xf)) \<noteq> 0 then set_daddr4 (addr4 (nm_nrip (nm xf))) (set_saddr4 a xf) else set_saddr4 a xf)"

lemma meta_snat4: "meta4 (snat4_xf a v xf) = snat_tuple 0 (addr4 (nm_nrip (nm xf))) a v (meta4 xf)"
  by (simp add: snat4_xf_def meta4_def set_saddr4_def set_daddr4_def)

lemma snat4_inner:
  assumes "nat_setters False pr s_src s_dst s_sport s_dport set_saddr4 set_daddr4"
  shows "nat_op False pr (\<lambda>p. case (if a = 0 then (case s_src p xf (addr4 (l34_daddr (l34m xf))) of (p, xf') \<Rightarrow> s_dst p xf' (addr4 (l34_saddr (l34m xf))))
       else case s_src p xf a of (p, xf') \<Rightarrow> if addr4 (nm_nrip (nm xf)) \<noteq> 0 then s_dst p xf' (addr4 (nm_nrip (nm xf))) else (p, xf')) of
         (p, xf) \<Rightarrow> s_sport p xf v) xf (snat4_xf a v xf) p"
  unfolding snat4_xf_def by (rule nat_setters.snat_all [OF assms])

text \<open>The second address is read from the metadata as they are then; the address setters leave it alone.\<close>

lemma nm_setters [simp]:
  "dp_set_tcp_src_ip e p xf a = (q, y) \<Longrightarrow> nm y = nm xf" "dp_set_udp_src_ip e p xf a = (q, y) \<Longrightarrow> nm y = nm xf"
  "dp_set_sctp_src_ip e p xf a = (q, y) \<Longrightarrow> nm y = nm xf"
  "dp_set_tcp_src_ip6 e p xf b = (q, y) \<Longrightarrow> nm y = nm xf" "dp_set_udp_src_ip6 e p xf b = (q, y) \<Longrightarrow> nm y = nm xf"
  "dp_set_sctp_src_ip6 e p xf b = (q, y) \<Longrightarrow> nm y = nm xf"
  by (auto simp: dp_set_tcp_src_ip_def dp_set_udp_src_ip_def dp_set_sctp_src_ip_def dp_set_tcp_src_ip6_def
      dp_set_udp_src_ip6_def dp_set_sctp_src_ip6_def set_saddr4_def Let_def split: prod.splits)

lemma snat4_steps:
  assumes e: "nat_env_ok e" and "nw_proto (l34m xf) = pr" and "pr \<in> {IPPROTO_TCP, IPPROTO_UDP, IPPROTO_SCTP}"
    and "l4_of xf + l4_hdr pr \<le> length p"
  shows "\<exists>f. dp_do_snat e p xf a v = (case f p of (p, xf) \<Rightarrow> nat_fin e pr p xf) \<and> nat_op False pr f xf (snat4_xf a v xf) p"
proof -
  consider "pr = IPPROTO_TCP" | "pr = IPPROTO_UDP" | "pr = IPPROTO_SCTP" using assms(3) by blast
  then show ?thesis
  proof cases
    case 1
    show ?thesis unfolding 1
      by (intro exI conjI, rule_tac [2] snat4_inner [OF tcp4_setters [OF e]])
        (use 1 assms(2,4) in \<open>auto simp: dp_do_snat_def proto_neq case_prod_assoc Let_def split: prod.split\<close>)
  next
    case 2
    show ?thesis unfolding 2
      by (intro exI conjI, rule_tac [2] snat4_inner [OF udp4_setters [OF e]])
        (use 2 assms(2,4) in \<open>auto simp: dp_do_snat_def proto_neq case_prod_assoc Let_def split: prod.split\<close>)
  next
    case 3
    show ?thesis unfolding 3
      by (intro exI conjI, rule_tac [2] snat4_inner [OF sctp4_setters [OF e]])
        (use 3 assms(2,4) in \<open>auto simp: dp_do_snat_def proto_neq case_prod_assoc Let_def split: prod.split\<close>)
  qed
qed

definition dnat6_xf :: "xaddr \<Rightarrow> u16 \<Rightarrow> xfi \<Rightarrow> xfi" where
  "dnat6_xf a v xf = (let r = nm_nrip (nm xf) in set_dest v
     (if DP_XADDR_ISZR a then
        (let s = l34_saddr (l34m xf); xf = xf\<lparr>nm := (nm xf)\<lparr>nm_nxip := s\<rparr>\<rparr> in set_daddr s (set_saddr (l34_daddr (l34m xf)) xf))
      else set_daddr a (if \<not> DP_XADDR_ISZR r then set_saddr r xf else xf)))"

definition snat6_xf :: "xaddr \<Rightarrow> u16 \<Rightarrow> xfi \<Rightarrow> xfi" where
  "snat6_xf a v xf = (let r = nm_nrip (nm xf) in set_source v
     (if DP_XADDR_ISZR a then
        (let s = l34_saddr (l34m xf); xf = xf\<lparr>nm := (nm xf)\<lparr>nm_nxip := s\<rparr>\<rparr> in set_daddr s (set_saddr (l34_daddr (l34m xf)) xf))
      else if \<not> DP_XADDR_ISZR r then set_daddr r (set_saddr a xf) else set_saddr a xf))"

lemma meta_nat6:
  "meta6 (dnat6_xf a v xf) = dnat_tuple XADDR0 (nm_nrip (nm xf)) a v (meta6 xf)"
  "meta6 (snat6_xf a v xf) = snat_tuple XADDR0 (nm_nrip (nm xf)) a v (meta6 xf)"
  by (simp_all add: dnat6_xf_def snat6_xf_def meta6_def Let_def DP_XADDR_ISZR_def XADDR0_def)

lemma op_nm: "nat_op six pr f (xf\<lparr>nm := n\<rparr>) xf' p \<Longrightarrow> nat_op six pr f xf xf' p"
  by (simp add: nat_op_def nat_view_def)

lemma nat6_inner:
  assumes "nat_setters True pr s_src s_dst s_sport s_dport set_saddr set_daddr"
    and xs_def: "xs = xf\<lparr>nm := (nm xf)\<lparr>nm_nxip := l34_saddr (l34m xf)\<rparr>\<rparr>"
  shows "nat_op True pr (\<lambda>p. case (if DP_XADDR_ISZR a
       then (case s_src p xs (l34_daddr (l34m xf)) of (p, xf') \<Rightarrow> s_dst p xf' (l34_saddr (l34m xf)))
       else case (if \<not> DP_XADDR_ISZR (nm_nrip (nm xf)) then s_src p xf (nm_nrip (nm xf)) else (p, xf)) of (p, xf) \<Rightarrow> s_dst p xf a) of
         (p, xf) \<Rightarrow> s_dport p xf v) xf (dnat6_xf a v xf) p"
    and "nat_op True pr (\<lambda>p. case (if DP_XADDR_ISZR a
       then (case s_src p xs (l34_daddr (l34m xf)) of (p, xf') \<Rightarrow> s_dst p xf' (l34_saddr (l34m xf)))
       else case s_src p xf a of (p, xf') \<Rightarrow> if \<not> DP_XADDR_ISZR (nm_nrip (nm xf)) then s_dst p xf' (nm_nrip (nm xf)) else (p, xf')) of
         (p, xf) \<Rightarrow> s_sport p xf v) xf (snat6_xf a v xf) p"
proof -
  note d = nat_setters.dnat_all [OF assms(1)] and s = nat_setters.snat_all [OF assms(1)]
  let ?r = "nm_nrip (nm xf)" and ?s = "l34_saddr (l34m xf)" and ?d = "l34_daddr (l34m xf)"
  show "nat_op True pr (\<lambda>p. case (if DP_XADDR_ISZR a
       then (case s_src p xs ?d of (p, xf') \<Rightarrow> s_dst p xf' ?s)
       else case (if \<not> DP_XADDR_ISZR ?r then s_src p xf ?r else (p, xf)) of (p, xf) \<Rightarrow> s_dst p xf a) of
         (p, xf) \<Rightarrow> s_dport p xf v) xf (dnat6_xf a v xf) p"
    using d [where z = True and xf = xs and d = ?d and s = ?s and p = p]
      d [where z = False and xf = xf and nr = "\<not> DP_XADDR_ISZR ?r" and r = ?r and a = a and p = p]
    by (cases "DP_XADDR_ISZR a") (auto simp: dnat6_xf_def Let_def xs_def intro: op_nm)
  show "nat_op True pr (\<lambda>p. case (if DP_XADDR_ISZR a
       then (case s_src p xs ?d of (p, xf') \<Rightarrow> s_dst p xf' ?s)
       else case s_src p xf a of (p, xf') \<Rightarrow> if \<not> DP_XADDR_ISZR ?r then s_dst p xf' ?r else (p, xf')) of
         (p, xf) \<Rightarrow> s_sport p xf v) xf (snat6_xf a v xf) p"
    using s [where z = True and xf = xs and d = ?d and s = ?s and p = p]
      s [where z = False and xf = xf and nr = "\<not> DP_XADDR_ISZR ?r" and r = ?r and a = a and p = p]
    by (cases "DP_XADDR_ISZR a") (auto simp: snat6_xf_def Let_def xs_def intro: op_nm)
qed

lemma nat6_steps:
  assumes e: "nat_env_ok e" and "nw_proto (l34m xf) = pr" and "pr \<in> {IPPROTO_TCP, IPPROTO_UDP, IPPROTO_SCTP}"
    and "l4_of xf + l4_hdr pr \<le> length p"
  shows "\<exists>f. dp_do_dnat6 e p xf a v = (case f p of (p, xf) \<Rightarrow> nat_fin e pr p xf) \<and> nat_op True pr f xf (dnat6_xf a v xf) p"
    and "\<exists>f. dp_do_snat6 e p xf a v = (case f p of (p, xf) \<Rightarrow> nat_fin e pr p xf) \<and> nat_op True pr f xf (snat6_xf a v xf) p"
proof -
  consider "pr = IPPROTO_TCP" | "pr = IPPROTO_UDP" | "pr = IPPROTO_SCTP" using assms(3) by blast
  note cs = this
  from cs show "\<exists>f. dp_do_dnat6 e p xf a v = (case f p of (p, xf) \<Rightarrow> nat_fin e pr p xf) \<and> nat_op True pr f xf (dnat6_xf a v xf) p"
  proof cases
    case 1
    show ?thesis unfolding 1
      by (intro exI conjI, rule_tac [2] nat6_inner(1) [OF tcp6_setters [OF e] refl])
        (use 1 assms(2,4) in \<open>auto simp: dp_do_dnat6_def proto_neq case_prod_assoc Let_def split: prod.split\<close>)
  next
    case 2
    show ?thesis unfolding 2
      by (intro exI conjI, rule_tac [2] nat6_inner(1) [OF udp6_setters [OF e] refl])
        (use 2 assms(2,4) in \<open>auto simp: dp_do_dnat6_def proto_neq case_prod_assoc Let_def split: prod.split\<close>)
  next
    case 3
    show ?thesis unfolding 3
      by (intro exI conjI, rule_tac [2] nat6_inner(1) [OF sctp6_setters [OF e] refl])
        (use 3 assms(2,4) in \<open>auto simp: dp_do_dnat6_def proto_neq case_prod_assoc Let_def split: prod.split\<close>)
  qed
  from cs show "\<exists>f. dp_do_snat6 e p xf a v = (case f p of (p, xf) \<Rightarrow> nat_fin e pr p xf) \<and> nat_op True pr f xf (snat6_xf a v xf) p"
  proof cases
    case 1
    show ?thesis unfolding 1
      by (intro exI conjI, rule_tac [2] nat6_inner(2) [OF tcp6_setters [OF e] refl])
        (use 1 assms(2,4) in \<open>auto simp: dp_do_snat6_def proto_neq case_prod_assoc Let_def split: prod.split\<close>)
  next
    case 2
    show ?thesis unfolding 2
      by (intro exI conjI, rule_tac [2] nat6_inner(2) [OF udp6_setters [OF e] refl])
        (use 2 assms(2,4) in \<open>auto simp: dp_do_snat6_def proto_neq case_prod_assoc Let_def split: prod.split\<close>)
  next
    case 3
    show ?thesis unfolding 3
      by (intro exI conjI, rule_tac [2] nat6_inner(2) [OF sctp6_setters [OF e] refl])
        (use 3 assms(2,4) in \<open>auto simp: dp_do_snat6_def proto_neq case_prod_assoc Let_def split: prod.split\<close>)
  qed
qed

section \<open>The translation as a whole\<close>

text \<open>A packet that can be translated: a protocol with ports, the headers inside the packet, and metadata that describe it.\<close>

definition nat_ready4 :: "packet \<Rightarrow> xfi \<Rightarrow> bool" where
  "nat_ready4 p xf \<longleftrightarrow> nw_proto (l34m xf) \<in> {IPPROTO_TCP, IPPROTO_UDP, IPPROTO_SCTP} \<and> l3_of xf + 20 \<le> l4_of xf \<and>
     l4_of xf + l4_hdr (nw_proto (l34m xf)) \<le> length p \<and> tuple4 p (l3_of xf) (l4_of xf) = meta4 xf"

definition nat_ready6 :: "packet \<Rightarrow> xfi \<Rightarrow> bool" where
  "nat_ready6 p xf \<longleftrightarrow> nw_proto (l34m xf) \<in> {IPPROTO_TCP, IPPROTO_UDP, IPPROTO_SCTP} \<and> l3_of xf + 40 \<le> l4_of xf \<and>
     l4_of xf + l4_hdr (nw_proto (l34m xf)) \<le> length p \<and> tuple6 p (l3_of xf) (l4_of xf) = meta6 xf"

lemma nat4_run:
  assumes e: "nat_env_ok e" and r: "nat_ready4 p xf"
  shows "\<exists>p'. dp_do_dnat e p xf a v = nat_fin e (nw_proto (l34m xf)) p' (dnat4_xf a v xf) \<and>
      tuple4 p' (l3_of xf) (l4_of xf) = dnat_tuple 0 (addr4 (nm_nrip (nm xf))) a v (tuple4 p (l3_of xf) (l4_of xf)) \<and>
      nat_good False (nw_proto (l34m xf)) (l3_of xf) (l4_of xf) p p'"
    and "\<exists>p'. dp_do_snat e p xf a v = nat_fin e (nw_proto (l34m xf)) p' (snat4_xf a v xf) \<and>
      tuple4 p' (l3_of xf) (l4_of xf) = snat_tuple 0 (addr4 (nm_nrip (nm xf))) a v (tuple4 p (l3_of xf) (l4_of xf)) \<and>
      nat_good False (nw_proto (l34m xf)) (l3_of xf) (l4_of xf) p p'"
proof -
  note r' = r [unfolded nat_ready4_def]
  obtain f g where f: "dp_do_dnat e p xf a v = (case f p of (p, y) \<Rightarrow> nat_fin e (nw_proto (l34m xf)) p y)"
      "nat_op False (nw_proto (l34m xf)) f xf (dnat4_xf a v xf) p"
    and g: "dp_do_snat e p xf a v = (case g p of (p, y) \<Rightarrow> nat_fin e (nw_proto (l34m xf)) p y)"
      "nat_op False (nw_proto (l34m xf)) g xf (snat4_xf a v xf) p"
    using dnat4_steps [OF e refl, of xf p a v] snat4_steps [OF e refl, of xf p a v] r' by blast
  show "\<exists>p'. dp_do_dnat e p xf a v = nat_fin e (nw_proto (l34m xf)) p' (dnat4_xf a v xf) \<and>
      tuple4 p' (l3_of xf) (l4_of xf) = dnat_tuple 0 (addr4 (nm_nrip (nm xf))) a v (tuple4 p (l3_of xf) (l4_of xf)) \<and>
      nat_good False (nw_proto (l34m xf)) (l3_of xf) (l4_of xf) p p'"
    using op_packet4 [OF f(2)] r' by (auto simp: f(1) meta_dnat4)
  show "\<exists>p'. dp_do_snat e p xf a v = nat_fin e (nw_proto (l34m xf)) p' (snat4_xf a v xf) \<and>
      tuple4 p' (l3_of xf) (l4_of xf) = snat_tuple 0 (addr4 (nm_nrip (nm xf))) a v (tuple4 p (l3_of xf) (l4_of xf)) \<and>
      nat_good False (nw_proto (l34m xf)) (l3_of xf) (l4_of xf) p p'"
    using op_packet4 [OF g(2)] r' by (auto simp: g(1) meta_snat4)
qed

lemma nat6_run:
  assumes e: "nat_env_ok e" and r: "nat_ready6 p xf"
  shows "\<exists>p'. dp_do_dnat6 e p xf a v = nat_fin e (nw_proto (l34m xf)) p' (dnat6_xf a v xf) \<and>
      tuple6 p' (l3_of xf) (l4_of xf) = dnat_tuple XADDR0 (nm_nrip (nm xf)) a v (tuple6 p (l3_of xf) (l4_of xf)) \<and>
      nat_good True (nw_proto (l34m xf)) (l3_of xf) (l4_of xf) p p'"
    and "\<exists>p'. dp_do_snat6 e p xf a v = nat_fin e (nw_proto (l34m xf)) p' (snat6_xf a v xf) \<and>
      tuple6 p' (l3_of xf) (l4_of xf) = snat_tuple XADDR0 (nm_nrip (nm xf)) a v (tuple6 p (l3_of xf) (l4_of xf)) \<and>
      nat_good True (nw_proto (l34m xf)) (l3_of xf) (l4_of xf) p p'"
proof -
  note r' = r [unfolded nat_ready6_def]
  obtain f g where f: "dp_do_dnat6 e p xf a v = (case f p of (p, y) \<Rightarrow> nat_fin e (nw_proto (l34m xf)) p y)"
      "nat_op True (nw_proto (l34m xf)) f xf (dnat6_xf a v xf) p"
    and g: "dp_do_snat6 e p xf a v = (case g p of (p, y) \<Rightarrow> nat_fin e (nw_proto (l34m xf)) p y)"
      "nat_op True (nw_proto (l34m xf)) g xf (snat6_xf a v xf) p"
    using nat6_steps [OF e refl, of xf p a v] r' by blast
  show "\<exists>p'. dp_do_dnat6 e p xf a v = nat_fin e (nw_proto (l34m xf)) p' (dnat6_xf a v xf) \<and>
      tuple6 p' (l3_of xf) (l4_of xf) = dnat_tuple XADDR0 (nm_nrip (nm xf)) a v (tuple6 p (l3_of xf) (l4_of xf)) \<and>
      nat_good True (nw_proto (l34m xf)) (l3_of xf) (l4_of xf) p p'"
    using op_packet6 [OF f(2)] r' by (auto simp: f(1) meta_nat6)
  show "\<exists>p'. dp_do_snat6 e p xf a v = nat_fin e (nw_proto (l34m xf)) p' (snat6_xf a v xf) \<and>
      tuple6 p' (l3_of xf) (l4_of xf) = snat_tuple XADDR0 (nm_nrip (nm xf)) a v (tuple6 p (l3_of xf) (l4_of xf)) \<and>
      nat_good True (nw_proto (l34m xf)) (l3_of xf) (l4_of xf) p p'"
    using op_packet6 [OF g(2)] r' by (auto simp: g(1) meta_nat6)
qed

lemma or_drop_fin [simp]: "or_drop (nat_fin e pr p xf) = nat_fin e pr p xf"
  by (simp add: nat_fin_def csum_tcall_def Let_def)

end
