(* ===== verification/Loxi_Nat_Path.thy ===== *)
theory Loxi_Nat_Path
  imports Loxi_Rewrite_Laws Loxi_Ct_Props
begin

text \<open>
  The translated connection: the packets \<open>dp_do_dnat\<close>, \<open>dp_do_snat\<close> and their IPv6 variants send, both directions of a
  connection with the entries of the tracker, the checksum of a new IPv4 header, and the translation from IPv6 to IPv4.
\<close>

text \<open>C14: Translation of an IPv4 packet (TCP, UDP, SCTP): after \<open>dp_do_dnat\<close> or \<open>dp_do_snat\<close> the packet carries exactly the
  addresses and ports that the translation of the connection asks for (the swapped addresses for a hairpin), the metadata
  agree with it, everything but addresses, ports and checksums is as it was, a valid IP header checksum stays valid, and
  the sum over TCP's pseudo header and segment does not change.  An SCTP packet goes on in the checksum program.\<close>

theorem nat4_translates:
  assumes "nat_env_ok e" and "nat_ready4 p xf"
  shows "(\<exists>p' xf'. dp_do_dnat e p xf a v = nat_fin e (nw_proto (l34m xf)) p' xf' \<and> meta4 xf' = tuple4 p' (l3_of xf) (l4_of xf) \<and>
      tuple4 p' (l3_of xf) (l4_of xf) = dnat_tuple 0 (addr4 (nm_nrip (nm xf))) a v (tuple4 p (l3_of xf) (l4_of xf)) \<and>
      nat_good False (nw_proto (l34m xf)) (l3_of xf) (l4_of xf) p p') \<and>
    (\<exists>p' xf'. dp_do_snat e p xf a v = nat_fin e (nw_proto (l34m xf)) p' xf' \<and> meta4 xf' = tuple4 p' (l3_of xf) (l4_of xf) \<and>
      tuple4 p' (l3_of xf) (l4_of xf) = snat_tuple 0 (addr4 (nm_nrip (nm xf))) a v (tuple4 p (l3_of xf) (l4_of xf)) \<and>
      nat_good False (nw_proto (l34m xf)) (l3_of xf) (l4_of xf) p p')"
proof -
  have "tuple4 p (l3_of xf) (l4_of xf) = meta4 xf" using assms(2) by (simp add: nat_ready4_def)
  then show ?thesis
    using nat4_run [OF assms, of a v] meta_dnat4 [of a v xf] meta_snat4 [of a v xf] by metis
qed

text \<open>C32: Translation of an IPv6 packet (TCP, UDP, SCTP): after \<open>dp_do_dnat6\<close> or \<open>dp_do_snat6\<close> the packet carries the addresses and
  ports that the translation asks for, the metadata agree with it, everything but addresses, ports and checksums is as it
  was, and the sum over TCP's pseudo header and segment does not change.\<close>

theorem nat6_translates:
  assumes "nat_env_ok e" and "nat_ready6 p xf"
  shows "(\<exists>p' xf'. dp_do_dnat6 e p xf a v = nat_fin e (nw_proto (l34m xf)) p' xf' \<and> meta6 xf' = tuple6 p' (l3_of xf) (l4_of xf) \<and>
      tuple6 p' (l3_of xf) (l4_of xf) = dnat_tuple XADDR0 (nm_nrip (nm xf)) a v (tuple6 p (l3_of xf) (l4_of xf)) \<and>
      nat_good True (nw_proto (l34m xf)) (l3_of xf) (l4_of xf) p p') \<and>
    (\<exists>p' xf'. dp_do_snat6 e p xf a v = nat_fin e (nw_proto (l34m xf)) p' xf' \<and> meta6 xf' = tuple6 p' (l3_of xf) (l4_of xf) \<and>
      tuple6 p' (l3_of xf) (l4_of xf) = snat_tuple XADDR0 (nm_nrip (nm xf)) a v (tuple6 p (l3_of xf) (l4_of xf)) \<and>
      nat_good True (nw_proto (l34m xf)) (l3_of xf) (l4_of xf) p p')"
proof -
  have "tuple6 p (l3_of xf) (l4_of xf) = meta6 xf" using assms(2) by (simp add: nat_ready6_def)
  then show ?thesis
    using nat6_run [OF assms, of a v] meta_nat6 [of a v xf] by metis
qed

section \<open>Both directions of a connection\<close>

fun swap_tuple :: "'a \<times> 'a \<times> u16 \<times> u16 \<Rightarrow> 'a \<times> 'a \<times> u16 \<times> u16" where
  "swap_tuple (s, d, sp, dp) = (d, s, dp, sp)"

text \<open>An IPv4 address in a field for both versions.\<close>

definition is4 :: "xaddr \<Rightarrow> bool" where
  "is4 a \<longleftrightarrow> snd a = (0, 0, 0)"

lemma is4_zero: "is4 a \<Longrightarrow> a = XADDR0 \<longleftrightarrow> addr4 a = 0" "is4 a \<Longrightarrow> DP_XADDR_ISZR a \<longleftrightarrow> addr4 a = 0"
  by (cases a; simp add: is4_def XADDR0_def DP_XADDR_ISZR_def)+

text \<open>The tracked connection of an IPv4 packet that is to be translated.\<close>

definition nat_conn :: "xfi \<Rightarrow> bool" where
  "nat_conn xf \<longleftrightarrow> reply_ok xf \<and> \<not> is_v6 xf \<and> nm_nv6 (nm xf) = 0 \<and> is4 (l34_saddr (l34m xf)) \<and> is4 (l34_daddr (l34m xf)) \<and>
     is4 (nm_nxip (nm xf)) \<and> is4 (nm_nrip (nm xf))"

lemma unparse4:
  assumes "nat_env_ok e" and "nat_ready4 p xf" and "\<not> is_v6 xf" and "nm_nv6 (nm xf) = 0" and "nm_dsr (nm xf) = 0"
    and "pm_nf (pm xf) \<in> {LLB_NAT_DST, LLB_NAT_SRC}"
  shows "\<exists>p' xf'. unparse_nat e p xf = nat_fin e (nw_proto (l34m xf)) p' xf' \<and>
    tuple4 p' (l3_of xf) (l4_of xf) = (if pm_nf (pm xf) = LLB_NAT_SRC then snat_tuple else dnat_tuple)
      0 (addr4 (nm_nrip (nm xf))) (addr4 (nm_nxip (nm xf))) (nm_nxport (nm xf)) (tuple4 p (l3_of xf) (l4_of xf)) \<and>
    nat_good False (nw_proto (l34m xf)) (l3_of xf) (l4_of xf) p p'"
proof (cases "pm_nf (pm xf) = LLB_NAT_SRC")
  case True
  then have "unparse_nat e p xf = or_drop (dp_do_snat e p xf (addr4 (nm_nxip (nm xf))) (nm_nxport (nm xf)))"
    using assms(3-5) by (simp add: unparse_nat_def nat_flag_defs)
  with True show ?thesis
    by (rule_tac exE [OF nat4_run(2) [OF assms(1,2), of "addr4 (nm_nxip (nm xf))" "nm_nxport (nm xf)"]],
        rule_tac x = x in exI, rule_tac x = "snat4_xf (addr4 (nm_nxip (nm xf))) (nm_nxport (nm xf)) xf" in exI) simp
next
  case False
  then have "unparse_nat e p xf = or_drop (dp_do_dnat e p xf (addr4 (nm_nxip (nm xf))) (nm_nxport (nm xf)))"
    using assms(3-6) by (simp add: unparse_nat_def nat_flag_defs)
  with False show ?thesis
    by (rule_tac exE [OF nat4_run(1) [OF assms(1,2), of "addr4 (nm_nxip (nm xf))" "nm_nxport (nm xf)"]],
        rule_tac x = x in exI, rule_tac x = "dnat4_xf (addr4 (nm_nxip (nm xf))) (nm_nxport (nm xf)) xf" in exI) simp
qed

text \<open>What the entries of the tracker say, for a connection translated to another destination or source.\<close>

lemma reply_entry:
  assumes "nat_conn xf" and "nm_nxport (nm xf) \<noteq> 0" and "nw_proto (l34m xf) \<noteq> IPPROTO_ICMP"
    and i: "dp_ct_proto_xfk_init (ct_key xf) (ct_xi xf x0) (ct_xxi0 xx0) = (xkey, x, xx)"
    and en: "en = new_entry xf 0 ci xx t" and "ct_key reply = xkey" and "\<not> is_v6 reply"
  defines "xr \<equiv> reply_xf reply en"
  shows "pm_nf (pm xr) = (if pm_nf (pm xf) = LLB_NAT_SRC then LLB_NAT_DST else LLB_NAT_SRC)" (is ?nf)
    and "nm_nv6 (nm xr) = 0 \<and> nm_dsr (nm xr) = 0" (is ?z)
    and "meta4 xr = swap_tuple ((if pm_nf (pm xf) = LLB_NAT_SRC then snat_tuple else dnat_tuple)
      0 (addr4 (nm_nrip (nm xf))) (addr4 (nm_nxip (nm xf))) (nm_nxport (nm xf)) (meta4 xf))" (is ?m)
    and "(if pm_nf (pm xf) = LLB_NAT_SRC then dnat_tuple else snat_tuple)
      0 (addr4 (nm_nrip (nm xr))) (addr4 (nm_nxip (nm xr))) (nm_nxport (nm xr)) (meta4 xr) = swap_tuple (meta4 xf)" (is ?turned)
proof -
  have c: "nm_dsr (nm xf) = 0" "l34_daddr (l34m xf) \<noteq> XADDR0" "l34_saddr (l34m xf) \<noteq> XADDR0"
    "pm_nf (pm xf) \<in> {LLB_NAT_DST, LLB_NAT_SRC}" "is4 (l34_saddr (l34m xf))" "is4 (l34_daddr (l34m xf))"
    "is4 (nm_nxip (nm xf))" "is4 (nm_nrip (nm xf))" "nm_nv6 (nm xf) = 0" "\<not> is_v6 xf"
    using assms(1) by (simp_all add: nat_conn_def reply_ok_def)
  have nz: "addr4 (l34_daddr (l34m xf)) \<noteq> 0" "addr4 (l34_saddr (l34m xf)) \<noteq> 0" using c is4_zero by simp_all
  have xk: "xkey = fst (dp_ct_proto_xfk_init (ct_key xf) (ct_xi xf x0) (ct_xxi0 xx0))"
    "xx = snd (snd (dp_ct_proto_xfk_init (ct_key xf) (ct_xi xf x0) (ct_xxi0 xx0)))" using i by simp_all
  have d: "dsr (ct_xi xf x0) = 0" by (simp add: ct_xi_fields c)
  note key = ct_key_def [of xf] and z4 = is4_zero(2) [OF c(8)] is4_zero(1) [OF c(7)]
  have mr: "l34m xr = l34m reply" by (simp add: xr_def reply_xf_def dp_pipe_set_nat_def)
  have kr: "l34_saddr (l34m reply) = saddr xkey" "l34_daddr (l34m reply) = daddr xkey"
    "l34_source (l34m reply) = ct_sport xkey" "l34_dest (l34m reply) = ct_dport xkey"
    using assms(6) by (auto simp: ct_key_def)
  have r: "nm_nxip (nm xr) = nat_xip xx" "nm_nrip (nm xr) = nat_rip xx" "nm_nxport (nm xr) = nat_xport xx"
    "nm_nv6 (nm xr) = 0" "nm_dsr (nm xr) = 0"
    "pm_nf (pm xr) = (if nat_flags xx AND (LLB_NAT_DST OR LLB_NAT_HDST) \<noteq> 0 then LLB_NAT_DST else LLB_NAT_SRC)"
    if "nat_flags xx \<noteq> 0"
    using reply_fields [OF that, of reply xf 0 ci t] c by (simp_all add: xr_def en)
  have z0: "addr4 XADDR0 = 0" by (simp add: XADDR0_def)
  note rules = meta4_def mr kr xfk_back xfk_fst key ct_xi_fields ct_xxi0_def nat_flag_defs z4 assms(2,3) nz z0
  consider "pm_nf (pm xf) = LLB_NAT_DST" "nm_nxip (nm xf) \<noteq> XADDR0" | "pm_nf (pm xf) = LLB_NAT_SRC" "nm_nxip (nm xf) \<noteq> XADDR0"
    | "pm_nf (pm xf) = LLB_NAT_DST" "nm_nxip (nm xf) = XADDR0" | "pm_nf (pm xf) = LLB_NAT_SRC" "nm_nxip (nm xf) = XADDR0"
    using c by auto
  then have "?nf \<and> ?z \<and> ?m \<and> ?turned"
  proof cases
    case 1
    have fl: "nat_flags (ct_xi xf x0) = LLB_NAT_DST" by (simp add: ct_xi_fields 1)
    note k = xk [unfolded xfk_kinds(1) [OF d fl]]
    have n: "nat_flags xx \<noteq> 0" by (simp add: k(2) xfk_back nat_flag_defs)
    show ?thesis using 1 by (simp add: r [OF n] k(2)) (simp add: k(1) rules)
  next
    case 2
    have fl: "nat_flags (ct_xi xf x0) = LLB_NAT_SRC" by (simp add: ct_xi_fields 2)
    note k = xk [unfolded xfk_kinds(2) [OF d fl]]
    have n: "nat_flags xx \<noteq> 0" by (simp add: k(2) xfk_back nat_flag_defs)
    show ?thesis using 2 by (simp add: r [OF n] k(2)) (simp add: k(1) rules)
  next
    case 3
    have fl: "nat_flags (ct_xi xf x0) = LLB_NAT_HDST" by (simp add: ct_xi_fields 3)
    note k = xk [unfolded xfk_kinds(3) [OF d fl]]
    have n: "nat_flags xx \<noteq> 0" by (simp add: k(2) xfk_back nat_flag_defs)
    show ?thesis using 3 by (simp add: r [OF n] k(2)) (simp add: k(1) rules)
  next
    case 4
    have fl: "nat_flags (ct_xi xf x0) = LLB_NAT_HSRC" by (simp add: ct_xi_fields 4)
    note k = xk [unfolded xfk_kinds(4) [OF d fl]]
    have n: "nat_flags xx \<noteq> 0" by (simp add: k(2) xfk_back nat_flag_defs)
    show ?thesis using 4 by (simp add: r [OF n] k(2)) (simp add: k(1) rules)
  qed
  then show ?nf ?z ?m ?turned by blast+
qed


lemma xfk_port:
  "l4proto key \<noteq> IPPROTO_ICMP \<Longrightarrow> nat_xport x = 0 \<Longrightarrow> nat_xport (fst (snd (xfk_dst key (xk, x, xx)))) = ct_dport key"
  "l4proto key \<noteq> IPPROTO_ICMP \<Longrightarrow> nat_xport x = 0 \<Longrightarrow> nat_xport (fst (snd (xfk_hdst key (xk, x, xx)))) = ct_dport key"
  by (simp_all add: xfk_dst_def xfk_hdst_def Let_def)


section \<open>A connection\<close>

definition nat_xf :: "u16 \<Rightarrow> xfi" where
  "nat_xf v = xfi0\<lparr>l34m := l34m0\<lparr>nw_proto := IPPROTO_TCP, l34_source := 9, l34_dest := 80, l34_saddr := (1, 0, 0, 0),
       l34_daddr := (2, 0, 0, 0)\<rparr>,
     nm := (nm xfi0)\<lparr>nm_nxip := (3, 0, 0, 0), nm_nxport := v\<rparr>,
     pm := (pm xfi0)\<lparr>pm_l3_off := 14, pm_l4_off := 34, pm_nf := LLB_NAT_DST\<rparr>\<rparr>"

definition nat_rep :: xfi where
  "nat_rep = xfi0\<lparr>l34m := l34m0\<lparr>nw_proto := IPPROTO_TCP, l34_source := 8080, l34_dest := 9, l34_saddr := (3, 0, 0, 0),
       l34_daddr := (1, 0, 0, 0)\<rparr>,
     pm := (pm xfi0)\<lparr>pm_l3_off := 14, pm_l4_off := 34\<rparr>\<rparr>"

definition nat_pkt :: "u32 \<Rightarrow> u32 \<Rightarrow> u16 \<Rightarrow> u16 \<Rightarrow> packet" where
  "nat_pkt s d sp dp = replicate 14 0 @ [0x45, 0, 0, 40, 0, 0, 0, 0, 64, 6, 0, 0] @ le_bytes 4 s @ le_bytes 4 d @
     le_bytes 2 sp @ le_bytes 2 dp @ replicate 16 0"

lemma nat_pkt_tuple: "tuple4 (nat_pkt s d sp dp) 14 34 = (s, d, sp, dp)" "length (nat_pkt s d sp dp) = 54"
proof -
  have "le_word (le_bytes 4 w) = w" for w :: u32 by (rule le_word_bytes) simp
  moreover have "le_word (le_bytes 2 w) = w" for w :: u16 by (rule le_word_bytes) simp
  ultimately show "tuple4 (nat_pkt s d sp dp) 14 34 = (s, d, sp, dp)" by (simp add: tuple4_def nat_pkt_def)
qed (simp add: nat_pkt_def)

lemma nat_ready_pkts:
  "nat_ready4 (nat_pkt 1 2 9 80) (nat_xf v)" "nat_ready4 (nat_pkt 3 1 8080 9) nat_rep"
  by (simp_all add: nat_ready4_def nat_pkt_tuple nat_xf_def nat_rep_def xfi0_def l34m0_def meta4_def proto_neq)

lemma nat_conn_xf: "nat_conn (nat_xf v)" "\<not> is_v6 nat_rep"
  by (simp_all add: nat_conn_def reply_ok_def nat_xf_def nat_rep_def is_v6_def xfi0_def l2m0_def l34m0_def is4_def XADDR0_def
      bswap16_def ETH_P_IPV6_def)

lemma nat_xf_facts:
  "pm_l3_off (pm (nat_xf v)) = 14" "pm_l4_off (pm (nat_xf v)) = 34" "nw_proto (l34m (nat_xf v)) = IPPROTO_TCP"
  "nm_nrip (nm (nat_xf v)) = (0, 0, 0, 0)" "pm_l3_off (pm nat_rep) = 14" "pm_l4_off (pm nat_rep) = 34"
  "pm_nf (pm (nat_xf v)) = LLB_NAT_DST" "nm_nxport (nm (nat_xf v)) = v" "l34_dest (l34m (nat_xf v)) = 80"
  by (simp_all add: nat_xf_def nat_rep_def xfi0_def l34m0_def XADDR0_def)

theorem nat4_translates_witness:
  "\<exists>p' xf'. dp_do_dnat nat_kernel (nat_pkt 1 2 9 80) (nat_xf 8080) 3 8080 = Ret 0 p' xf' \<and>
     tuple4 p' 14 34 = (1, 3, 9, 8080) \<and> nat_good False IPPROTO_TCP 14 34 (nat_pkt 1 2 9 80) p'"
  using nat4_translates [OF nat_kernel_ok nat_ready_pkts(1) [of 8080], of 3 8080]
  by (auto simp: nat_pkt_tuple nat_xf_facts)

lemma nat_xfk:
  "dp_ct_proto_xfk_init (ct_key (nat_xf v)) (ct_xi (nat_xf v) x0) (ct_xxi0 xx0) =
     xfk_dst (ct_key (nat_xf v)) (xfk_swap (ct_key (nat_xf v)), ct_xi (nat_xf v) x0, ct_xxi0 xx0)"
  by (rule xfk_kinds(1)) (simp_all add: ct_xi_fields nat_xf_facts, simp_all add: nat_xf_def xfi0_def XADDR0_def)

lemma nat_rep_key:
  "ct_key nat_rep = fst (dp_ct_proto_xfk_init (ct_key (nat_xf 8080)) (ct_xi (nat_xf 8080) xfrm0) (ct_xxi0 xfrm0))"
proof -
  have "\<not> is_v6 (nat_xf 8080)" "\<not> is_v6 nat_rep" using nat_conn_xf by (simp_all add: nat_conn_def)
  then show ?thesis unfolding nat_xfk xfk_fst
    by (simp add: ct_xi_fields ct_key_def) (simp add: nat_xf_def nat_rep_def xfi0_def l34m0_def proto_defs DP_XADDR_ISZR_def XADDR0_def)
qed



definition nat6_xf :: xfi where
  "nat6_xf = xfi0\<lparr>l34m := l34m0\<lparr>nw_proto := IPPROTO_UDP, l34_source := 9, l34_dest := 53, l34_saddr := (1, 1, 1, 1),
       l34_daddr := (2, 2, 2, 2)\<rparr>, pm := (pm xfi0)\<lparr>pm_l3_off := 14, pm_l4_off := 54\<rparr>\<rparr>"

definition nat6_pkt :: packet where
  "nat6_pkt = replicate 14 0 @ [0x60, 0, 0, 0, 0, 8, 17, 64] @ xaddr_bytes (1, 1, 1, 1) @ xaddr_bytes (2, 2, 2, 2) @
     le_bytes 2 (9 :: u16) @ le_bytes 2 (53 :: u16) @ [0, 8, 0, 0]"

lemma nat6_tuple: "tuple6 nat6_pkt 14 54 = ((1, 1, 1, 1), (2, 2, 2, 2), 9, 53)" "length nat6_pkt = 62"
proof -
  have "le_word (le_bytes 4 w) = w" for w :: u32 by (rule le_word_bytes) simp
  moreover have "le_word (le_bytes 2 w) = w" for w :: u16 by (rule le_word_bytes) simp
  ultimately show "tuple6 nat6_pkt 14 54 = ((1, 1, 1, 1), (2, 2, 2, 2), 9, 53)"
    by (simp add: tuple6_def xaddr_at_def nat6_pkt_def xaddr_bytes_def)
qed (simp add: nat6_pkt_def)

lemma nat6_ready: "nat_ready6 nat6_pkt nat6_xf"
  by (simp add: nat_ready6_def nat6_tuple nat6_xf_def xfi0_def l34m0_def meta6_def proto_neq)

theorem nat6_translates_witness:
  "\<exists>p' xf'. dp_do_dnat6 nat_kernel nat6_pkt nat6_xf (3, 3, 3, 3) 5353 = Ret 0 p' xf' \<and>
     tuple6 p' 14 54 = ((1, 1, 1, 1), (3, 3, 3, 3), 9, 5353)"
proof -
  have "pm_l3_off (pm nat6_xf) = 14" "pm_l4_off (pm nat6_xf) = 54" "nw_proto (l34m nat6_xf) = IPPROTO_UDP"
    "nm_nrip (nm nat6_xf) = XADDR0" by (simp_all add: nat6_xf_def xfi0_def l34m0_def)
  then show ?thesis using nat6_translates [OF nat_kernel_ok nat6_ready, of "(3, 3, 3, 3)" 5353]
    by (auto simp: nat6_tuple XADDR0_def)
qed

section \<open>The checksum of a new header\<close>

lemma wp_iph_sum:
  "i + 2 * n \<le> length p \<Longrightarrow> wp (iph_sum p i n c) Q = Q (c + of_nat (sum16 (bytes_at p i (2 * n))))"
proof (induction n arbitrary: i c)
  case (Suc n)
  have "bytes_at p i (2 * Suc n) = bytes_at p i 2 @ bytes_at p (i + 2) (2 * n)"
    using bytes_at_split [where p = p and i = i and m = 2 and n = "2 * n"] by simp
  moreover have "i + 2 \<le> length p" using Suc.prems by simp
  ultimately have "sum16 (bytes_at p i (2 * Suc n)) = unat (u16_at p i) + sum16 (bytes_at p (i + 2) (2 * n))"
    by (simp add: sum16_append sum16_bytes2)
  moreover have "of_nat (unat (u16_at p i)) = (ucast (u16_at p i) :: u32)" by (simp add: unsigned_of_nat)
  ultimately show ?case using Suc.IH [of "i + 2" "c + ucast (u16_at p i)"] Suc.prems by (simp add: wp_simps add.assoc)
qed (simp add: wp_simps)

lemma one_fold:
  assumes "n < 655360"
  shows "unat (ucast (NOT (((of_nat n :: u32) AND 0xffff) + drop_bit 16 (of_nat n))) :: u16) =
    65535 - (n mod 65536 + n div 65536) mod 65536"
proof -
  have u: "unat (of_nat n :: u32) = n" using assms by (simp add: unat_of_nat)
  have d: "n div 65536 < 10" using assms by (simp add: div_less_iff_less_mult)
  let ?x = "((of_nat n :: u32) AND 0xffff) + drop_bit 16 (of_nat n)"
  have m: "n mod 65536 < 65536" by simp
  then have "n mod 65536 + n div 65536 < 2 ^ 32" using d by simp
  then have x: "unat ?x = n mod 65536 + n div 65536"
    by (simp add: unat_word_ariths unat_and_ffff unat_drop u)
  have "unat (ucast (NOT ?x) :: u16) = (2 ^ 32 - 1 - unat ?x) mod 65536" by (simp add: unat_ucast_mod unat_not)
  also have "\<dots> = 65535 - unat ?x mod 65536"
  proof -
    have "unat ?x < 131072" using x d m by linarith
    then consider "unat ?x < 65536" | k where "unat ?x = 65536 + k" "k < 65536"
      using that(2) [of "unat ?x - 65536"] by linarith
    then show ?thesis
    proof cases
      case 1
      have "2 ^ 32 - 1 - unat ?x = (65535 - unat ?x) + 65535 * 65536" using 1 by simp
      then show ?thesis using 1 by (simp only: mod_mult_self1) simp
    next
      case 2
      have "2 ^ 32 - 1 - unat ?x = (65535 - k) + 65534 * 65536" using 2 by simp
      then show ?thesis using 2 by (simp only: mod_mult_self1) simp
    qed
  qed
  finally show ?thesis by (simp only: x)
qed

lemma fold_carry:
  assumes "n < 655360"
  shows "(n + (65535 - (n mod 65536 + n div 65536) mod 65536)) mod 65535 = 0 \<longleftrightarrow> n mod 65536 + n div 65536 < (65536 :: nat)"
proof -
  define q r where "q = n div 65536" and "r = n mod 65536"
  have n: "n = 65536 * q + r" and r: "r < 65536" and q: "q < 10"
    using assms by (simp_all add: q_def r_def div_less_iff_less_mult)
  show ?thesis unfolding q_def [symmetric] r_def [symmetric]
  proof (cases "r + q < 65536")
    case True
    then have "n + (65535 - (r + q) mod 65536) = 65535 * (q + 1)" using n by simp
    then show "((n + (65535 - (r + q) mod 65536)) mod 65535 = 0) = (r + q < 65536)" using True by (simp only: mod_mult_self1_is_0) simp
  next
    case False
    then obtain k where k: "r + q = 65536 + k" "k < 10" using r q by (intro that [of "r + q - 65536"]) linarith+
    then have "n + (65535 - (r + q) mod 65536) = 1 + 65535 * (q + 2)" using n by simp
    then show "((n + (65535 - (r + q) mod 65536)) mod 65535 = 0) = (r + q < 65536)" using False by (simp only: mod_mult_self2) simp
  qed
qed

definition hdr_sum :: "packet \<Rightarrow> nat \<Rightarrow> nat" where
  "hdr_sum p iph = sum16 (bytes_at (patch p (iph + 10) [0, 0]) iph 20)"

lemma le2_zero: "le_bytes 2 (0 :: u16) = [0, 0]"
  by (simp add: le_bytes_def numeral_2_eq_2)

lemma hdr_sum_bound: "hdr_sum p iph < 655360"
proof -
  have "sum16 bs \<le> 65535 * n" if "length bs \<le> 2 * n" for bs n
    using that
  proof (induction bs arbitrary: n rule: sum16.induct)
    case (2 a)
    have "unat a \<le> 65535" using unat_u8_less [of a] by linarith
    then show ?case using 2 by (cases n) simp_all
  next
    case (3 a b bs)
    obtain m where m: "n = Suc m" "length bs \<le> 2 * m" using 3(2) by (cases n) auto
    then have "sum16 bs \<le> 65535 * m" using 3(1) by blast
    then show ?case using unat_u8_less [of a] unat_u8_less [of b] unfolding m(1) sum16.simps mult_Suc_right by linarith
  qed simp
  from this [of "bytes_at (patch p (iph + 10) [0, 0]) iph 20" 10] show ?thesis by (simp add: hdr_sum_def)
qed

lemma new_csum_run:
  assumes "iph + 20 \<le> length p"
  shows "\<exists>c :: u16. dp_ipv4_new_csum p iph = Some (patch p (iph + 10) (le_bytes 2 c)) \<and>
    unat c = 65535 - (hdr_sum p iph mod 65536 + hdr_sum p iph div 65536) mod 65536"
proof -
  let ?p = "patch p (iph + 10) [0, 0]"
  let ?c = "ucast (NOT (((of_nat (hdr_sum p iph) :: u32) AND 0xffff) + drop_bit 16 (of_nat (hdr_sum p iph)))) :: u16"
  have l: "length ?p = length p" using assms by simp
  have pp: "patch ?p (iph + 10) (le_bytes 2 w) = patch p (iph + 10) (le_bytes 2 w)" for w :: u16
    using assms by (simp add: patch_def min_absorb1)
  have "wp (dp_ipv4_new_csum p iph) (\<lambda>p'. p' = patch p (iph + 10) (le_bytes 2 ?c))"
    using assms l pp by (simp add: dp_ipv4_new_csum_def wp_simps le2_zero wp_iph_sum hdr_sum_def)
  then show ?thesis using one_fold [OF hdr_sum_bound, of p iph] by (auto simp: wp_def)
qed

text \<open>C35: The checksum of a new IPv4 header (tunnels and the translation from IPv6) is made with one fold of the sum.  It is
  right exactly if that fold does not carry: a header whose halves of the sum add up to 65536 or more goes out with an
  invalid checksum.\<close>

theorem new_csum_valid_iff:
  assumes "iph + 20 \<le> length p" and "p ! iph \<noteq> 0"
  shows "\<exists>p'. dp_ipv4_new_csum p iph = Some p' \<and>
    (ip_csum_ok (bytes_at p' iph 20) \<longleftrightarrow> hdr_sum p iph mod 65536 + hdr_sum p iph div 65536 < 65536)"
proof -
  let ?n = "hdr_sum p iph" and ?h = "bytes_at (patch p (iph + 10) [0, 0]) iph 20"
  obtain c :: u16 where c: "dp_ipv4_new_csum p iph = Some (patch p (iph + 10) (le_bytes 2 c))"
    "unat c = 65535 - (?n mod 65536 + ?n div 65536) mod 65536"
    using new_csum_run [OF assms(1)] by blast
  have h: "bytes_at (patch p (iph + 10) (le_bytes 2 c)) iph 20 = patch ?h 10 (le_bytes 2 c)"
    using assms(1) by (intro nth_equalityI) (auto simp: nth_patch)
  have "bytes_at ?h 10 2 = [0, 0]" using assms(1) by (simp add: patch_def drop_take)
  then have s: "sum16 (patch ?h 10 (le_bytes 2 c)) = ?n + unat c"
    using sum16_patch [of 10 "le_bytes 2 c" ?h] assms(1) by (simp add: hdr_sum_def sum16_le_bytes2)
  have "?h ! 0 = p ! iph" using assms(1) by (simp add: nth_patch)
  moreover have "?h = ?h ! 0 # ?h ! 1 # drop 2 ?h"
    using assms(1) Cons_nth_drop_Suc [of 0 ?h] Cons_nth_drop_Suc [of 1 ?h] by (simp add: numeral_2_eq_2)
  ultimately have "?n \<noteq> 0" using assms(2) unfolding hdr_sum_def by (metis (no_types) sum16.simps(3) add_is_0 unat_eq_0)
  moreover have "(?n + unat c) mod 65535 = 0 \<longleftrightarrow> ?n mod 65536 + ?n div 65536 < 65536"
    unfolding c(2) by (rule fold_carry [OF hdr_sum_bound])
  ultimately show ?thesis using c(1) by (simp add: h s ip_csum_ok_iff)
qed

section \<open>From IPv6 to IPv4\<close>

definition new_csum :: "packet \<Rightarrow> nat \<Rightarrow> u16" where
  "new_csum p iph = ucast (NOT (((of_nat (hdr_sum p iph) :: u32) AND 0xffff) + drop_bit 16 (of_nat (hdr_sum p iph))))"

lemma wp_new_csum:
  assumes "iph + 20 \<le> length p"
  shows "wp (dp_ipv4_new_csum p iph) Q = Q (patch p (iph + 10) (le_bytes 2 (new_csum p iph)))"
proof -
  have "patch (patch p (iph + 10) [0, 0]) (iph + 10) (le_bytes 2 w) = patch p (iph + 10) (le_bytes 2 w)" for w :: u16
    using assms by (simp add: patch_def min_absorb1)
  then show ?thesis using assms
    by (simp add: dp_ipv4_new_csum_def wp_simps le2_zero wp_iph_sum new_csum_def hdr_sum_def)
qed

text \<open>The segment: the difference of the addresses and the new port.\<close>

lemma segment64:
  assumes e: "nat_env_ok e" and l: "54 \<le> length P" and o: "pm_l4_off (pm xf) = 34"
  shows "\<exists>T'. dp_set_tcp_dport e (l4_csum_replace e P (l4_of xf + 16) 0 dif BPF_F_PSEUDO_HDR) xf v = (take 34 P @ T', set_dest v xf) \<and>
    length T' = length P - 34 \<and> take 2 T' = bytes_at P 34 2 \<and> bytes_at T' 2 2 = le_bytes 2 v \<and>
    (l34_dest (l34m xf) = u16_at P 36 \<longrightarrow> cong16 (int (sum16 T')) (int (sum16 (drop 34 P)) - int (unat dif)))"
proof -
  let ?A = "take 34 P" and ?T = "drop 34 P"
  have P: "P = ?A @ [] @ [] @ ?T" and lA: "length ?A + length ([] :: packet) + length ([] :: packet) = l4_of xf" "20 \<le> length ?T"
    using l o by simp_all
  obtain c :: u16 where c: "l4_csum_replace e (?A @ [] @ [] @ ?T) (l4_of xf + 16) 0 dif BPF_F_PSEUDO_HDR = ?A @ [] @ [] @ patch ?T 16 (le_bytes 2 c)"
    "cong16 (int (unat c)) (int (sum16 (bytes_at ?T 16 2)) + int (unat (0 :: u32)) - int (unat dif))"
    by (rule csum_T [OF e lA(1), of 16 ?T BPF_F_PSEUDO_HDR 0 dif]) (use lA in simp_all)
  let ?T1 = "patch ?T 16 (le_bytes 2 c)" and ?old = "l34_dest (l34m xf)"
  have l1: "length ?T1 = length ?T" using lA by simp
  obtain d :: u16 where d: "l4_csum_replace e (?A @ [] @ [] @ ?T1) (l4_of xf + 16) (ucast ?old) (ucast v) 2 = ?A @ [] @ [] @ patch ?T1 16 (le_bytes 2 d)"
    "cong16 (int (unat d)) (int (sum16 (bytes_at ?T1 16 2)) + int (unat (ucast ?old :: u32)) - int (unat (ucast v :: u32)))"
    by (rule csum_T [OF e lA(1), of 16 ?T1 2 "ucast ?old" "ucast v"]) (use lA l1 in simp_all)
  have dd: "patch ?T1 16 (le_bytes 2 d) = patch ?T 16 (le_bytes 2 d)" using lA(2) by (simp add: patch_def min_absorb1)
  let ?T2 = "patch ?T 16 (le_bytes 2 d)"
  let ?T' = "patch ?T2 2 (le_bytes 2 v)"
  have l2: "length ?T2 = length ?T" using lA by simp
  have "skb_store_bytes e (?A @ [] @ [] @ ?T2) (l4_of xf + 2) (le_bytes 2 v) = ?A @ [] @ [] @ ?T'"
    by (rule store_T [OF e lA(1)]) (use lA(2) l2 in simp)
  then have run: "dp_set_tcp_dport e (l4_csum_replace e P (l4_of xf + 16) 0 dif BPF_F_PSEUDO_HDR) xf v = (?A @ ?T', set_dest v xf)"
    using c(1) d(1) P by (simp add: dp_set_tcp_dport_def Let_def dd)
  have "bytes_at ?T1 16 2 = le_bytes 2 c" using lA(2) by (simp add: bytes_at_patch_same)
  then have dc: "cong16 (int (unat d)) (int (sum16 (bytes_at ?T 16 2)) - int (unat dif) + int (unat ?old) - int (unat v))"
    using cong16_lin2 [OF c(2) d(2)] unat_u16_less [of ?old] unat_u16_less [of v] by (simp add: unat_ucast_mod sum16_le_bytes2)
  have "cong16 (int (sum16 ?T')) (int (sum16 ?T) - int (unat dif))" if "?old = u16_at P 36"
  proof -
    have "int (sum16 ?T2) = int (sum16 ?T) + int (unat d) - int (sum16 (bytes_at ?T 16 2))"
      using sum_patch_int [of 16 "le_bytes 2 d" ?T] lA(2) by (simp add: sum16_le_bytes2)
    moreover have "sum16 (bytes_at ?T2 2 2) = unat ?old"
      using lA(2) that sum16_bytes2 [of 36 P] l by (simp add: bytes_at_patch_other)
    then have "int (sum16 ?T') = int (sum16 ?T2) + int (unat v) - int (unat ?old)"
      using sum_patch_int [of 2 "le_bytes 2 v" ?T2] lA(2) l2 by (simp add: sum16_le_bytes2)
    ultimately show ?thesis using dc by (elim cong16_lin) simp
  qed
  moreover have "length ?T' = length P - 34" "take 2 ?T' = bytes_at P 34 2" "bytes_at ?T' 2 2 = le_bytes 2 v"
    using lA(2) l2 by (simp_all add: patch_rules)
  ultimately show ?thesis using run by blast
qed

text \<open>\<open>bpf_csum_diff\<close> fails for lengths that are no multiples of four only.\<close>

definition csum_diff_total :: "(u8 list \<Rightarrow> u8 list \<Rightarrow> u32 \<Rightarrow> int) \<Rightarrow> bool" where
  "csum_diff_total f \<longleftrightarrow> (\<forall>a b s. length a mod 4 = 0 \<longrightarrow> length b mod 4 = 0 \<longrightarrow> 0 \<le> f a b s)"

lemma csum_diff_twice:
  assumes "csum_diff_ok f" and "csum_diff_total f" and "length a mod 4 = 0" and "length b mod 4 = 0" and "length c mod 4 = 0"
    and "length d mod 4 = 0"
  shows "cong16 (int (unat (csum_of (f c d (csum_of (f a b 0))))))
    (int (sum16 b) - int (sum16 a) + int (sum16 d) - int (sum16 c))"
proof -
  have u: "uint (csum_of (f x y s)) = f x y s" if "length x mod 4 = 0" "length y mod 4 = 0" for x y s
    using assms(1,2) that by (auto simp: csum_diff_ok_def csum_diff_total_def csum_of_def uint_word_of_int take_bit_eq_mod)
  have k: "f x y s mod 65535 = (uint s + int (sum16 y) - int (sum16 x)) mod 65535" if "length x mod 4 = 0" "length y mod 4 = 0" for x y s
    using assms(1,2) that by (auto simp: csum_diff_ok_def csum_diff_total_def)
  have 1: "cong16 (f a b 0) (int (sum16 b) - int (sum16 a))" using k [of a b 0] assms by (simp add: cong16_def)
  have 2: "cong16 (f c d (csum_of (f a b 0))) (f a b 0 + int (sum16 d) - int (sum16 c))"
    using k [of c d] u [of a b 0] assms by (simp add: cong16_def)
  show ?thesis using u [of c d] cong16_lin2 [OF 1 2] assms by (simp add: cong16_dvd algebra_simps)
qed

text \<open>The header that is written, as nested stores.\<close>

definition hdr64_mid :: "packet \<Rightarrow> xfi \<Rightarrow> packet" where
  "hdr64_mid p xf = (
     let p = patch p 0 (dl_dst (l2m xf) @ dl_src (l2m xf));
         p = patch p 12 (le_bytes 2 (bswap16 ETH_P_IP));
         p = patch p 14 [0x45];
         p = patch p 16 (le_bytes 2 (bswap16 (pm_l3_plen (pm xf) + 20)));
         p = patch p 22 [64];
         p = patch p 23 [nw_proto (l34m xf)];
         p = patch p 26 (le_bytes 4 (addr4 (nm_nrip (nm xf))))
     in patch p 30 (le_bytes 4 (addr4 (nm_nxip (nm xf)))))"

definition hdr64 :: "packet \<Rightarrow> xfi \<Rightarrow> packet" where
  "hdr64 p xf = patch (hdr64_mid p xf) 24 (le_bytes 2 (new_csum (hdr64_mid p xf) 14))"

lemma hdr64_facts:
  assumes "34 \<le> length p" and "length (dl_dst (l2m xf)) = 6" and "length (dl_src (l2m xf)) = 6"
  shows "length (hdr64 p xf) = length p" and "drop 34 (hdr64 p xf) = drop 34 p"
    and "bytes_at (hdr64 p xf) 26 4 = le_bytes 4 (addr4 (nm_nrip (nm xf)))"
    and "bytes_at (hdr64 p xf) 30 4 = le_bytes 4 (addr4 (nm_nxip (nm xf)))"
    and "hdr64 p xf ! 14 = 0x45" and "bytes_at (hdr64 p xf) 16 2 = le_bytes 2 (bswap16 (pm_l3_plen (pm xf) + 20))"
    and "hdr64 p xf ! 22 = 64" and "hdr64 p xf ! 23 = nw_proto (l34m xf)"
    and "hdr64 p xf ! 15 = p ! 15" and "bytes_at (hdr64 p xf) 18 4 = bytes_at p 18 4"
    and "bytes_at (hdr64 p xf) 12 2 = le_bytes 2 (bswap16 ETH_P_IP)"
proof -
  define c where "c = new_csum (hdr64_mid p xf) 14"
  have h: "hdr64 p xf = patch (hdr64_mid p xf) 24 (le_bytes 2 c)" by (simp add: hdr64_def c_def)
  note steps = hdr64_mid_def Let_def patch_rules nth_patch
  show "length (hdr64 p xf) = length p" and "drop 34 (hdr64 p xf) = drop 34 p"
    unfolding h using assms by (simp_all add: steps)
  show "bytes_at (hdr64 p xf) 26 4 = le_bytes 4 (addr4 (nm_nrip (nm xf)))"
    and "bytes_at (hdr64 p xf) 30 4 = le_bytes 4 (addr4 (nm_nxip (nm xf)))"
    unfolding h using assms by (simp_all add: steps)
  show "bytes_at (hdr64 p xf) 16 2 = le_bytes 2 (bswap16 (pm_l3_plen (pm xf) + 20))"
    unfolding h using assms by (simp_all add: steps)
  show "bytes_at (hdr64 p xf) 12 2 = le_bytes 2 (bswap16 ETH_P_IP)"
    unfolding h using assms by (simp_all add: steps)
  show "hdr64 p xf ! 14 = 0x45" and "hdr64 p xf ! 22 = 64" and "hdr64 p xf ! 23 = nw_proto (l34m xf)"
    unfolding h using assms by (simp_all add: steps)
  show "hdr64 p xf ! 15 = p ! 15" and "bytes_at (hdr64 p xf) 18 4 = bytes_at p 18 4"
    unfolding h using assms by (simp_all add: steps)
qed

lemma dnat64_run:
  assumes e: "nat_env_ok e" and ch: "bpf_skb_change_proto e p (bswap16 ETH_P_IP) 0 = Some q" and l: "54 \<le> length q"
    and tcp: "nw_proto (l34m xf) = IPPROTO_TCP" and v: "vlan0 (l2m xf) = 0"
    and d: "length (dl_dst (l2m xf)) = 6" "length (dl_src (l2m xf)) = 6"
  defines "P \<equiv> hdr64 q xf" and "y \<equiv> set_l34_len (pm_l3_plen (pm xf) + 20) 14 34 (set_dl_type (bswap16 ETH_P_IP) xf)"
  shows "dp_do_dnat64 e p xf = Some (case dp_set_tcp_dport e (l4_csum_replace e P (l4_of y + 16) 0
     (csum_of (bpf_csum_diff e (xaddr_bytes (l34_daddr (l34m xf))) (bytes_at P 30 4)
        (csum_of (bpf_csum_diff e (xaddr_bytes (l34_saddr (l34m xf))) (bytes_at P 26 4) 0)))) BPF_F_PSEUDO_HDR) y (nm_nxport (nm xf)) of
     (p, xf) \<Rightarrow> Ret 0 p xf)"
proof -
  have y: "l34m y = l34m xf" "nm y = nm xf" "l2m y = (l2m xf)\<lparr>dl_type := bswap16 ETH_P_IP\<rparr>"
    "l2m (set_dl_type (bswap16 ETH_P_IP) xf) = (l2m xf)\<lparr>dl_type := bswap16 ETH_P_IP\<rparr>" "pm (set_dl_type t xf) = pm xf"
    "l34m (set_dl_type t xf) = l34m xf" "nm (set_dl_type t xf) = nm xf"
    "pm_l3_len (pm y) = pm_l3_plen (pm xf) + 20" for t
    by (simp_all add: y_def set_l34_len_def set_dl_type_def)
  have s: "pm_l3_len (pm (set_l34_len n o3 o4 z)) = n" "l34m (set_l34_len n o3 o4 z) = l34m z" "nm (set_l34_len n o3 o4 z) = nm z" for n o3 o4 z
    by (simp_all add: set_l34_len_def)
  define m where "m = dl_dst (l2m xf) @ dl_src (l2m xf)"
  define q1 where "q1 = patch q 0 m"
  define q2 where "q2 = patch q1 12 (le_bytes 2 (bswap16 ETH_P_IP))"
  define q3 where "q3 = patch q2 14 [0x45]"
  define q4 where "q4 = patch q3 16 (le_bytes 2 (bswap16 (pm_l3_plen (pm xf) + 20)))"
  define q5 where "q5 = patch q4 22 [64]"
  define q6 where "q6 = patch q5 23 [IPPROTO_TCP]"
  define q7 where "q7 = patch q6 26 (le_bytes 4 (addr4 (nm_nrip (nm xf))))"
  define q8 where "q8 = patch q7 30 (le_bytes 4 (addr4 (nm_nxip (nm xf))))"
  have lm: "length m = 12" using d by (simp add: m_def)
  have l1: "length q1 = length q" using l lm by (simp add: q1_def)
  have l2: "length q2 = length q" using l l1 by (simp add: q2_def)
  have l3: "length q3 = length q" using l l2 by (simp add: q3_def)
  have l4: "length q4 = length q" using l l3 by (simp add: q4_def)
  have l5: "length q5 = length q" using l l4 by (simp add: q5_def)
  have l6: "length q6 = length q" using l l5 by (simp add: q6_def)
  have l7: "length q7 = length q" using l l6 by (simp add: q7_def)
  have l8: "length q8 = length q" using l l7 by (simp add: q8_def)
  have P: "P = patch q8 24 (le_bytes 2 (new_csum q8 14))"
    by (simp add: P_def hdr64_def hdr64_mid_def Let_def q1_def q2_def q3_def q4_def q5_def q6_def q7_def q8_def m_def tcp)
  have lP: "length P = length q" using l l8 by (simp add: P)
  have "wp (dp_ipv4_new_csum q8 14) (\<lambda>r. r = P)" using l l8 by (subst wp_new_csum) (simp_all add: P)
  then have st0: "dp_ipv4_new_csum q8 14 = Some P" "rd P 26 4 = Some (bytes_at P 26 4)" "rd P 30 4 = Some (bytes_at P 30 4)"
    using l lP by (simp_all add: wp_def rd_def)
  have st1: "wr q 0 m = Some q1" "st16 q1 12 (bswap16 ETH_P_IP) = Some q2" "st8 q2 14 0x45 = Some q3"
    "st16 q3 16 (bswap16 (pm_l3_plen (pm xf) + 20)) = Some q4"
    using l lm l1 l2 l3 by (simp_all add: wr_def st8_def st16_def q1_def [symmetric] q2_def q3_def q4_def)
  have st2: "st8 q4 22 64 = Some q5" "st8 q5 23 IPPROTO_TCP = Some q6"
    "st32 q6 26 (addr4 (nm_nrip (nm xf))) = Some q7" "st32 q7 30 (addr4 (nm_nxip (nm xf))) = Some q8"
    using l l4 l5 l6 l7 by (simp_all add: st8_def st32_def wr_def q5_def q6_def q7_def q8_def)
  note st = st0 st1 st2
  have neq: "IPPROTO_TCP \<noteq> IPPROTO_UDP" by (simp add: proto_defs)
  show ?thesis
    using l l1 l2 lP unfolding dp_do_dnat64_def ch tcp option.case
    by (simp add: set_l2_hdr_def v y s Let_def st tcp m_def [symmetric] y_def [symmetric] split: prod.split)
qed

text \<open>C31: A TCP packet from an IPv6 client to an IPv4 server: the new header has the addresses, the length and the protocol it
  should have, the destination port is the server's, and the sum over pseudo header and segment is that of the
  IPv6 packet, so the TCP checksum stays right.  But the type of service, the identification and the fragment offset of the
  new header are not written: they are what the kernel left there.\<close>

theorem dnat64_translates:
  assumes "nat_env_ok e" and "csum_diff_ok (bpf_csum_diff e)" and "csum_diff_total (bpf_csum_diff e)"
    and "bpf_skb_change_proto e p (bswap16 ETH_P_IP) 0 = Some q" and "54 \<le> length q"
    and "nw_proto (l34m xf) = IPPROTO_TCP" and "vlan0 (l2m xf) = 0"
    and "length (dl_dst (l2m xf)) = 6" and "length (dl_src (l2m xf)) = 6" and "l34_dest (l34m xf) = u16_at q 36"
  shows "\<exists>p' xf'. dp_do_dnat64 e p xf = Some (Ret 0 p' xf') \<and> length p' = length q \<and>
    tuple4 p' 14 34 = (addr4 (nm_nrip (nm xf)), addr4 (nm_nxip (nm xf)), u16_at q 34, nm_nxport (nm xf)) \<and>
    p' ! 14 = 0x45 \<and> u16_at p' 16 = bswap16 (pm_l3_plen (pm xf) + 20) \<and> p' ! 22 = 64 \<and> p' ! 23 = IPPROTO_TCP \<and>
    cong16 (tcp_sum False 14 34 p') (int (sum16 (xaddr_bytes (l34_saddr (l34m xf)))) +
      int (sum16 (xaddr_bytes (l34_daddr (l34m xf)))) + int (sum16 (drop 34 q))) \<and>
    p' ! 15 = q ! 15 \<and> bytes_at p' 18 4 = bytes_at q 18 4"
proof -
  let ?P = "hdr64 q xf" and ?v = "nm_nxport (nm xf)"
  let ?y = "set_l34_len (pm_l3_plen (pm xf) + 20) 14 34 (set_dl_type (bswap16 ETH_P_IP) xf)"
  let ?dif = "csum_of (bpf_csum_diff e (xaddr_bytes (l34_daddr (l34m xf))) (bytes_at ?P 30 4)
        (csum_of (bpf_csum_diff e (xaddr_bytes (l34_saddr (l34m xf))) (bytes_at ?P 26 4) 0)))"
  have h: "34 \<le> length q" using assms(5) by simp
  note f = hdr64_facts [OF h assms(8,9)]
  have y: "pm_l4_off (pm ?y) = 34" "l34m ?y = l34m xf" by (simp_all add: set_l34_len_def set_dl_type_def)
  have rd: "bytes_at ?P (34 + k) n = bytes_at q (34 + k) n" for k n using arg_cong [OF f(2), of "\<lambda>x. bytes_at x k n"] by (simp add: add.commute)
  have lP: "54 \<le> length ?P" using assms(5) f(1) by simp
  obtain T' where t: "dp_set_tcp_dport e (l4_csum_replace e ?P (l4_of ?y + 16) 0 ?dif BPF_F_PSEUDO_HDR) ?y ?v = (take 34 ?P @ T', set_dest ?v ?y)"
    "length T' = length ?P - 34" "take 2 T' = bytes_at q 34 2" "bytes_at T' 2 2 = le_bytes 2 ?v"
    "cong16 (int (sum16 T')) (int (sum16 (drop 34 q)) - int (unat ?dif))"
    using segment64 [OF assms(1) lP y(1), of ?dif ?v] rd [of 0 2] rd [of 2 2] assms(10) f(2) unfolding y(2) by auto
  let ?p' = "take 34 ?P @ T'"
  have run: "dp_do_dnat64 e p xf = Some (Ret 0 ?p' (set_dest ?v ?y))"
    unfolding dnat64_run [OF assms(1,4-9)] t(1) by simp
  have len: "length (take 34 ?P) = 34" using lP by simp
  have low: "bytes_at ?p' k n = bytes_at ?P k n" if "k + n \<le> 34" for k n
    using that len by (simp add: drop_take min_absorb1)
  have low1: "?p' ! k = ?P ! k" if "k < 34" for k using that len by (simp add: nth_append)
  have le: "le_word (le_bytes 4 w) = w" "le_word (le_bytes 2 u) = u" for w :: u32 and u :: u16 by (simp_all add: le_word_bytes)
  have D: "cong16 (int (unat ?dif)) (int (sum16 (bytes_at ?P 26 4)) - int (sum16 (xaddr_bytes (l34_saddr (l34m xf)))) +
      int (sum16 (bytes_at ?P 30 4)) - int (sum16 (xaddr_bytes (l34_daddr (l34m xf)))))"
    using lP by (intro csum_diff_twice assms) simp_all
  have "sum16 (bytes_at ?p' 26 8) = sum16 (bytes_at ?P 26 4) + sum16 (bytes_at ?P 30 4)"
    using low [of 26 8] bytes_at_split [of 4 4 26 ?P] lP by (simp add: sum16_append)
  then have S: "tcp_sum False 14 34 ?p' = int (sum16 (bytes_at ?P 26 4)) + int (sum16 (bytes_at ?P 30 4)) + int (sum16 T')"
    using len by (simp add: tcp_sum_def src_at_def addr_len_def)
  have "cong16 (tcp_sum False 14 34 ?p') (int (sum16 (xaddr_bytes (l34_saddr (l34m xf)))) +
      int (sum16 (xaddr_bytes (l34_daddr (l34m xf)))) + int (sum16 (drop 34 q)))"
    unfolding S by (rule cong16_lin2 [OF t(5) cong16_sym [OF D]]) simp
  moreover have "tuple4 ?p' 14 34 = (addr4 (nm_nrip (nm xf)), addr4 (nm_nxip (nm xf)), u16_at q 34, ?v)"
    using low [of 26 4] low [of 30 4] f(3,4) t(3,4) len by (simp add: tuple4_def le)
  moreover have "length ?p' = length q" using t(2) lP f(1) by simp
  moreover have "?p' ! 14 = 0x45" "?p' ! 22 = 64" "?p' ! 23 = IPPROTO_TCP" "?p' ! 15 = q ! 15"
    using f(5,7,8,9) assms(6) by (simp_all add: low1 del: nth_take)
  moreover have "u16_at ?p' 16 = bswap16 (pm_l3_plen (pm xf) + 20)" "bytes_at ?p' 18 4 = bytes_at q 18 4"
    using low [of 16 2] low [of 18 4] f(6,10) le(2) by simp_all
  ultimately show ?thesis using run by blast
qed

section \<open>Examples of new headers\<close>

definition carry_hdr :: packet where
  "carry_hdr = [0x45, 0, 0, 0x28, 0, 0, 0, 0, 0x40, 6, 0, 0, 0xff, 0xff, 0x7b, 0xd1, 0, 0, 0, 0]"

lemma carry_sum: "hdr_sum carry_hdr 0 = 0x1ffff"
  by (simp add: hdr_sum_def carry_hdr_def patch_def)

theorem new_csum_valid_iff_witness: "\<exists>p'. dp_ipv4_new_csum carry_hdr 0 = Some p' \<and> \<not> ip_csum_ok (bytes_at p' 0 20)"
  using new_csum_valid_iff [of 0 carry_hdr] unfolding carry_sum by (simp add: carry_hdr_def)

definition xf64 :: xfi where
  "xf64 = xfi0\<lparr>l34m := l34m0\<lparr>nw_proto := IPPROTO_TCP, l34_source := 9, l34_dest := 80, l34_saddr := (1, 1, 1, 1),
       l34_daddr := (2, 2, 2, 2)\<rparr>,
     nm := (nm xfi0)\<lparr>nm_nxip := (3, 0, 0, 0), nm_nrip := (4, 0, 0, 0), nm_nxport := 8080\<rparr>,
     pm := (pm xfi0)\<lparr>pm_l3_off := 14, pm_l4_off := 54, pm_l3_plen := 20\<rparr>\<rparr>"

definition pkt64 :: packet where
  "pkt64 = replicate 14 0 @ [0x60, 0, 0, 0, 0, 20, 6, 64] @ xaddr_bytes (1, 1, 1, 1) @ xaddr_bytes (2, 2, 2, 2) @
     [9, 0, 80, 0] @ replicate 16 0"

lemma pkt64_short:
  "bpf_skb_change_proto nat_kernel pkt64 (bswap16 ETH_P_IP) 0 = Some (take 14 pkt64 @ drop 34 pkt64)"
  by (simp add: nat_kernel_def bpf_env.defs kernel_change_proto_def pkt64_def)

lemma q64_facts: "length (take 14 pkt64 @ drop 34 pkt64) = 54" "u16_at (take 14 pkt64 @ drop 34 pkt64) 36 = 80"
  "u16_at (take 14 pkt64 @ drop 34 pkt64) 34 = 9"
  by (simp_all add: pkt64_def le_word_def)

lemma nat_kernel_diff: "csum_diff_ok (bpf_csum_diff nat_kernel)" "csum_diff_total (bpf_csum_diff nat_kernel)"
  using kernel_csum_diff_ok
  by (simp_all add: nat_kernel_def bpf_env.defs kernel_env_def csum_diff_total_def kernel_csum_diff_def)

theorem dnat64_translates_witness:
  "\<exists>p' xf'. dp_do_dnat64 nat_kernel pkt64 xf64 = Some (Ret 0 p' xf') \<and> length p' = 54 \<and> tuple4 p' 14 34 = (4, 3, 9, 8080)"
proof -
  have f: "nw_proto (l34m xf64) = IPPROTO_TCP" "vlan0 (l2m xf64) = 0" "length (dl_dst (l2m xf64)) = 6" "length (dl_src (l2m xf64)) = 6"
    "l34_dest (l34m xf64) = 80" "nm_nrip (nm xf64) = (4, 0, 0, 0)" "nm_nxip (nm xf64) = (3, 0, 0, 0)" "nm_nxport (nm xf64) = 8080"
    by (simp_all add: xf64_def xfi0_def l2m0_def l34m0_def)
  have "54 \<le> length (take 14 pkt64 @ drop 34 pkt64)" "l34_dest (l34m xf64) = u16_at (take 14 pkt64 @ drop 34 pkt64) 36"
    unfolding q64_facts f by simp_all
  from dnat64_translates [OF nat_kernel_ok nat_kernel_diff pkt64_short this(1) f(1-4) this(2), unfolded q64_facts f fst_conv]
  show ?thesis by blast
qed

end
