(* ===== verification/Sk_Accel.thy ===== *)
theory Sk_Accel
  imports Bpf_Env
begin

text \<open>
  \<open>sk-accelerate-main\<close>: the socket hook \<open>bpf_sockops\<close>, which registers the sockets of connections between a service
  and its local proxy, and the message hook \<open>bpf_tcpip_bypass\<close>, which hands a message straight to the socket at the
  other end.  The theorems: the two ends of an accelerated connection reach each other, closing a connection undoes what
  opening it left in the auxiliary map, and a message never goes to a socket that is not its peer; sockets with mapped
  IPv4 addresses are never cleaned up.
\<close>

section \<open>Data\<close>

definition BPF_SOCK_OPS_ACTIVE_ESTABLISHED_CB :: u32 where "BPF_SOCK_OPS_ACTIVE_ESTABLISHED_CB = 4"
definition BPF_SOCK_OPS_PASSIVE_ESTABLISHED_CB :: u32 where "BPF_SOCK_OPS_PASSIVE_ESTABLISHED_CB = 5"
definition BPF_SOCK_OPS_STATE_CB :: u32 where "BPF_SOCK_OPS_STATE_CB = 10"
definition BPF_SOCK_OPS_STATE_CB_FLAG :: u32 where "BPF_SOCK_OPS_STATE_CB_FLAG = 4"
definition BPF_TCP_CLOSE :: u32 where "BPF_TCP_CLOSE = 7"
definition BPF_TCP_CLOSE_WAIT :: u32 where "BPF_TCP_CLOSE_WAIT = 8"
definition BPF_TCP_LAST_ACK :: u32 where "BPF_TCP_LAST_ACK = 9"
definition SK_PASS :: int where "SK_PASS = 1"

lemmas sock_defs = BPF_SOCK_OPS_ACTIVE_ESTABLISHED_CB_def BPF_SOCK_OPS_PASSIVE_ESTABLISHED_CB_def
  BPF_SOCK_OPS_STATE_CB_def BPF_TCP_CLOSE_def BPF_TCP_CLOSE_WAIT_def BPF_TCP_LAST_ACK_def

text \<open>The union of the two address forms: an IPv4 address is the first of the four words.\<close>

type_synonym sk_addr = "u32 \<times> u32 \<times> u32 \<times> u32"

abbreviation ip4 :: "u32 \<Rightarrow> sk_addr" where
  "ip4 a \<equiv> (a, 0, 0, 0)"

abbreviation get_ip4 :: "sk_addr \<Rightarrow> u32" where
  "get_ip4 \<equiv> fst"

text \<open>The padding of the key is always zero and left out.\<close>

record sock_key =
  src :: sk_addr
  dst :: sk_addr
  family :: u8
  sport :: u32
  dport :: u32

text \<open>A socket is known by a number.  \<open>cb_flags\<close> are the callbacks the kernel has been asked for.\<close>

type_synonym socket = nat

record sk_maps =
  sock_ops_map :: "sock_key \<rightharpoonup> socket"
  endpoints_to_service_map :: "u32 \<times> u32 \<rightharpoonup> u32 \<times> u32"
  sock_ops_aux_map :: "sock_key \<rightharpoonup> sock_key"
  cb_flags :: "socket \<Rightarrow> u32"

text \<open>The contexts the kernel passes.  \<open>local_port\<close> is in host byte order, \<open>remote_port\<close> has the port in
  network byte order in its upper half.\<close>

record bpf_sock_ops =
  op :: u32
  op_arg1 :: u32
  op_family :: u32
  op_remote_ip4 :: u32
  op_local_ip4 :: u32
  op_remote_ip6 :: sk_addr
  op_local_ip6 :: sk_addr
  op_remote_port :: u32
  op_local_port :: u32
  op_sk :: socket

record sk_msg_md =
  msg_family :: u32
  msg_remote_ip4 :: u32
  msg_local_ip4 :: u32
  msg_remote_ip6 :: sk_addr
  msg_local_ip6 :: sk_addr
  msg_remote_port :: u32
  msg_local_port :: u32

text \<open>What the kernel may refuse: a new key in the hash map, a socket in the socket map, a flag.\<close>

record sk_env =
  aux_room :: "(sock_key \<rightharpoonup> sock_key) \<Rightarrow> sock_key \<Rightarrow> bool"
  sock_room :: "(sock_key \<rightharpoonup> socket) \<Rightarrow> sock_key \<Rightarrow> bool"
  flag_ok :: "socket \<Rightarrow> bool"

section \<open>The socket hook\<close>

definition sk_extractv4_key :: "bpf_sock_ops \<Rightarrow> sock_key" where
  "sk_extractv4_key ops =
     \<lparr>src = ip4 (op_local_ip4 ops), dst = ip4 (op_remote_ip4 ops), family = 2,
      sport = drop_bit 16 (bswap32 (op_local_port ops)), dport = drop_bit 16 (op_remote_port ops)\<rparr>"

definition is_endpoint :: "sock_key \<Rightarrow> sk_maps \<Rightarrow> (u32 \<times> u32) option" where
  "is_endpoint key s = endpoints_to_service_map s (get_ip4 (src key), sport key)"

definition aux_update :: "sk_env \<Rightarrow> sock_key \<Rightarrow> sock_key \<Rightarrow> sk_maps \<Rightarrow> sk_maps" where
  "aux_update env k v s = (if sock_ops_aux_map s k \<noteq> None \<or> aux_room env (sock_ops_aux_map s) k
     then s\<lparr>sock_ops_aux_map := (sock_ops_aux_map s)(k \<mapsto> v)\<rparr> else s)"

definition aux_delete :: "sock_key \<Rightarrow> sk_maps \<Rightarrow> sk_maps" where
  "aux_delete k s = s\<lparr>sock_ops_aux_map := (sock_ops_aux_map s)(k := None)\<rparr>"

definition bpf_sock_hash_update :: "sk_env \<Rightarrow> socket \<Rightarrow> sock_key \<Rightarrow> sk_maps \<Rightarrow> sk_maps" where
  "bpf_sock_hash_update env sk k s = (if sock_room env (sock_ops_map s) k
     then s\<lparr>sock_ops_map := (sock_ops_map s)(k \<mapsto> sk)\<rparr> else s)"

definition bpf_sock_ops_cb_flags_set :: "sk_env \<Rightarrow> socket \<Rightarrow> u32 \<Rightarrow> sk_maps \<Rightarrow> sk_maps" where
  "bpf_sock_ops_cb_flags_set env sk f s =
     (if flag_ok env sk then s\<lparr>cb_flags := (cb_flags s)(sk := f)\<rparr> else s)"

definition bpf_sock_ops_ipv4 :: "sk_env \<Rightarrow> bpf_sock_ops \<Rightarrow> sk_maps \<Rightarrow> sk_maps" where
  "bpf_sock_ops_ipv4 env skops s = (
     let key = sk_extractv4_key skops;
         s = (case is_endpoint key s of
                None \<Rightarrow> s
              | Some (service_ip, service_port) \<Rightarrow>
                  let s = aux_update env
                            \<lparr>src = ip4 (get_ip4 (dst key)), dst = ip4 (get_ip4 (src key)), family = family key,
                             sport = dport key, dport = sport key\<rparr>
                            \<lparr>src = ip4 (get_ip4 (dst key)), dst = ip4 service_ip, family = family key,
                             sport = dport key, dport = service_port\<rparr> s;
                      s = aux_update env
                            \<lparr>src = ip4 service_ip, dst = ip4 (get_ip4 (dst key)), family = family key,
                             sport = service_port, dport = dport key\<rparr>
                            \<lparr>src = ip4 (get_ip4 (src key)), dst = ip4 (get_ip4 (dst key)), family = family key,
                             sport = sport key, dport = dport key\<rparr> s
                  in aux_update env
                       \<lparr>src = ip4 (get_ip4 (dst key)), dst = ip4 0, family = 0, sport = dport key, dport = 0\<rparr>
                       \<lparr>src = ip4 (get_ip4 (src key)), dst = ip4 0, family = 0, sport = sport key, dport = 0\<rparr> s);
         s = bpf_sock_hash_update env (op_sk skops) key s
     in bpf_sock_ops_cb_flags_set env (op_sk skops) BPF_SOCK_OPS_STATE_CB_FLAG s)"

definition bpf_sock_ops_ipv4_cleanup :: "bpf_sock_ops \<Rightarrow> sk_maps \<Rightarrow> sk_maps" where
  "bpf_sock_ops_ipv4_cleanup skops s = (
     let key = sk_extractv4_key skops;
         own = \<lparr>src = ip4 (get_ip4 (src key)), dst = ip4 0, family = 0, sport = sport key, dport = 0\<rparr>
     in case sock_ops_aux_map s key of
          None \<Rightarrow>
            (case sock_ops_aux_map s own of
               None \<Rightarrow> s
             | Some value1 \<Rightarrow>
                 let key2 = \<lparr>src = ip4 (get_ip4 (src key)), dst = ip4 (get_ip4 (src value1)), family = family key,
                             sport = sport key, dport = sport value1\<rparr>;
                     key3 = \<lparr>src = ip4 (get_ip4 (dst key)), dst = ip4 (get_ip4 (src key)), family = family key,
                             sport = dport key, dport = sport key\<rparr>
                 in aux_delete own (aux_delete key3 (aux_delete key2 s)))
        | Some value \<Rightarrow>
            let key1 = \<lparr>src = ip4 (get_ip4 (dst value)), dst = ip4 (get_ip4 (src value)), family = family value,
                        sport = dport value, dport = sport value\<rparr>
            in aux_delete own (aux_delete key1 (aux_delete key s)))"

definition sk_extractv6_key :: "bpf_sock_ops \<Rightarrow> sock_key" where
  "sk_extractv6_key ops =
     \<lparr>src = op_local_ip6 ops, dst = op_remote_ip6 ops, family = 10,
      sport = drop_bit 16 (bswap32 (op_local_port ops)), dport = drop_bit 16 (op_remote_port ops)\<rparr>"

definition bpf_sock_ops_ipv6 :: "sk_env \<Rightarrow> bpf_sock_ops \<Rightarrow> sk_maps \<Rightarrow> sk_maps" where
  "bpf_sock_ops_ipv6 env skops s = bpf_sock_hash_update env (op_sk skops) (sk_extractv6_key skops) s"

definition bpf_sockops :: "sk_env \<Rightarrow> bpf_sock_ops \<Rightarrow> sk_maps \<Rightarrow> sk_maps" where
  "bpf_sockops env skops s =
     (if op skops = BPF_SOCK_OPS_PASSIVE_ESTABLISHED_CB \<or> op skops = BPF_SOCK_OPS_ACTIVE_ESTABLISHED_CB then
        (if op_family skops = 2 then bpf_sock_ops_ipv4 env skops s
         else if op_family skops = 10 then
           (if op_remote_ip4 skops \<noteq> 0 \<and> op_remote_ip4 skops \<noteq> 0x600007f then bpf_sock_ops_ipv4 env skops s
            else bpf_sock_ops_ipv6 env skops s)
         else s)
      else if op skops = BPF_SOCK_OPS_STATE_CB then
        (if op_arg1 skops = BPF_TCP_CLOSE \<or> op_arg1 skops = BPF_TCP_CLOSE_WAIT \<or> op_arg1 skops = BPF_TCP_LAST_ACK then
           (if op_family skops = 2 then bpf_sock_ops_ipv4_cleanup skops s else s)
         else s)
      else s)"

section \<open>The message hook\<close>

definition sk_msg_extract4_key :: "sk_msg_md \<Rightarrow> sock_key" where
  "sk_msg_extract4_key msg =
     \<lparr>src = ip4 (msg_remote_ip4 msg), dst = ip4 (msg_local_ip4 msg), family = 2,
      sport = drop_bit 16 (msg_remote_port msg), dport = drop_bit 16 (bswap32 (msg_local_port msg))\<rparr>"

definition sk_msg_extract6_key :: "sk_msg_md \<Rightarrow> sock_key" where
  "sk_msg_extract6_key msg =
     \<lparr>src = msg_remote_ip6 msg, dst = msg_local_ip6 msg, family = 10,
      sport = drop_bit 16 (msg_remote_port msg), dport = drop_bit 16 (bswap32 (msg_local_port msg))\<rparr>"

text \<open>The verdict and the socket the message is handed to, if \<open>bpf_msg_redirect_hash\<close> found one.\<close>

definition bpf_tcpip_bypass :: "sk_msg_md \<Rightarrow> sk_maps \<Rightarrow> int \<times> socket option" where
  "bpf_tcpip_bypass msg s = (
     let k = (if msg_family msg = 2 then Some (sk_msg_extract4_key msg)
              else if msg_family msg = 10 then
                Some (if msg_remote_ip4 msg \<noteq> 0 then sk_msg_extract4_key msg else sk_msg_extract6_key msg)
              else None)
     in case k of None \<Rightarrow> (SK_PASS, None)
        | Some key \<Rightarrow>
            (case sock_ops_aux_map s key of
               Some aux_key \<Rightarrow> (SK_PASS, sock_ops_map s aux_key)
             | None \<Rightarrow> (SK_PASS, sock_ops_map s key)))"

section \<open>Connections\<close>

text \<open>An end of a connection is an address, in network byte order as everywhere, and a port.  What the kernel
  reports about a socket of the connection, and the key the programs make of it.\<close>

type_synonym endpoint = "u32 \<times> u16"

definition net_port :: "u16 \<Rightarrow> u32" where
  "net_port p = ucast (bswap16 p)"

definition sock_event :: "u32 \<Rightarrow> u32 \<Rightarrow> u32 \<Rightarrow> socket \<Rightarrow> endpoint \<Rightarrow> endpoint \<Rightarrow> bpf_sock_ops" where
  "sock_event ev arg fam sk l r = \<lparr>op = ev, op_arg1 = arg, op_family = fam, op_remote_ip4 = fst r, op_local_ip4 = fst l,
     op_remote_ip6 = (0, 0, 0, 0), op_local_ip6 = (0, 0, 0, 0), op_remote_port = push_bit 16 (net_port (snd r)),
     op_local_port = ucast (snd l), op_sk = sk\<rparr>"

definition msg_from :: "u32 \<Rightarrow> endpoint \<Rightarrow> endpoint \<Rightarrow> sk_msg_md" where
  "msg_from fam l r = \<lparr>msg_family = fam, msg_remote_ip4 = fst r, msg_local_ip4 = fst l,
     msg_remote_ip6 = (0, 0, 0, 0), msg_local_ip6 = (0, 0, 0, 0), msg_remote_port = push_bit 16 (net_port (snd r)),
     msg_local_port = ucast (snd l)\<rparr>"

definition conn_key :: "endpoint \<Rightarrow> endpoint \<Rightarrow> sock_key" where
  "conn_key l r = \<lparr>src = ip4 (fst l), dst = ip4 (fst r), family = 2, sport = net_port (snd l), dport = net_port (snd r)\<rparr>"

definition own_key :: "endpoint \<Rightarrow> sock_key" where
  "own_key l = \<lparr>src = ip4 (fst l), dst = ip4 0, family = 0, sport = net_port (snd l), dport = 0\<rparr>"

lemma local_port_net: "drop_bit 16 (bswap32 (ucast p)) = net_port p"
proof -
  have m: "(0xff00 :: u32) = push_bit 8 (mask 8)" "(0xff0000 :: u32) = push_bit 16 (mask 8)"
    by (simp_all add: mask_eq_exp_minus_1 push_bit_eq_mult)
  show ?thesis unfolding bswap32_def net_port_def m
    by (rule bit_word_eqI) (auto simp: bit_simps bswap16_bit add.commute dest: bit_imp_le_length)
qed

lemma remote_port_net: "drop_bit 16 (push_bit 16 (net_port p)) = net_port p"
  unfolding net_port_def by (rule bit_word_eqI) (auto simp: bit_simps bswap16_bit dest: bit_imp_le_length)

lemma net_port_inj [simp]: "net_port p = net_port q \<longleftrightarrow> p = q"
proof
  assume "net_port p = net_port q"
  then have "(ucast (net_port p) :: u16) = ucast (net_port q)" by simp
  moreover have "(ucast (net_port x) :: u16) = bswap16 x" for x
    unfolding net_port_def by (rule bit_word_eqI) (auto simp: bit_simps bswap16_bit)
  ultimately have "bswap16 p = bswap16 q" by simp
  then show "p = q" by (metis bswap16_bswap16)
qed simp

lemma conn_key_inj [simp]: "conn_key l r = conn_key l' r' \<longleftrightarrow> l = l' \<and> r = r'"
  by (auto simp: conn_key_def prod_eq_iff)

lemma own_key_inj [simp]: "own_key l = own_key l' \<longleftrightarrow> l = l'"
  by (auto simp: own_key_def prod_eq_iff)

lemma own_conn [simp]: "own_key l \<noteq> conn_key l' r'" "conn_key l' r' \<noteq> own_key l"
  by (simp_all add: own_key_def conn_key_def)

lemma extract_event [simp]: "sk_extractv4_key (sock_event ev arg fam sk l r) = conn_key l r"
  by (simp add: sk_extractv4_key_def sock_event_def conn_key_def local_port_net remote_port_net)

lemma extract_msg [simp]: "sk_msg_extract4_key (msg_from fam l r) = conn_key r l"
  by (simp add: sk_msg_extract4_key_def msg_from_def conn_key_def local_port_net remote_port_net)

lemma conn_key_simps [simp]:
  "src (conn_key l r) = ip4 (fst l)" "dst (conn_key l r) = ip4 (fst r)" "family (conn_key l r) = 2"
  "sport (conn_key l r) = net_port (snd l)" "dport (conn_key l r) = net_port (snd r)"
  by (simp_all add: conn_key_def)

text \<open>The service an endpoint belongs to, as the controller has registered it.\<close>

definition serves :: "sk_maps \<Rightarrow> endpoint \<Rightarrow> endpoint \<Rightarrow> bool" where
  "serves s b v \<longleftrightarrow> endpoints_to_service_map s (fst b, net_port (snd b)) = Some (fst v, net_port (snd v))"

definition no_service :: "sk_maps \<Rightarrow> endpoint \<Rightarrow> bool" where
  "no_service s c \<longleftrightarrow> endpoints_to_service_map s (fst c, net_port (snd c)) = None"

definition roomy :: "sk_env \<Rightarrow> bool" where
  "roomy env \<longleftrightarrow> (\<forall>m k. aux_room env m k) \<and> (\<forall>m k. sock_room env m k)"

lemma ipv4_no_service:
  assumes "roomy env" and "no_service s c"
  shows "bpf_sock_ops_ipv4 env (sock_event ev arg fam sk c r) s = bpf_sock_ops_cb_flags_set env sk BPF_SOCK_OPS_STATE_CB_FLAG
    (s\<lparr>sock_ops_map := (sock_ops_map s)(conn_key c r \<mapsto> sk)\<rparr>)"
  using assms by (simp add: bpf_sock_ops_ipv4_def is_endpoint_def no_service_def roomy_def bpf_sock_hash_update_def
      sock_event_def Let_def extract_event [unfolded sock_event_def])

lemma ipv4_service:
  assumes "roomy env" and "serves s b v"
  shows "bpf_sock_ops_ipv4 env (sock_event ev arg fam sk b c) s = bpf_sock_ops_cb_flags_set env sk BPF_SOCK_OPS_STATE_CB_FLAG
    (s\<lparr>sock_ops_aux_map := (sock_ops_aux_map s)(conn_key c b \<mapsto> conn_key c v, conn_key v c \<mapsto> conn_key b c,
         own_key c \<mapsto> own_key b),
       sock_ops_map := (sock_ops_map s)(conn_key b c \<mapsto> sk)\<rparr>)"
  using assms by (simp add: bpf_sock_ops_ipv4_def is_endpoint_def serves_def roomy_def bpf_sock_hash_update_def aux_update_def
      Let_def conn_key_def own_key_def)
    (simp add: sock_event_def)

lemma cb_flags_set_simps [simp]:
  "sock_ops_map (bpf_sock_ops_cb_flags_set env sk f s) = sock_ops_map s"
  "sock_ops_aux_map (bpf_sock_ops_cb_flags_set env sk f s) = sock_ops_aux_map s"
  "endpoints_to_service_map (bpf_sock_ops_cb_flags_set env sk f s) = endpoints_to_service_map s"
  "serves (bpf_sock_ops_cb_flags_set env sk f s) = serves s"
  "no_service (bpf_sock_ops_cb_flags_set env sk f s) = no_service s"
  by (auto simp: bpf_sock_ops_cb_flags_set_def serves_def no_service_def fun_eq_iff)


section \<open>The two ends of a connection find each other\<close>

definition est_client :: "u32 \<Rightarrow> socket \<Rightarrow> endpoint \<Rightarrow> endpoint \<Rightarrow> bpf_sock_ops" where
  "est_client fam sk c v = sock_event BPF_SOCK_OPS_ACTIVE_ESTABLISHED_CB 0 fam sk c v"

definition est_server :: "u32 \<Rightarrow> socket \<Rightarrow> endpoint \<Rightarrow> endpoint \<Rightarrow> bpf_sock_ops" where
  "est_server fam sk b c = sock_event BPF_SOCK_OPS_PASSIVE_ESTABLISHED_CB 0 fam sk b c"

definition closes :: "u32 \<Rightarrow> u32 \<Rightarrow> socket \<Rightarrow> endpoint \<Rightarrow> endpoint \<Rightarrow> bpf_sock_ops" where
  "closes arg fam sk c v = sock_event BPF_SOCK_OPS_STATE_CB arg fam sk c v"

text \<open>IPv4 sockets: of the family AF\_INET, or of AF\_INET6 with an IPv4 peer other than 127.0.0.6.\<close>

definition v4_sock :: "u32 \<Rightarrow> endpoint \<Rightarrow> bool" where
  "v4_sock fam r \<longleftrightarrow> fam = 2 \<or> fam = 10 \<and> fst r \<noteq> 0 \<and> fst r \<noteq> 0x600007f"

lemma sockops_est:
  assumes "v4_sock fam r" and "roomy env"
  shows "no_service s l \<Longrightarrow> bpf_sockops env (est_client fam sk l r) s =
      bpf_sock_ops_cb_flags_set env sk BPF_SOCK_OPS_STATE_CB_FLAG (s\<lparr>sock_ops_map := (sock_ops_map s)(conn_key l r \<mapsto> sk)\<rparr>)"
    "serves s l v \<Longrightarrow> bpf_sockops env (est_server fam sk l r) s =
      bpf_sock_ops_cb_flags_set env sk BPF_SOCK_OPS_STATE_CB_FLAG
        (s\<lparr>sock_ops_aux_map := (sock_ops_aux_map s)(conn_key r l \<mapsto> conn_key r v, conn_key v r \<mapsto> conn_key l r,
             own_key r \<mapsto> own_key l),
           sock_ops_map := (sock_ops_map s)(conn_key l r \<mapsto> sk)\<rparr>)"
proof -
  have "op (sock_event ev arg fam sk l r) = ev" "op_family (sock_event ev arg fam sk l r) = fam"
    "op_remote_ip4 (sock_event ev arg fam sk l r) = fst r" for ev arg by (simp_all add: sock_event_def)
  then have "bpf_sockops env (est_client fam sk l r) s = bpf_sock_ops_ipv4 env (est_client fam sk l r) s"
    "bpf_sockops env (est_server fam sk l r) s = bpf_sock_ops_ipv4 env (est_server fam sk l r) s"
    using assms(1) by (auto simp: bpf_sockops_def est_client_def est_server_def v4_sock_def)
  then show "no_service s l \<Longrightarrow> bpf_sockops env (est_client fam sk l r) s =
      bpf_sock_ops_cb_flags_set env sk BPF_SOCK_OPS_STATE_CB_FLAG (s\<lparr>sock_ops_map := (sock_ops_map s)(conn_key l r \<mapsto> sk)\<rparr>)"
    "serves s l v \<Longrightarrow> bpf_sockops env (est_server fam sk l r) s =
      bpf_sock_ops_cb_flags_set env sk BPF_SOCK_OPS_STATE_CB_FLAG
        (s\<lparr>sock_ops_aux_map := (sock_ops_aux_map s)(conn_key r l \<mapsto> conn_key r v, conn_key v r \<mapsto> conn_key l r,
             own_key r \<mapsto> own_key l),
           sock_ops_map := (sock_ops_map s)(conn_key l r \<mapsto> sk)\<rparr>)"
    by (simp_all add: est_client_def est_server_def ipv4_no_service [OF assms(2)] ipv4_service [OF assms(2)])
qed

lemma bypass_msg:
  assumes "v4_sock fam r"
  shows "bpf_tcpip_bypass (msg_from fam l r) s = (SK_PASS, case sock_ops_aux_map s (conn_key r l) of
    Some k \<Rightarrow> sock_ops_map s k | None \<Rightarrow> sock_ops_map s (conn_key r l))"
  using assms extract_msg [of fam l r]
  by (auto simp: bpf_tcpip_bypass_def v4_sock_def msg_from_def split: option.split)

text \<open>The maps after both ends are established, in whatever order.\<close>

lemma both_established:
  assumes "roomy env" and "serves s b v" and "no_service s c" and "v4_sock f1 v" and "v4_sock f2 c"
    and "es = [est_client f1 sk1 c v, est_server f2 sk2 b c] \<or> es = [est_server f2 sk2 b c, est_client f1 sk1 c v]"
    and "c \<noteq> v"
  shows "sock_ops_aux_map (fold (bpf_sockops env) es s) =
      (sock_ops_aux_map s)(conn_key c b \<mapsto> conn_key c v, conn_key v c \<mapsto> conn_key b c, own_key c \<mapsto> own_key b)"
    "sock_ops_map (fold (bpf_sockops env) es s) = (sock_ops_map s)(conn_key c v \<mapsto> sk1, conn_key b c \<mapsto> sk2)"
proof -
  note c = sockops_est(1) [OF assms(4,1)] and b = sockops_est(2) [OF assms(5,1), where v = v]
  have k: "no_service (s\<lparr>sock_ops_map := m, sock_ops_aux_map := a\<rparr>) = no_service s"
    "no_service (s\<lparr>sock_ops_aux_map := a, sock_ops_map := m\<rparr>) = no_service s"
    "serves (s\<lparr>sock_ops_map := m\<rparr>) = serves s" for m a
    by (simp_all add: no_service_def serves_def fun_eq_iff)
  show "sock_ops_map (fold (bpf_sockops env) es s) = (sock_ops_map s)(conn_key c v \<mapsto> sk1, conn_key b c \<mapsto> sk2)"
    using assms(6)
  proof
    assume "es = [est_client f1 sk1 c v, est_server f2 sk2 b c]"
    then show ?thesis using assms(2,3) by (simp add: c b k)
  next
    assume "es = [est_server f2 sk2 b c, est_client f1 sk1 c v]"
    then show ?thesis using assms(2,3,7) by (simp add: c b k fun_upd_twist)
  qed
  show "sock_ops_aux_map (fold (bpf_sockops env) es s) =
      (sock_ops_aux_map s)(conn_key c b \<mapsto> conn_key c v, conn_key v c \<mapsto> conn_key b c, own_key c \<mapsto> own_key b)"
    using assms(2,3,6) by (auto simp: c b k)
qed


definition accel0 :: "sk_maps" where
  "accel0 = \<lparr>sock_ops_map = Map.empty, endpoints_to_service_map = [(2, net_port 80) \<mapsto> (9, net_port 8080)],
     sock_ops_aux_map = Map.empty, cb_flags = (\<lambda>_. 0)\<rparr>"

definition free_env :: sk_env where
  "free_env = \<lparr>aux_room = (\<lambda>_ _. True), sock_room = (\<lambda>_ _. True), flag_ok = (\<lambda>_. True)\<rparr>"

lemma accel0_ok: "roomy free_env" "serves accel0 (2, 80) (9, 8080)" "no_service accel0 (1, 4711)"
  by (simp_all add: roomy_def free_env_def serves_def no_service_def accel0_def)


section \<open>Cleaning up\<close>

definition closing :: "u32 set" where
  "closing = {BPF_TCP_CLOSE, BPF_TCP_CLOSE_WAIT, BPF_TCP_LAST_ACK}"

lemma sockops_closes:
  assumes "arg \<in> closing"
  shows "bpf_sockops env (closes arg 2 sk l r) s = bpf_sock_ops_ipv4_cleanup (closes arg 2 sk l r) s"
  using assms by (auto simp: bpf_sockops_def closes_def sock_event_def closing_def sock_defs)

text \<open>Closing undoes the bookkeeping: when the client closes an accelerated connection, of whatever closing state the
  kernel tells, the auxiliary map is again what it was before the connection (where none of
  its keys was in use before); a second report changes nothing more.\<close>

theorem close_restores_aux:
  assumes "roomy env" and "serves s b v" and "no_service s c" and "v4_sock f2 c" and "c \<noteq> v" and "b \<noteq> v" and "b \<noteq> c"
    and "es = [est_client 2 sk1 c v, est_server f2 sk2 b c] \<or> es = [est_server f2 sk2 b c, est_client 2 sk1 c v]"
    and "sock_ops_aux_map s (conn_key c b) = None" and "sock_ops_aux_map s (conn_key v c) = None"
    and "sock_ops_aux_map s (own_key c) = None" and "sock_ops_aux_map s (conn_key c v) = None"
    and "args \<noteq> []" and "set args \<subseteq> closing"
  shows "sock_ops_aux_map (fold (\<lambda>a. bpf_sockops env (closes a 2 sk1 c v)) args (fold (bpf_sockops env) es s)) =
    sock_ops_aux_map s"
proof -
  define m where "m = sock_ops_aux_map s"
  have v: "v4_sock 2 v" by (simp add: v4_sock_def)
  have a: "sock_ops_aux_map (fold (bpf_sockops env) es s) =
    m(conn_key c b \<mapsto> conn_key c v, conn_key v c \<mapsto> conn_key b c, own_key c \<mapsto> own_key b)"
    unfolding m_def by (rule both_established(1) [OF assms(1-3) v assms(4,8,5)])
  have key: "\<lparr>src = ip4 (fst x), dst = ip4 (fst y), family = 2, sport = net_port (snd x), dport = net_port (snd y)\<rparr> = conn_key x y"
    "\<lparr>src = ip4 (fst x), dst = ip4 0, family = 0, sport = net_port (snd x), dport = 0\<rparr> = own_key x" for x y
    by (simp_all add: conn_key_def own_key_def)
  have own: "src (own_key b) = ip4 (fst b)" "sport (own_key b) = net_port (snd b)" by (simp_all add: own_key_def)
  have first: "sock_ops_aux_map (bpf_sockops env (closes x 2 sk1 c v) t) = m"
    if "x \<in> closing" and "sock_ops_aux_map t = m(conn_key c b \<mapsto> conn_key c v, conn_key v c \<mapsto> conn_key b c, own_key c \<mapsto> own_key b)"
    for x t
    unfolding sockops_closes [OF that(1)] using that(2) assms(5,6,7,9-12)
    by (auto simp: bpf_sock_ops_ipv4_cleanup_def closes_def aux_delete_def key own m_def
        fun_eq_iff Let_def)
  have again: "sock_ops_aux_map (bpf_sockops env (closes x 2 sk1 c v) t) = m" if "x \<in> closing" and "sock_ops_aux_map t = m" for x t
    unfolding sockops_closes [OF that(1)] using that(2) assms(11,12) by (simp add: bpf_sock_ops_ipv4_cleanup_def closes_def key m_def Let_def)
  have rest: "sock_ops_aux_map (fold (\<lambda>a. bpf_sockops env (closes a 2 sk1 c v)) as t) = m"
    if "set as \<subseteq> closing" and "sock_ops_aux_map t = m" for as t
    using that by (induction as arbitrary: t) (simp_all add: again)
  obtain x xs where "args = x # xs" using assms(13) by (cases args) auto
  then show ?thesis using assms(14) rest [of xs] first [OF _ a, of x] by (simp add: m_def)
qed

theorem close_restores_aux_witness:
  "sock_ops_aux_map (fold (\<lambda>a. bpf_sockops free_env (closes a 2 11 (1, 4711) (9, 8080))) [8, 9, 7]
     (fold (bpf_sockops free_env) [est_client 2 11 (1, 4711) (9, 8080), est_server 2 22 (2, 80) (1, 4711)] accel0)) = Map.empty"
proof -
  have e: "sock_ops_aux_map accel0 = Map.empty" by (simp add: accel0_def)
  show ?thesis
    using close_restores_aux [OF accel0_ok, of 2 "[est_client 2 11 (1, 4711) (9, 8080), est_server 2 22 (2, 80) (1, 4711)]" 11 22 "[8, 9, 7]"]
    by (simp add: e v4_sock_def closing_def sock_defs)
qed

text \<open>A socket of the family AF\_INET6 with an IPv4 peer is accelerated like any other, but nothing is cleaned up for it:
  its entries of the auxiliary map stay for ever, whatever the kernel reports of the sockets afterwards.\<close>

theorem mapped_sockets_leak:
  assumes "roomy env" and "serves s b v" and "no_service s c" and "v4_sock 10 v" and "v4_sock 10 c" and "c \<noteq> v"
    and "\<forall>e\<in>set later. op e = BPF_SOCK_OPS_STATE_CB \<and> op_family e = 10"
  shows "sock_ops_aux_map (fold (bpf_sockops env) ([est_client 10 sk1 c v, est_server 10 sk2 b c] @ later) s) =
    (sock_ops_aux_map s)(conn_key c b \<mapsto> conn_key c v, conn_key v c \<mapsto> conn_key b c, own_key c \<mapsto> own_key b)"
proof -
  have "fold (bpf_sockops env) later t = t" for t
    using assms(7) by (induction later arbitrary: t) (simp_all add: bpf_sockops_def sock_defs)
  then show ?thesis
    using both_established(1) [OF assms(1-5) disjI1 [OF refl] assms(6), of sk1 sk2] by simp
qed

theorem mapped_sockets_leak_witness:
  "sock_ops_aux_map (fold (bpf_sockops free_env) ([est_client 10 11 (1, 4711) (9, 8080), est_server 10 22 (2, 80) (1, 4711)] @
     [closes 7 10 11 (1, 4711) (9, 8080), closes 7 10 22 (2, 80) (1, 4711)]) accel0) (conn_key (9, 8080) (1, 4711)) =
     Some (conn_key (2, 80) (1, 4711))"
  using mapped_sockets_leak [OF accel0_ok, of "[closes 7 10 11 (1, 4711) (9, 8080), closes 7 10 22 (2, 80) (1, 4711)]" 11 22]
  by (simp add: v4_sock_def closes_def sock_event_def)

section \<open>No message to a stranger\<close>

text \<open>The histories of a node: any events of any sockets, newest first, under a table of endpoints.\<close>

definition sk_init :: "(u32 \<times> u32 \<rightharpoonup> u32 \<times> u32) \<Rightarrow> sk_maps" where
  "sk_init ep = \<lparr>sock_ops_map = Map.empty, endpoints_to_service_map = ep, sock_ops_aux_map = Map.empty, cb_flags = (\<lambda>_. 0)\<rparr>"

inductive sk_reach :: "sk_env \<Rightarrow> (u32 \<times> u32 \<rightharpoonup> u32 \<times> u32) \<Rightarrow> bpf_sock_ops list \<Rightarrow> sk_maps \<Rightarrow> bool" for env ep where
  init: "sk_reach env ep [] (sk_init ep)"
| event: "sk_reach env ep es s \<Longrightarrow> sk_reach env ep (e # es) (bpf_sockops env e s)"

definition is_established :: "bpf_sock_ops \<Rightarrow> bool" where
  "is_established e \<longleftrightarrow> op e \<in> {BPF_SOCK_OPS_PASSIVE_ESTABLISHED_CB, BPF_SOCK_OPS_ACTIVE_ESTABLISHED_CB}"

definition registered :: "bpf_sock_ops list \<Rightarrow> sock_key \<Rightarrow> socket \<Rightarrow> bool" where
  "registered es k sk \<longleftrightarrow> (\<exists>e\<in>set es. is_established e \<and> op_sk e = sk \<and> (k = sk_extractv4_key e \<or> k = sk_extractv6_key e))"

text \<open>Two keys name the same connection, one with the pod and one with its service at one of the ends.\<close>

definition same_conn :: "(u32 \<times> u32 \<rightharpoonup> u32 \<times> u32) \<Rightarrow> sock_key \<Rightarrow> sock_key \<Rightarrow> bool" where
  "same_conn ep k t \<longleftrightarrow> family t = 2 \<and> family k = 2 \<and>
     (src t = src k \<and> sport t = sport k \<and> ep (get_ip4 (dst k), dport k) = Some (get_ip4 (dst t), dport t) \<or>
      dst t = dst k \<and> dport t = dport k \<and> ep (get_ip4 (src t), sport t) = Some (get_ip4 (src k), sport k))"

definition sk_inv :: "(u32 \<times> u32 \<rightharpoonup> u32 \<times> u32) \<Rightarrow> bpf_sock_ops list \<Rightarrow> sk_maps \<Rightarrow> bool" where
  "sk_inv ep es s \<longleftrightarrow> endpoints_to_service_map s = ep \<and>
     (\<forall>k sk. sock_ops_map s k = Some sk \<longrightarrow> registered es k sk) \<and>
     (\<forall>k t. sock_ops_aux_map s k = Some t \<longrightarrow> family k = 0 \<or> same_conn ep k t)"

lemma registered_more: "registered es k sk \<Longrightarrow> registered (e # es) k sk"
  by (auto simp: registered_def)

lemma sk_inv_more: "sk_inv ep es s \<Longrightarrow> sk_inv ep (e # es) s"
  by (auto simp: sk_inv_def registered_more)

lemma sk_inv_aux:
  assumes "sk_inv ep es s" and "family k = 0 \<or> same_conn ep k t"
  shows "sk_inv ep es (aux_update env k t s)"
  using assms by (auto simp: sk_inv_def aux_update_def)

lemma sk_inv_delete: "sk_inv ep es s \<Longrightarrow> sk_inv ep es (aux_delete k s)"
  by (auto simp: sk_inv_def aux_delete_def)

lemma sk_inv_sock:
  "sk_inv ep es s \<Longrightarrow> registered es k sk \<Longrightarrow> sk_inv ep es (bpf_sock_hash_update env sk k s)"
  by (auto simp: sk_inv_def bpf_sock_hash_update_def)

lemma sk_inv_flag: "sk_inv ep es s \<Longrightarrow> sk_inv ep es (bpf_sock_ops_cb_flags_set env sk f s)"
  by (auto simp: sk_inv_def)

lemmas sk_inv_intros = sk_inv_aux sk_inv_delete sk_inv_sock sk_inv_flag

lemma sk_inv_ipv4:
  assumes "sk_inv ep es s" and "is_established e" and "e \<in> set es"
  shows "sk_inv ep es (bpf_sock_ops_ipv4 env e s)"
proof -
  have r: "registered es (sk_extractv4_key e) (op_sk e)" using assms(2,3) by (auto simp: registered_def)
  show ?thesis
  proof (cases "is_endpoint (sk_extractv4_key e) s")
    case None
    then show ?thesis using assms(1) r by (simp add: bpf_sock_ops_ipv4_def sk_inv_intros)
  next
    case (Some v)
    then have "ep (get_ip4 (src (sk_extractv4_key e)), sport (sk_extractv4_key e)) = Some v"
      using assms(1) by (simp add: is_endpoint_def sk_inv_def)
    moreover have "family (sk_extractv4_key e) = 2" by (simp add: sk_extractv4_key_def)
    ultimately show ?thesis using Some
      by (cases v) (auto simp: bpf_sock_ops_ipv4_def same_conn_def Let_def intro!: sk_inv_intros assms(1) r)
  qed
qed

lemma sk_inv_cleanup: "sk_inv ep es s \<Longrightarrow> sk_inv ep es (bpf_sock_ops_ipv4_cleanup e s)"
  by (simp add: bpf_sock_ops_ipv4_cleanup_def Let_def sk_inv_delete split: option.split)

lemma sk_inv_step:
  assumes "sk_inv ep es s" and "e \<in> set es"
  shows "sk_inv ep es (bpf_sockops env e s)"
proof -
  have "sk_inv ep es (bpf_sock_ops_ipv6 env e s)" if "is_established e"
    unfolding bpf_sock_ops_ipv6_def using assms that by (auto intro!: sk_inv_sock simp: registered_def)
  then show ?thesis using assms
    by (simp add: bpf_sockops_def sk_inv_ipv4 sk_inv_cleanup is_established_def)
qed

lemma sk_reach_inv: "sk_reach env ep es s \<Longrightarrow> sk_inv ep es s"
proof (induction rule: sk_reach.induct)
  case init
  then show ?case by (simp add: sk_inv_def sk_init_def)
next
  case (event es s e)
  then show ?case by (intro sk_inv_step sk_inv_more) simp_all
qed

definition msg_key :: "sk_msg_md \<Rightarrow> sock_key" where
  "msg_key msg = (if msg_family msg = 2 \<or> msg_remote_ip4 msg \<noteq> 0 then sk_msg_extract4_key msg else sk_msg_extract6_key msg)"

text \<open>C27: No message reaches a stranger: after any history of any sockets, a socket a message is handed to has been established
  under the key of the other end of the connection the message belongs to, or under the key that differs from it
  only in having the pod for its service or the service for its pod at one end.\<close>

theorem redirect_to_peer_only:
  assumes "sk_reach env ep es s" and "bpf_tcpip_bypass msg s = (verdict, Some sk)"
  shows "verdict = SK_PASS \<and> (\<exists>t. registered es t sk \<and> (t = msg_key msg \<or> same_conn ep (msg_key msg) t))"
proof -
  have i: "sk_inv ep es s" by (rule sk_reach_inv [OF assms(1)])
  have f: "family (msg_key msg) \<noteq> 0" by (simp add: msg_key_def sk_msg_extract4_key_def sk_msg_extract6_key_def)
  have b: "verdict = SK_PASS"
    "(case sock_ops_aux_map s (msg_key msg) of Some k \<Rightarrow> sock_ops_map s k | None \<Rightarrow> sock_ops_map s (msg_key msg)) = Some sk"
    using assms(2) by (auto simp: bpf_tcpip_bypass_def msg_key_def split: option.splits if_splits)
  show ?thesis
  proof (cases "sock_ops_aux_map s (msg_key msg)")
    case None
    then show ?thesis using b i by (auto simp: sk_inv_def)
  next
    case (Some t)
    then have "registered es t sk" "same_conn ep (msg_key msg) t" using b i f by (auto simp: sk_inv_def)
    then show ?thesis using b(1) by blast
  qed
qed

theorem redirect_to_peer_only_witness:
  "\<exists>t. registered [est_client 2 11 (1, 4711) (9, 8080), est_server 2 22 (2, 80) (1, 4711)] t 22 \<and>
     (t = msg_key (msg_from 2 (1, 4711) (9, 8080)) \<or>
      same_conn [(2, net_port 80) \<mapsto> (9, net_port 8080)] (msg_key (msg_from 2 (1, 4711) (9, 8080))) t)"
proof -
  let ?ep = "[(2, net_port 80) \<mapsto> (9, net_port 8080)] :: u32 \<times> u32 \<rightharpoonup> u32 \<times> u32"
  let ?es = "[est_server 2 22 (2, 80) (1, 4711), est_client 2 11 (1, 4711) (9, 8080)]"
  have r: "sk_reach free_env ?ep (rev ?es) (fold (bpf_sockops free_env) ?es (sk_init ?ep))"
    by (auto intro!: sk_reach.intros)
  have i: "sk_init ?ep = accel0" by (simp add: sk_init_def accel0_def)
  have v: "v4_sock 2 x" for x by (simp add: v4_sock_def)
  have "bpf_tcpip_bypass (msg_from 2 (1, 4711) (9, 8080)) (fold (bpf_sockops free_env) ?es (sk_init ?ep)) = (SK_PASS, Some 22)"
    using both_established [OF accel0_ok v v disjI2 [OF refl], of 22 11] unfolding i bypass_msg [OF v] by simp
  from redirect_to_peer_only [OF r this] show ?thesis by simp
qed

end
