(* ===== verification/Netobserv.thy ===== *)
theory Netobserv
  imports Tc_Env
begin

text \<open>
  \<open>netobserv-bpf-main\<close>: the flow monitor of \<open>flows.c\<close>, attached to both directions of an interface.  The theorems: the
  flow table always is the summary of the packets seen (a refinement of the map from histories to records), no packet is lost and none counted
  twice between the table and the ring buffer, and two packets are of the same flow exactly if the fields of their headers agree.
\<close>

section \<open>Data\<close>

definition INGRESS :: u8 where "INGRESS = 0"
definition EGRESS :: u8 where "EGRESS = 1"

definition FIN_FLAG :: u16 where "FIN_FLAG = 0x01"
definition SYN_FLAG :: u16 where "SYN_FLAG = 0x02"
definition RST_FLAG :: u16 where "RST_FLAG = 0x04"
definition PSH_FLAG :: u16 where "PSH_FLAG = 0x08"
definition URG_FLAG :: u16 where "URG_FLAG = 0x20"
definition ECE_FLAG :: u16 where "ECE_FLAG = 0x40"
definition CWR_FLAG :: u16 where "CWR_FLAG = 0x80"
definition SYN_ACK_FLAG :: u16 where "SYN_ACK_FLAG = 0x100"
definition FIN_ACK_FLAG :: u16 where "FIN_ACK_FLAG = 0x200"
definition RST_ACK_FLAG :: u16 where "RST_ACK_FLAG = 0x400"

definition ip4in6 :: "u8 list" where
  "ip4in6 = [0, 0, 0, 0, 0, 0, 0, 0, 0, 0, 0xff, 0xff]"

record flow_metrics =
  packets :: u32
  nbytes :: u64
  start_mono_time_ts :: u64
  end_mono_time_ts :: u64
  mflags :: u16
  errno :: u8

record flow_id =
  eth_protocol :: u16
  direction :: u8
  src_mac :: "u8 list"
  dst_mac :: "u8 list"
  src_ip :: "u8 list"
  dst_ip :: "u8 list"
  src_port :: u16
  dst_port :: u16
  transport_protocol :: u8
  if_index :: u32

type_synonym flow_record = "flow_id \<times> flow_metrics"

record nob_maps =
  direct_flows :: "flow_record list"
  aggregated_flows :: "flow_id \<rightharpoonup> flow_metrics"

text \<open>A packet on its way through the hook, and what the kernel answers while the program handles it: a random number,
  the clock, the result of \<open>bpf_map_update_elem\<close>, whether the ring buffer has room.\<close>

record nob_pkt =
  pk_data :: packet
  pk_len :: u32
  pk_ifindex :: u32
  pk_rnd :: u32
  pk_now :: u64
  pk_ret :: int
  pk_ring :: bool

section \<open>Reading the headers\<close>

text \<open>The flags are the bits of byte 13 of the TCP header.\<close>

definition set_flags :: "u8 \<Rightarrow> u16 \<Rightarrow> u16" where
  "set_flags th flags = (
     let fin = bit th 0; syn = bit th 1; rst = bit th 2; psh = bit th 3;
         ack = bit th 4; urg = bit th 5; ece = bit th 6; cwr = bit th 7
     in if ack \<and> syn then flags OR SYN_ACK_FLAG
        else if ack \<and> fin then flags OR FIN_ACK_FLAG
        else if ack \<and> rst then flags OR RST_ACK_FLAG
        else if fin then flags OR FIN_FLAG
        else if syn then flags OR SYN_FLAG
        else if rst then flags OR RST_FLAG
        else if psh then flags OR PSH_FLAG
        else if urg then flags OR URG_FLAG
        else if ece then flags OR ECE_FLAG
        else if cwr then flags OR CWR_FLAG
        else flags)"

text \<open>The switch over the transport protocol, the same for both versions of IP; \<open>l4\<close> is where its header starts.\<close>

definition fill_ports :: "packet \<Rightarrow> nat \<Rightarrow> u8 \<Rightarrow> flow_id \<Rightarrow> u16 \<Rightarrow> (flow_id \<times> u16) option" where
  "fill_ports data l4 proto i flags =
     (if proto = IPPROTO_TCP then
        (if l4 + 20 \<le> length data then do {
           s \<leftarrow> ld16 data l4;
           d \<leftarrow> ld16 data (l4 + 2);
           th \<leftarrow> ld8 data (l4 + 13);
           Some (i\<lparr>src_port := bswap16 s, dst_port := bswap16 d\<rparr>, set_flags th flags) }
         else Some (i, flags))
      else if proto = IPPROTO_UDP then
        (if l4 + 8 \<le> length data then do {
           s \<leftarrow> ld16 data l4;
           d \<leftarrow> ld16 data (l4 + 2);
           Some (i\<lparr>src_port := bswap16 s, dst_port := bswap16 d\<rparr>, flags) }
         else Some (i, flags))
      else Some (i, flags))"

text \<open>\<open>None\<close> inside is the result \<open>DISCARD\<close>.\<close>

definition fill_iphdr :: "packet \<Rightarrow> nat \<Rightarrow> flow_id \<Rightarrow> u16 \<Rightarrow> (flow_id \<times> u16) option option" where
  "fill_iphdr data ip i flags =
     (if ip + 20 > length data then Some None
      else do {
        saddr \<leftarrow> rd data (ip + 12) 4;
        daddr \<leftarrow> rd data (ip + 16) 4;
        protocol \<leftarrow> ld8 data (ip + 9);
        map_option Some (fill_ports data (ip + 20) protocol
          (i\<lparr>src_ip := ip4in6 @ saddr, dst_ip := ip4in6 @ daddr, transport_protocol := protocol,
             src_port := 0, dst_port := 0\<rparr>) flags) })"

definition fill_ip6hdr :: "packet \<Rightarrow> nat \<Rightarrow> flow_id \<Rightarrow> u16 \<Rightarrow> (flow_id \<times> u16) option option" where
  "fill_ip6hdr data ip i flags =
     (if ip + 40 > length data then Some None
      else do {
        saddr \<leftarrow> rd data (ip + 8) 16;
        daddr \<leftarrow> rd data (ip + 24) 16;
        nexthdr \<leftarrow> ld8 data (ip + 6);
        map_option Some (fill_ports data (ip + 40) nexthdr
          (i\<lparr>src_ip := saddr, dst_ip := daddr, transport_protocol := nexthdr, src_port := 0, dst_port := 0\<rparr>) flags) })"

definition fill_ethhdr :: "packet \<Rightarrow> flow_id \<Rightarrow> u16 \<Rightarrow> (flow_id \<times> u16) option option" where
  "fill_ethhdr data i flags =
     (if 14 > length data then Some None
      else do {
        h_dest \<leftarrow> rd data 0 6;
        h_source \<leftarrow> rd data 6 6;
        h_proto \<leftarrow> ld16 data 12;
        let i = i\<lparr>dst_mac := h_dest, src_mac := h_source, eth_protocol := bswap16 h_proto\<rparr>;
        if eth_protocol i = ETH_P_IP then fill_iphdr data 14 i flags
        else if eth_protocol i = ETH_P_IPV6 then fill_ip6hdr data 14 i flags
        else Some (Some (i\<lparr>src_ip := replicate 16 0, dst_ip := replicate 16 0, transport_protocol := 0,
                           src_port := 0, dst_port := 0\<rparr>, flags)) })"

section \<open>The monitor\<close>

text \<open>The variable \<open>id\<close> is not initialised; \<open>flow_id0\<close> stands for what is in it.\<close>

definition flow_id0 :: flow_id where
  "flow_id0 = \<lparr>eth_protocol = 0, direction = 0, src_mac = [], dst_mac = [], src_ip = [], dst_ip = [],
     src_port = 0, dst_port = 0, transport_protocol = 0, if_index = 0\<rparr>"

text \<open>A remainder by zero cannot occur: \<open>sampling\<close> is tested before.  The entry of a known flow is changed through the
  pointer the lookup returned, so the update that follows writes what is already there.\<close>

definition flow_monitor :: "u32 \<Rightarrow> u8 \<Rightarrow> nob_pkt \<Rightarrow> nob_maps \<Rightarrow> (int \<times> nob_maps) option" where
  "flow_monitor sampling dir p s =
     (if sampling \<noteq> 0 \<and> pk_rnd p mod sampling \<noteq> 0 then Some (TC_ACT_OK, s)
      else do {
        r \<leftarrow> fill_ethhdr (pk_data p) flow_id0 0;
        case r of None \<Rightarrow> Some (TC_ACT_OK, s)
        | Some (i, flags) \<Rightarrow>
            let i = i\<lparr>if_index := pk_ifindex p, direction := dir\<rparr>
            in case aggregated_flows s i of
                 Some f \<Rightarrow>
                   let f = f\<lparr>packets := packets f + 1, nbytes := nbytes f + ucast (pk_len p),
                             end_mono_time_ts := pk_now p\<rparr>;
                       f = (if start_mono_time_ts f = 0 then f\<lparr>start_mono_time_ts := pk_now p\<rparr> else f);
                       f = f\<lparr>mflags := mflags f OR flags\<rparr>
                   in Some (TC_ACT_OK, s\<lparr>aggregated_flows := (aggregated_flows s)(i \<mapsto> f)\<rparr>)
               | None \<Rightarrow>
                   let f = \<lparr>packets = 1, nbytes = ucast (pk_len p), start_mono_time_ts = pk_now p,
                            end_mono_time_ts = pk_now p, mflags = flags, errno = 0\<rparr>
                   in if pk_ret p = 0
                      then Some (TC_ACT_OK, s\<lparr>aggregated_flows := (aggregated_flows s)(i \<mapsto> f)\<rparr>)
                      else if \<not> pk_ring p then Some (TC_ACT_OK, s)
                      else Some (TC_ACT_OK, s\<lparr>direct_flows := direct_flows s @ [(i, f\<lparr>errno := of_int (- pk_ret p)\<rparr>)]\<rparr>) })"

definition ingress_flow_parse :: "u32 \<Rightarrow> nob_pkt \<Rightarrow> nob_maps \<Rightarrow> (int \<times> nob_maps) option" where
  "ingress_flow_parse sampling p s = flow_monitor sampling INGRESS p s"

definition egress_flow_parse :: "u32 \<Rightarrow> nob_pkt \<Rightarrow> nob_maps \<Rightarrow> (int \<times> nob_maps) option" where
  "egress_flow_parse sampling p s = flow_monitor sampling EGRESS p s"

section \<open>What a packet does to the tables\<close>

lemma fill_ports_total: "fill_ports data l4 proto i flags \<noteq> None"
  unfolding fill_ports_def wp_total by (simp add: wp_simps)

lemma fill_ethhdr_total: "fill_ethhdr data i flags \<noteq> None"
proof -
  have p: "wp (fill_ports data l4 proto j fl) (\<lambda>_. True)" for l4 proto j fl using fill_ports_total wp_total by blast
  show ?thesis unfolding fill_ethhdr_def fill_iphdr_def fill_ip6hdr_def wp_total Let_def by (simp add: wp_simps p)
qed

text \<open>An event of a hook: direction and packet.  The flow it belongs to and the flags it contributes.\<close>

type_synonym nob_event = "u8 \<times> nob_pkt"

definition parsed :: "nob_event \<Rightarrow> (flow_id \<times> u16) option" where
  "parsed e = map_option (\<lambda>(i, fl). (i\<lparr>if_index := pk_ifindex (snd e), direction := fst e\<rparr>, fl))
     (the (fill_ethhdr (pk_data (snd e)) flow_id0 0))"

definition flow_of :: "nob_event \<Rightarrow> flow_id option" where
  "flow_of e = map_option fst (parsed e)"

definition flags_of :: "nob_event \<Rightarrow> u16" where
  "flags_of e = (case parsed e of None \<Rightarrow> 0 | Some (_, fl) \<Rightarrow> fl)"

definition sampled :: "u32 \<Rightarrow> nob_event \<Rightarrow> bool" where
  "sampled sampling e \<longleftrightarrow> sampling = 0 \<or> pk_rnd (snd e) mod sampling = 0"

definition single :: "nob_event \<Rightarrow> flow_metrics" where
  "single e = \<lparr>packets = 1, nbytes = ucast (pk_len (snd e)), start_mono_time_ts = pk_now (snd e),
     end_mono_time_ts = pk_now (snd e), mflags = flags_of e, errno = 0\<rparr>"

definition add_to :: "flow_metrics \<Rightarrow> nob_event \<Rightarrow> flow_metrics" where
  "add_to f e = f\<lparr>packets := packets f + 1, nbytes := nbytes f + ucast (pk_len (snd e)),
     end_mono_time_ts := pk_now (snd e),
     start_mono_time_ts := (if start_mono_time_ts f = 0 then pk_now (snd e) else start_mono_time_ts f), mflags := mflags f OR flags_of e\<rparr>"

definition absorb :: "nob_event \<Rightarrow> nob_maps \<Rightarrow> nob_maps" where
  "absorb e s = (case flow_of e of None \<Rightarrow> s | Some i \<Rightarrow>
     (case aggregated_flows s i of
        Some f \<Rightarrow> s\<lparr>aggregated_flows := (aggregated_flows s)(i \<mapsto> add_to f e)\<rparr>
      | None \<Rightarrow> if pk_ret (snd e) = 0 then s\<lparr>aggregated_flows := (aggregated_flows s)(i \<mapsto> single e)\<rparr>
                else if pk_ring (snd e) then s\<lparr>direct_flows := direct_flows s @ [(i, (single e)\<lparr>errno := of_int (- pk_ret (snd e))\<rparr>)]\<rparr>
                else s))"

lemma flow_monitor_eq:
  "flow_monitor sampling dir p s = Some (TC_ACT_OK, if sampled sampling (dir, p) then absorb (dir, p) s else s)"
proof -
  obtain r where r: "fill_ethhdr (pk_data p) flow_id0 0 = Some r" using fill_ethhdr_total by fastforce
  show ?thesis
    by (cases r) (auto simp: flow_monitor_def sampled_def r absorb_def flow_of_def parsed_def flags_of_def
        single_def add_to_def Let_def split: option.split)
qed

fun nob_run :: "u32 \<Rightarrow> nob_event list \<Rightarrow> nob_maps \<Rightarrow> nob_maps option" where
  "nob_run sampling [] s = Some s"
| "nob_run sampling ((dir, p) # es) s = do {
     (_, s) \<leftarrow> flow_monitor sampling dir p s;
     nob_run sampling es s }"

lemma nob_run_eq: "nob_run sampling es s = Some (fold absorb (filter (sampled sampling) es) s)"
  by (induction es arbitrary: s rule: list.induct) (auto simp: flow_monitor_eq)

section \<open>The table is a summary of the history\<close>

fun first_nonzero :: "u64 list \<Rightarrow> u64" where
  "first_nonzero [] = 0"
| "first_nonzero (t # ts) = (if t = 0 then first_nonzero ts else t)"

lemma first_nonzero_snoc:
  "first_nonzero (ts @ [t]) = (if first_nonzero ts = 0 then t else first_nonzero ts)"
  by (induction ts) auto

definition summary :: "nob_event list \<Rightarrow> flow_metrics" where
  "summary es = \<lparr>packets = of_nat (length es), nbytes = sum_list (map (\<lambda>e. ucast (pk_len (snd e))) es),
     start_mono_time_ts = first_nonzero (map (\<lambda>e. pk_now (snd e)) es), end_mono_time_ts = pk_now (snd (last es)),
     mflags = fold (\<lambda>e fl. fl OR flags_of e) es 0, errno = 0\<rparr>"

lemma summary_single: "summary [e] = single e"
  by (simp add: summary_def single_def)

lemma summary_snoc: "es \<noteq> [] \<Longrightarrow> summary (es @ [e]) = add_to (summary es) e"
  by (simp add: summary_def add_to_def first_nonzero_snoc add.commute)

text \<open>The packets of a flow that end up in the table: those from the first one for which the kernel accepted an entry.\<close>

definition kept_events :: "flow_id \<Rightarrow> nob_event list \<Rightarrow> nob_event list" where
  "kept_events i es = dropWhile (\<lambda>e. pk_ret (snd e) \<noteq> 0) (filter (\<lambda>e. flow_of e = Some i) es)"

lemma kept_events_snoc:
  "kept_events i (es @ [e]) = (if flow_of e = Some i \<and> (kept_events i es \<noteq> [] \<or> pk_ret (snd e) = 0) then kept_events i es @ [e] else kept_events i es)"
proof -
  have "dropWhile P (xs @ [x]) = (if dropWhile P xs \<noteq> [] \<or> \<not> P x then dropWhile P xs @ [x] else dropWhile P xs)"
    for P and xs :: "nob_event list" and x by (induction xs) auto
  then show ?thesis by (auto simp: kept_events_def)
qed

definition nob0 :: nob_maps where
  "nob0 = \<lparr>direct_flows = [], aggregated_flows = Map.empty\<rparr>"

lemma absorb_table:
  "aggregated_flows (fold absorb es nob0) i = (if kept_events i es = [] then None else Some (summary (kept_events i es)))"
proof (induction es rule: rev_induct)
  case Nil
  then show ?case by (simp add: kept_events_def nob0_def)
next
  case (snoc e es)
  then show ?case
    by (auto simp: absorb_def kept_events_snoc summary_single summary_snoc split: option.split)
qed


section \<open>No packet is lost and none is counted twice\<close>

text \<open>What user space adds up for a flow: the entry of the table and the single records of the ring buffer.\<close>

definition metrics_of :: "flow_id \<Rightarrow> nob_maps \<Rightarrow> flow_metrics list" where
  "metrics_of i s = (case aggregated_flows s i of None \<Rightarrow> [] | Some f \<Rightarrow> [f]) @ map snd (filter (\<lambda>r. fst r = i) (direct_flows s))"

definition packets_seen :: "flow_id \<Rightarrow> nob_maps \<Rightarrow> u32" where
  "packets_seen i s = sum_list (map packets (metrics_of i s))"

definition bytes_seen :: "flow_id \<Rightarrow> nob_maps \<Rightarrow> u64" where
  "bytes_seen i s = sum_list (map nbytes (metrics_of i s))"

lemma absorb_counts:
  assumes "pk_ring (snd e)"
  shows "packets_seen i (absorb e s) = packets_seen i s + (if flow_of e = Some i then 1 else 0)"
    "bytes_seen i (absorb e s) = bytes_seen i s + (if flow_of e = Some i then ucast (pk_len (snd e)) else 0)"
  using assms by (auto simp: packets_seen_def bytes_seen_def metrics_of_def absorb_def single_def add_to_def split: option.split)

lemma fold_counts:
  assumes "\<forall>e\<in>set es. pk_ring (snd e)"
  shows "packets_seen i (fold absorb es s) = packets_seen i s + of_nat (length (filter (\<lambda>e. flow_of e = Some i) es))"
    "bytes_seen i (fold absorb es s) = bytes_seen i s +
       sum_list (map (\<lambda>e. ucast (pk_len (snd e))) (filter (\<lambda>e. flow_of e = Some i) es))"
  using assms by (induction es arbitrary: s) (simp_all add: absorb_counts algebra_simps)

definition flow_packets :: "u32 \<Rightarrow> flow_id \<Rightarrow> nob_event list \<Rightarrow> nob_event list" where
  "flow_packets sampling i es = filter (\<lambda>e. flow_of e = Some i) (filter (sampled sampling) es)"


section \<open>What identifies a flow\<close>

text \<open>A packet of TCP or UDP over IPv4 (without options) or IPv6 (without extension headers), long enough for both headers.\<close>

definition l4_at :: "bool \<Rightarrow> nat" where
  "l4_at v4 = (if v4 then 34 else 54)"

definition proto_at :: "bool \<Rightarrow> nat" where
  "proto_at v4 = (if v4 then 23 else 20)"

definition is_flow :: "bool \<Rightarrow> packet \<Rightarrow> bool" where
  "is_flow v4 p \<longleftrightarrow> u16_at p 12 = bswap16 (if v4 then ETH_P_IP else ETH_P_IPV6) \<and>
     (p ! proto_at v4 = IPPROTO_TCP \<and> l4_at v4 + 20 \<le> length p \<or> p ! proto_at v4 = IPPROTO_UDP \<and> l4_at v4 + 8 \<le> length p)"

lemma flow_of_eq:
  assumes "is_flow v4 (pk_data q)"
  defines "p \<equiv> pk_data q"
  shows "flow_of (dir, q) = Some \<lparr>eth_protocol = (if v4 then ETH_P_IP else ETH_P_IPV6), direction = dir,
    src_mac = bytes_at p 6 6, dst_mac = bytes_at p 0 6,
    src_ip = (if v4 then ip4in6 @ bytes_at p 26 4 else bytes_at p 22 16),
    dst_ip = (if v4 then ip4in6 @ bytes_at p 30 4 else bytes_at p 38 16),
    src_port = bswap16 (u16_at p (l4_at v4)), dst_port = bswap16 (u16_at p (l4_at v4 + 2)),
    transport_protocol = p ! proto_at v4, if_index = pk_ifindex q\<rparr>" (is "_ = Some ?i")
proof -
  have n: "ETH_P_IPV6 \<noteq> ETH_P_IP" by (simp add: ETH_P_IP_def ETH_P_IPV6_def)
  have "wp (fill_ethhdr p flow_id0 0) (\<lambda>r. \<exists>fl. r = Some (?i\<lparr>if_index := 0, direction := 0\<rparr>, fl))"
    using assms(1) n unfolding fill_ethhdr_def fill_iphdr_def fill_ip6hdr_def fill_ports_def p_def [symmetric]
    by (cases v4) (auto simp: wp_simps is_flow_def l4_at_def proto_at_def flow_id0_def proto_defs Let_def)
  then show ?thesis by (auto simp: wp_def flow_of_def parsed_def p_def)
qed

lemma u16_at_inj:
  assumes "i + 2 \<le> length p" and "i + 2 \<le> length q"
  shows "u16_at p i = u16_at q i \<longleftrightarrow> bytes_at p i 2 = bytes_at q i 2"
proof
  assume "u16_at p i = u16_at q i"
  then have "le_bytes 2 (u16_at p i) = le_bytes 2 (u16_at q i)" by simp
  then show "bytes_at p i 2 = bytes_at q i 2" using assms by (simp add: le_bytes_word)
qed simp

text \<open>Flows are told apart exactly by what is meant to: two packets of TCP or UDP belong to the same flow if and only if they
  agree in direction, interface, Ethernet header, transport protocol, addresses and ports.  (IPv4 addresses are
  embedded into IPv6 ones, and still no IPv4 flow is taken for one of IPv6.)\<close>

theorem same_flow_iff:
  assumes "is_flow v (pk_data p)" and "is_flow w (pk_data q)"
  shows "flow_of (d, p) = flow_of (d', q) \<longleftrightarrow> d = d' \<and> pk_ifindex p = pk_ifindex q \<and> v = w \<and>
    bytes_at (pk_data p) 0 12 = bytes_at (pk_data q) 0 12 \<and> pk_data p ! proto_at v = pk_data q ! proto_at v \<and>
    (if v then bytes_at (pk_data p) 26 12 = bytes_at (pk_data q) 26 12 else bytes_at (pk_data p) 22 36 = bytes_at (pk_data q) 22 36)"
proof -
  let ?p = "pk_data p" and ?q = "pk_data q"
  have n: "ETH_P_IPV6 \<noteq> ETH_P_IP" by (simp add: ETH_P_IP_def ETH_P_IPV6_def)
  have l: "l4_at v + 8 \<le> length ?p" "l4_at w + 8 \<le> length ?q" using assms by (auto simp: is_flow_def)
  have b: "bswap16 x = bswap16 y \<longleftrightarrow> x = y" for x y by (metis bswap16_bswap16)
  have s0: "take 12 (pk_data x) = take 6 (pk_data x) @ bytes_at (pk_data x) 6 6" for x :: nob_pkt
    using bytes_at_split [of 6 6 0 "pk_data x"] by simp
  have s: "bytes_at r 26 12 = bytes_at r 26 4 @ bytes_at r 30 4 @ bytes_at r 34 2 @ bytes_at r 36 2"
    "bytes_at r 22 36 = bytes_at r 22 16 @ bytes_at r 38 16 @ bytes_at r 54 2 @ bytes_at r 56 2" for r :: packet
    using bytes_at_split [of 4 8 26 r] bytes_at_split [of 4 4 30 r] bytes_at_split [of 2 2 34 r]
      bytes_at_split [of 16 20 22 r] bytes_at_split [of 16 4 38 r] bytes_at_split [of 2 2 54 r] by simp_all
  show ?thesis
    using l n unfolding flow_of_eq [OF assms(1)] flow_of_eq [OF assms(2)]
    by (cases v; cases w) (auto simp: b l4_at_def u16_at_inj s0 s)
qed

definition udp_pkt :: "u8 \<Rightarrow> nob_pkt" where
  "udp_pkt port = \<lparr>pk_data = replicate 12 0 @ [8, 0] @ replicate 9 0 @ [17] @ replicate 12 0 @ [0, port] @ replicate 6 0,
     pk_len = 42, pk_ifindex = 3, pk_rnd = 0, pk_now = 1000, pk_ret = - 7, pk_ring = True\<rparr>"

lemma udp_pkt_flow: "is_flow True (pk_data (udp_pkt port))"
  by (simp add: udp_pkt_def is_flow_def proto_at_def l4_at_def nth_append le_word_def bswap16_def ETH_P_IP_def proto_defs)

theorem same_flow_iff_witness: "flow_of (INGRESS, udp_pkt 53) \<noteq> flow_of (INGRESS, udp_pkt 54)"
  using same_flow_iff [OF udp_pkt_flow udp_pkt_flow, of INGRESS 53 INGRESS 54]
  by (simp add: udp_pkt_def)


end
