(* ===== verification/Suricata_Filters.thy ===== *)
theory Suricata_Filters
  imports Bpf_Env
begin

text \<open>
  \<open>suricata-master/ebpf\<close>: the hash of \<open>hash_func01.h\<close>, the XDP bypass filter \<open>xdp_filter.c\<close>, the XDP load balancer
  \<open>xdp_lb.c\<close> and the socket filters \<open>bypass_filter.c\<close>, \<open>filter.c\<close>, \<open>vlan_filter.c\<close> and \<open>lb.c\<close>.
\<close>

section \<open>Data\<close>

definition INITVAL :: u32 where "INITVAL = 15485863"
definition ETH_P_ERSPAN :: u16 where "ETH_P_ERSPAN = 0x88BE"
definition IPPROTO_GRE :: u8 where "IPPROTO_GRE = 47"
definition GRE_CSUM :: u16 where "GRE_CSUM = bswap16 0x8000"
definition GRE_ROUTING :: u16 where "GRE_ROUTING = bswap16 0x4000"
definition GRE_KEY :: u16 where "GRE_KEY = bswap16 0x2000"
definition GRE_SEQ :: u16 where "GRE_SEQ = bswap16 0x1000"
definition GRE_VERSION :: u16 where "GRE_VERSION = bswap16 0x0007"

text \<open>The options one sets at the top of \<open>xdp_filter.c\<close>.\<close>

record suri_build =
  BUILD_CPUMAP :: bool
  ENCRYPTED_TLS_BYPASS :: bool
  GOT_TX_PEER :: bool
  RSS_QUEUE_NUMBERS :: u32
  VLAN_TRACKING :: bool

definition suri_default :: suri_build where
  "suri_default = \<lparr>BUILD_CPUMAP = True, ENCRYPTED_TLS_BYPASS = False, GOT_TX_PEER = True,
     RSS_QUEUE_NUMBERS = 32, VLAN_TRACKING = True\<rparr>"

text \<open>\<open>port16\<close> are the two halves of the union with \<open>ports\<close>; \<open>ip_proto\<close> has 1 bit, \<open>vlan0\<close> 15.\<close>

record flowv4_keys =
  k4_src :: u32
  k4_dst :: u32
  k4_port16_0 :: u16
  k4_port16_1 :: u16
  k4_ip_proto :: u8
  k4_vlan0 :: u16
  k4_vlan1 :: u16

record flowv6_keys =
  k6_src :: "u32 list"
  k6_dst :: "u32 list"
  k6_port16_0 :: u16
  k6_port16_1 :: u16
  k6_ip_proto :: u8
  k6_vlan0 :: u16
  k6_vlan1 :: u16

record pair =
  pr_packets :: u64
  pr_bytes :: u64

record suri_maps =
  flow_table_v4 :: "flowv4_keys \<rightharpoonup> pair"
  flow_table_v6 :: "flowv6_keys \<rightharpoonup> pair"
  cpu_map :: "u32 \<rightharpoonup> u32"
  cpus_available :: "u32 \<rightharpoonup> u32"
  cpus_count :: "u32 \<rightharpoonup> u32"
  tx_peer :: "u32 \<rightharpoonup> u32"
  tx_peer_int :: "u32 \<rightharpoonup> u32"

text \<open>What a run returns: a verdict, a redirection to a device or to a CPU, or a verdict with the receive queue set.\<close>

datatype xres = Act int | To_dev u32 | To_cpu u32 | Queue u32 int

section \<open>The hash\<close>

definition get16bits :: "u8 list \<Rightarrow> u32" where
  "get16bits d = ucast (le_word (take 2 d) :: u16)"

fun sfh_main :: "nat \<Rightarrow> u8 list \<Rightarrow> u32 \<Rightarrow> u8 list \<times> u32" where
  "sfh_main 0 d hash = (d, hash)"
| "sfh_main (Suc len) d hash = (
     let hash = hash + get16bits d;
         tmp = push_bit 11 (get16bits (drop 2 d)) XOR hash;
         hash = push_bit 16 hash XOR tmp;
         hash = hash + drop_bit 11 hash
     in sfh_main len (drop 4 d) hash)"

definition sfh_rest :: "nat \<Rightarrow> u8 list \<Rightarrow> u32 \<Rightarrow> u32" where
  "sfh_rest rm d hash =
     (if rm = 3 then
        (let hash = hash + get16bits d; hash = hash XOR push_bit 16 hash;
             hash = hash XOR push_bit 18 (scast (d ! 2))
         in hash + drop_bit 11 hash)
      else if rm = 2 then
        (let hash = hash + get16bits d; hash = hash XOR push_bit 11 hash in hash + drop_bit 17 hash)
      else if rm = 1 then
        (let hash = hash + scast (d ! 0); hash = hash XOR push_bit 10 hash in hash + drop_bit 1 hash)
      else hash)"

definition sfh_avalanche :: "u32 \<Rightarrow> u32" where
  "sfh_avalanche hash = (
     let hash = hash XOR push_bit 3 hash; hash = hash + drop_bit 5 hash;
         hash = hash XOR push_bit 4 hash; hash = hash + drop_bit 17 hash;
         hash = hash XOR push_bit 25 hash
     in hash + drop_bit 6 hash)"

text \<open>The length is the length of the list; no caller passes a null pointer.\<close>

definition SuperFastHash :: "u8 list \<Rightarrow> u32 \<Rightarrow> u32" where
  "SuperFastHash d initval =
     (if length d = 0 then 0
      else case sfh_main (length d div 4) d initval of (d', hash) \<Rightarrow> sfh_avalanche (sfh_rest (length d mod 4) d' hash))"

section \<open>The bypass filter \<open>xdp_filter.c\<close>\<close>

text \<open>\<open>None\<close> inside is the value -1.\<close>

definition get_sport :: "packet \<Rightarrow> nat \<Rightarrow> u8 \<Rightarrow> u16 option option" where
  "get_sport data off protocol =
     (if protocol = IPPROTO_TCP then (if off + 20 > length data then Some None else map_option Some (ld16 data off))
      else if protocol = IPPROTO_UDP then (if off + 8 > length data then Some None else map_option Some (ld16 data off))
      else Some (Some 0))"

definition get_dport :: "packet \<Rightarrow> nat \<Rightarrow> u8 \<Rightarrow> u16 option option" where
  "get_dport data off protocol =
     (if protocol = IPPROTO_TCP then (if off + 20 > length data then Some None else map_option Some (ld16 data (off + 2)))
      else if protocol = IPPROTO_UDP then (if off + 8 > length data then Some None else map_option Some (ld16 data (off + 2)))
      else Some (Some 0))"

definition redirect_dev :: "suri_maps \<Rightarrow> u32 \<Rightarrow> xres" where
  "redirect_dev s port = (if tx_peer s port = None then Act XDP_ABORTED else To_dev port)"

definition redirect_cpu :: "suri_maps \<Rightarrow> u32 \<Rightarrow> xres" where
  "redirect_cpu s cpu = (if cpu_map s cpu = None then Act XDP_ABORTED else To_cpu cpu)"

text \<open>What happens to a bypassed packet.\<close>

definition bypassed :: "suri_build \<Rightarrow> suri_maps \<Rightarrow> xres" where
  "bypassed cfg s = (if GOT_TX_PEER cfg then (if tx_peer_int s 0 = None then Act XDP_DROP else redirect_dev s 0) else Act XDP_DROP)"

definition count_pair :: "nat \<Rightarrow> pair \<Rightarrow> pair" where
  "count_pair n v = v\<lparr>pr_packets := pr_packets v + 1, pr_bytes := pr_bytes v + of_nat n\<rparr>"

text \<open>The choice of a CPU for the hash of a packet; the code has it four times.\<close>

definition to_cpu :: "suri_maps \<Rightarrow> u32 \<Rightarrow> xres" where
  "to_cpu s cpu_hash = (case cpus_count s 0 of
     None \<Rightarrow> Act XDP_PASS
   | Some cpu_max \<Rightarrow>
       if cpu_max = 0 then Act XDP_PASS
       else (case cpus_available s (cpu_hash mod cpu_max) of
               None \<Rightarrow> Act XDP_ABORTED
             | Some cpu_dest \<Rightarrow> redirect_cpu s cpu_dest))"

definition spread :: "suri_build \<Rightarrow> suri_maps \<Rightarrow> u32 \<Rightarrow> xres" where
  "spread cfg s hash = (if BUILD_CPUMAP cfg then to_cpu s hash
     else if RSS_QUEUE_NUMBERS cfg \<noteq> 0 then Queue (hash mod RSS_QUEUE_NUMBERS cfg) XDP_PASS
     else Act XDP_PASS)"

text \<open>The TLS test of the IPv4 filter.  The counter of bypassed packets is never changed: the code steps the pointer.\<close>

definition tls_record :: "suri_build \<Rightarrow> packet \<Rightarrow> nat \<Rightarrow> u16 \<Rightarrow> u16 \<Rightarrow> bool option" where
  "tls_record cfg data nh_off dport sport =
     (if ENCRYPTED_TLS_BYPASS cfg \<and> (dport = bswap16 443 \<or> sport = bswap16 443) then
        (let nh_off = nh_off + 40
         in if length data > nh_off + 4 then do {
              a0 \<leftarrow> ld8 data nh_off;
              a1 \<leftarrow> ld8 data (nh_off + 1);
              a2 \<leftarrow> ld8 data (nh_off + 2);
              Some (a0 = 0x17 \<and> a1 = 3 \<and> a2 = 3) }
            else Some False)
      else Some False)"

definition hf_filter_ipv4 :: "suri_build \<Rightarrow> packet \<Rightarrow> nat \<Rightarrow> u16 \<Rightarrow> u16 \<Rightarrow> suri_maps \<Rightarrow> (xres \<times> suri_maps) option" where
  "hf_filter_ipv4 cfg data nh_off vlan0 vlan1 s =
     (if nh_off + 20 > length data then Some (Act XDP_PASS, s)
      else do {
        protocol \<leftarrow> ld8 data (nh_off + 9);
        saddr \<leftarrow> ld32 data (nh_off + 12);
        daddr \<leftarrow> ld32 data (nh_off + 16);
        d \<leftarrow> get_dport data (nh_off + 20) protocol;
        case d of None \<Rightarrow> Some (Act XDP_PASS, s)
        | Some dport \<Rightarrow> do {
            sp \<leftarrow> get_sport data (nh_off + 20) protocol;
            case sp of None \<Rightarrow> Some (Act XDP_PASS, s)
            | Some sport \<Rightarrow>
                let tuple = \<lparr>k4_src = saddr, k4_dst = daddr, k4_port16_0 = sport, k4_port16_1 = dport,
                             k4_ip_proto = (if protocol = IPPROTO_TCP then 1 else 0),
                             k4_vlan0 = vlan0 AND 0x7fff, k4_vlan1 = vlan1\<rparr>
                in case flow_table_v4 s tuple of
                     Some v \<Rightarrow> Some (bypassed cfg s,
                       s\<lparr>flow_table_v4 := (flow_table_v4 s)(tuple \<mapsto> count_pair (length data) v)\<rparr>)
                   | None \<Rightarrow> do {
                       tls \<leftarrow> tls_record cfg data nh_off dport sport;
                       if tls then Some (bypassed cfg s, s)
                       else Some (spread cfg s (SuperFastHash (le_bytes 4 (saddr + daddr)) (INITVAL + ucast protocol)), s) } } })"

text \<open>The four words of an IPv6 address.\<close>

definition words6 :: "u8 list \<Rightarrow> u32 list" where
  "words6 bs = map (\<lambda>i. le_word (take 4 (drop (4 * i) bs))) [0, 1, 2, 3]"

definition sum6 :: "u32 list \<Rightarrow> u32 list \<Rightarrow> u32" where
  "sum6 a b = (a ! 0 + b ! 0) + (a ! 1 + b ! 1) + (a ! 2 + b ! 2) + (a ! 3 + b ! 3)"

definition hf_filter_ipv6 :: "suri_build \<Rightarrow> packet \<Rightarrow> nat \<Rightarrow> u16 \<Rightarrow> u16 \<Rightarrow> suri_maps \<Rightarrow> (xres \<times> suri_maps) option" where
  "hf_filter_ipv6 cfg data nh_off vlan0 vlan1 s =
     (if nh_off + 40 > length data then Some (Act 0, s)
      else do {
        nexthdr \<leftarrow> ld8 data (nh_off + 6);
        if \<not> (nexthdr = IPPROTO_UDP \<or> nexthdr = IPPROTO_TCP) then Some (Act XDP_PASS, s)
        else do {
          d \<leftarrow> get_dport data (nh_off + 40) nexthdr;
          case d of None \<Rightarrow> Some (Act XDP_PASS, s)
          | Some dport \<Rightarrow> do {
              sp \<leftarrow> get_sport data (nh_off + 40) nexthdr;
              case sp of None \<Rightarrow> Some (Act XDP_PASS, s)
              | Some sport \<Rightarrow> do {
                  saddr \<leftarrow> rd data (nh_off + 8) 16;
                  daddr \<leftarrow> rd data (nh_off + 24) 16;
                  let tuple = \<lparr>k6_src = words6 saddr, k6_dst = words6 daddr, k6_port16_0 = sport, k6_port16_1 = dport,
                               k6_ip_proto = (if nexthdr = IPPROTO_TCP then 1 else 0),
                               k6_vlan0 = vlan0 AND 0x7fff, k6_vlan1 = vlan1\<rparr>;
                  case flow_table_v6 s tuple of
                    Some v \<Rightarrow> Some (bypassed cfg s,
                      s\<lparr>flow_table_v6 := (flow_table_v6 s)(tuple \<mapsto> count_pair (length data) v)\<rparr>)
                  | None \<Rightarrow> Some (spread cfg s (SuperFastHash (le_bytes 4 (sum6 (words6 saddr) (words6 daddr))) INITVAL), s) } } } })"

text \<open>One of the two tests for a VLAN header: \<open>None\<close> inside if the packet is too short for it.\<close>

definition vlan_step :: "packet \<Rightarrow> u16 \<Rightarrow> nat \<Rightarrow> (u16 \<times> nat \<times> u16) option option" where
  "vlan_step data h_proto nh_off =
     (if h_proto = bswap16 ETH_P_8021Q \<or> h_proto = bswap16 ETH_P_8021AD then
        (if nh_off + 4 > length data then Some None
         else do {
           tci \<leftarrow> ld16 data nh_off;
           proto \<leftarrow> ld16 data (nh_off + 2);
           Some (Some (proto, nh_off + 4, tci AND 0x0fff)) })
      else Some (Some (h_proto, nh_off, 0)))"

definition xdp_hashfilter :: "suri_build \<Rightarrow> packet \<Rightarrow> suri_maps \<Rightarrow> (xres \<times> suri_maps) option" where
  "xdp_hashfilter cfg data s =
     (if 14 > length data then Some (Act XDP_PASS, s)
      else do {
        h_proto \<leftarrow> ld16 data 12;
        r \<leftarrow> vlan_step data h_proto 14;
        case r of None \<Rightarrow> Some (Act XDP_PASS, s)
        | Some (h_proto, nh_off, v0) \<Rightarrow> do {
            r \<leftarrow> vlan_step data h_proto nh_off;
            case r of None \<Rightarrow> Some (Act XDP_PASS, s)
            | Some (h_proto, nh_off, v1) \<Rightarrow>
                let vlan0 = (if VLAN_TRACKING cfg then v0 else 0); vlan1 = (if VLAN_TRACKING cfg then v1 else 0)
                in if h_proto = bswap16 ETH_P_IP then hf_filter_ipv4 cfg data nh_off vlan0 vlan1 s
                   else if h_proto = bswap16 ETH_P_IPV6 then hf_filter_ipv6 cfg data nh_off vlan0 vlan1 s
                   else Some (Act XDP_PASS, s) } })"

section \<open>The load balancer \<open>xdp_lb.c\<close>\<close>

definition hash_ipv4 :: "packet \<Rightarrow> nat \<Rightarrow> suri_maps \<Rightarrow> xres option" where
  "hash_ipv4 data iph s =
     (if iph + 20 > length data then Some (Act XDP_PASS)
      else do {
        saddr \<leftarrow> ld32 data (iph + 12);
        daddr \<leftarrow> ld32 data (iph + 16);
        Some (to_cpu s (SuperFastHash (le_bytes 4 (saddr + daddr)) INITVAL)) })"

definition hash_ipv6 :: "packet \<Rightarrow> nat \<Rightarrow> suri_maps \<Rightarrow> xres option" where
  "hash_ipv6 data ip6h s =
     (if ip6h + 40 > length data then Some (Act XDP_PASS)
      else do {
        saddr \<leftarrow> rd data (ip6h + 8) 16;
        daddr \<leftarrow> rd data (ip6h + 24) 16;
        Some (to_cpu s (SuperFastHash (le_bytes 4 (sum6 (words6 saddr) (words6 daddr))) INITVAL)) })"

text \<open>The result has the packet, which \<open>bpf_xdp_adjust_head\<close> shortens.  The Ethernet type of the inner frame is
  read before its length is checked.\<close>

definition filter_gre :: "bpf_env \<Rightarrow> packet \<Rightarrow> nat \<Rightarrow> suri_maps \<Rightarrow> (xres \<times> packet) option" where
  "filter_gre env data nh_off s = (
     let grhdr = nh_off + 20; nh_off = nh_off + 20
     in if grhdr + 4 > length data then Some (Act XDP_PASS, data)
        else do {
          flags \<leftarrow> ld16 data grhdr;
          if flags AND (GRE_VERSION OR GRE_ROUTING) \<noteq> 0 then Some (Act XDP_PASS, data)
          else do {
            proto \<leftarrow> ld16 data (grhdr + 2);
            let nh_off = nh_off + 4 + (if flags AND GRE_CSUM \<noteq> 0 then 4 else 0) + (if flags AND GRE_KEY \<noteq> 0 then 4 else 0)
                  + (if flags AND GRE_SEQ \<noteq> 0 then 4 else 0) + (if proto = bswap16 ETH_P_ERSPAN then 8 else 0);
            if nh_off > length data then Some (Act XDP_PASS, data)
            else case bpf_xdp_adjust_head env data (int nh_off) of
                   None \<Rightarrow> Some (Act XDP_PASS, data)
                 | Some data \<Rightarrow> do {
                     proto \<leftarrow> ld16 data 12;
                     if 14 > length data then Some (Act XDP_PASS, data)
                     else do {
                       r \<leftarrow> (if proto = bswap16 ETH_P_8021Q then
                                (if 14 + 4 > length data then Some None
                                 else do { proto \<leftarrow> ld16 data (14 + 2); Some (Some (proto, 14 + 4)) })
                              else Some (Some (proto, 14)));
                       case r of None \<Rightarrow> Some (Act XDP_PASS, data)
                       | Some (proto, nh_off) \<Rightarrow>
                           if nh_off > length data then Some (Act XDP_PASS, data)
                           else if proto = bswap16 ETH_P_IP then map_option (\<lambda>r. (r, data)) (hash_ipv4 data nh_off s)
                           else if proto = bswap16 ETH_P_IPV6 then map_option (\<lambda>r. (r, data)) (hash_ipv6 data nh_off s)
                           else Some (Act XDP_PASS, data) } } } })"

definition lb_filter_ipv4 :: "bpf_env \<Rightarrow> packet \<Rightarrow> nat \<Rightarrow> suri_maps \<Rightarrow> (xres \<times> packet) option" where
  "lb_filter_ipv4 env data nh_off s =
     (if nh_off + 20 > length data then Some (Act XDP_PASS, data)
      else do {
        protocol \<leftarrow> ld8 data (nh_off + 9);
        if protocol = IPPROTO_GRE then filter_gre env data nh_off s
        else map_option (\<lambda>r. (r, data)) (hash_ipv4 data nh_off s) })"

definition lb_filter_ipv6 :: "packet \<Rightarrow> nat \<Rightarrow> suri_maps \<Rightarrow> (xres \<times> packet) option" where
  "lb_filter_ipv6 data nh_off s = map_option (\<lambda>r. (r, data)) (hash_ipv6 data nh_off s)"

definition xdp_loadfilter :: "bpf_env \<Rightarrow> packet \<Rightarrow> suri_maps \<Rightarrow> (xres \<times> packet) option" where
  "xdp_loadfilter env data s =
     (if 14 > length data then Some (Act XDP_PASS, data)
      else do {
        h_proto \<leftarrow> ld16 data 12;
        r \<leftarrow> vlan_step data h_proto 14;
        case r of None \<Rightarrow> Some (Act XDP_PASS, data)
        | Some (h_proto, nh_off, _) \<Rightarrow> do {
            r \<leftarrow> vlan_step data h_proto nh_off;
            case r of None \<Rightarrow> Some (Act XDP_PASS, data)
            | Some (h_proto, nh_off, _) \<Rightarrow>
                if h_proto = bswap16 ETH_P_IP then lb_filter_ipv4 env data nh_off s
                else if h_proto = bswap16 ETH_P_IPV6 then lb_filter_ipv6 data nh_off s
                else Some (Act XDP_PASS, data) } })"

section \<open>The socket filters\<close>

text \<open>\<open>load_byte\<close>, \<open>load_half\<close> and \<open>load_word\<close> are instructions: they read in network byte order, and a read outside of the
  packet ends the program with the result 0.\<close>

definition load_byte :: "packet \<Rightarrow> nat \<Rightarrow> u8 option" where
  "load_byte data off = ld8 data off"

definition load_half :: "packet \<Rightarrow> nat \<Rightarrow> u16 option" where
  "load_half data off = map_option bswap16 (ld16 data off)"

definition load_word :: "packet \<Rightarrow> nat \<Rightarrow> u32 option" where
  "load_word data off = map_option bswap32 (ld32 data off)"

text \<open>\<open>bypass_filter.c\<close>: 0 drops the packet, -1 accepts it.  A packet of the socket has its outer VLAN tag beside it.\<close>

record sock_skb =
  sk_data :: packet
  sk_len :: u32
  vlan_tci :: u32

text \<open>Both ports read as one word, most significant first; the code exchanges the two halves of it.\<close>

definition bp_ipv4_filter :: "sock_skb \<Rightarrow> nat \<Rightarrow> u16 \<Rightarrow> u16 \<Rightarrow> suri_maps \<Rightarrow> (int \<times> suri_maps) option" where
  "bp_ipv4_filter skb nhoff vlan0 vlan1 s = do {
     ip_proto \<leftarrow> load_byte (sk_data skb) (nhoff + 9);
     if ip_proto \<noteq> IPPROTO_TCP \<and> ip_proto \<noteq> IPPROTO_UDP then Some (-1, s)
     else do {
       saddr \<leftarrow> load_word (sk_data skb) (nhoff + 12);
       daddr \<leftarrow> load_word (sk_data skb) (nhoff + 16);
       verlen \<leftarrow> load_byte (sk_data skb) nhoff;
       ports \<leftarrow> load_word (sk_data skb) (nhoff + unat (push_bit 2 (ucast (verlen AND 0xF) :: u32)));
       let tuple = \<lparr>k4_src = saddr, k4_dst = daddr, k4_port16_0 = ucast (drop_bit 16 ports), k4_port16_1 = ucast ports,
                    k4_ip_proto = (if ip_proto = IPPROTO_TCP then 1 else 0), k4_vlan0 = vlan0 AND 0x7fff, k4_vlan1 = vlan1\<rparr>;
       case flow_table_v4 s tuple of
         Some v \<Rightarrow> Some (0, s\<lparr>flow_table_v4 := (flow_table_v4 s)(tuple \<mapsto> count_pair (unat (sk_len skb)) v)\<rparr>)
       | None \<Rightarrow> Some (-1, s) } }"

definition bp_ipv6_filter :: "sock_skb \<Rightarrow> nat \<Rightarrow> u16 \<Rightarrow> u16 \<Rightarrow> suri_maps \<Rightarrow> (int \<times> suri_maps) option" where
  "bp_ipv6_filter skb nhoff vlan0 vlan1 s = do {
     nhdr \<leftarrow> load_byte (sk_data skb) (nhoff + 6);
     if nhdr \<noteq> IPPROTO_TCP \<and> nhdr \<noteq> IPPROTO_UDP then Some (-1, s)
     else do {
       s0 \<leftarrow> load_word (sk_data skb) (nhoff + 8);
       s1 \<leftarrow> load_word (sk_data skb) (nhoff + 8 + 4);
       s2 \<leftarrow> load_word (sk_data skb) (nhoff + 8 + 8);
       s3 \<leftarrow> load_word (sk_data skb) (nhoff + 8 + 12);
       d0 \<leftarrow> load_word (sk_data skb) (nhoff + 24);
       d1 \<leftarrow> load_word (sk_data skb) (nhoff + 24 + 4);
       d2 \<leftarrow> load_word (sk_data skb) (nhoff + 24 + 8);
       d3 \<leftarrow> load_word (sk_data skb) (nhoff + 24 + 12);
       ports \<leftarrow> load_word (sk_data skb) (nhoff + 40);
       let tuple = \<lparr>k6_src = [s0, s1, s2, s3], k6_dst = [d0, d1, d2, d3], k6_port16_0 = ucast (drop_bit 16 ports),
                    k6_port16_1 = ucast ports, k6_ip_proto = (if nhdr = IPPROTO_TCP then 1 else 0),
                    k6_vlan0 = vlan0 AND 0x7fff, k6_vlan1 = vlan1\<rparr>;
       case flow_table_v6 s tuple of
         Some v \<Rightarrow> Some (0, s\<lparr>flow_table_v6 := (flow_table_v6 s)(tuple \<mapsto> count_pair (unat (sk_len skb)) v)\<rparr>)
       | None \<Rightarrow> Some (-1, s) } }"

definition hashfilter :: "sock_skb \<Rightarrow> suri_maps \<Rightarrow> int \<times> suri_maps" where
  "hashfilter skb s = (case do {
       proto \<leftarrow> load_half (sk_data skb) 12;
       let vlan0 = ucast (vlan_tci skb AND 0x0fff);
       (proto, vlan1, nhoff) \<leftarrow>
         (if proto = ETH_P_8021AD \<or> proto = ETH_P_8021Q then do {
            proto \<leftarrow> load_half (sk_data skb) (14 + 2);
            tci \<leftarrow> load_half (sk_data skb) 14;
            Some (proto, tci AND 0x0fff, 14 + 4) }
          else Some (proto, 0, 14));
       if proto = ETH_P_IP then bp_ipv4_filter skb nhoff vlan0 vlan1 s
       else if proto = ETH_P_IPV6 then bp_ipv6_filter skb nhoff vlan0 vlan1 s
       else Some (-1, s) }
     of None \<Rightarrow> (0, s) | Some r \<Rightarrow> r)"

text \<open>\<open>filter.c\<close>: addresses to drop.\<close>

definition fl_ipv4_filter :: "packet \<Rightarrow> nat \<Rightarrow> (u32 \<rightharpoonup> u32) \<Rightarrow> (int \<times> (u32 \<rightharpoonup> u32)) option" where
  "fl_ipv4_filter data nhoff ipv4_drop = do {
     ip \<leftarrow> load_word data (nhoff + 12);
     case ipv4_drop ip of
       Some v \<Rightarrow> Some (0, ipv4_drop(ip \<mapsto> v + 1))
     | None \<Rightarrow> do {
         ip \<leftarrow> load_word data (nhoff + 16);
         case ipv4_drop ip of
           Some v \<Rightarrow> Some (0, ipv4_drop(ip \<mapsto> v + 1))
         | None \<Rightarrow> Some (-1, ipv4_drop) } }"

definition fl_hashfilter :: "packet \<Rightarrow> (u32 \<rightharpoonup> u32) \<Rightarrow> int \<times> (u32 \<rightharpoonup> u32)" where
  "fl_hashfilter data ipv4_drop = (case do {
       proto \<leftarrow> load_half data 12;
       (proto, nhoff) \<leftarrow>
         (if proto = ETH_P_8021AD \<or> proto = ETH_P_8021Q then do {
            proto \<leftarrow> load_half data (14 + 2);
            Some (proto, 14 + 4) }
          else Some (proto, 14));
       if proto = ETH_P_IP then fl_ipv4_filter data nhoff ipv4_drop else Some (-1, ipv4_drop) }
     of None \<Rightarrow> (0, ipv4_drop) | Some r \<Rightarrow> r)"

text \<open>\<open>vlan_filter.c\<close>.\<close>

definition vl_hashfilter :: "sock_skb \<Rightarrow> int" where
  "vl_hashfilter skb = (let vlan_id = ucast (vlan_tci skb AND 0x0fff) :: u16 in if vlan_id = 2 \<or> vlan_id = 4 then -1 else 0)"

text \<open>\<open>lb.c\<close>: the hash of a packet, 16 bits of it.\<close>

definition lb_ipv4_hash :: "packet \<Rightarrow> nat \<Rightarrow> u32 option" where
  "lb_ipv4_hash data nhoff = do {
     s \<leftarrow> load_word data (nhoff + 12);
     d \<leftarrow> load_word data (nhoff + 16);
     Some (s + d) }"

definition ipv6_addr_hash :: "packet \<Rightarrow> nat \<Rightarrow> u32 option" where
  "ipv6_addr_hash data off = do {
     a0 \<leftarrow> load_word data off;
     a1 \<leftarrow> load_word data (off + 4);
     a2 \<leftarrow> load_word data (off + 8);
     a3 \<leftarrow> load_word data (off + 12);
     Some (a0 XOR a1 XOR a2 XOR a3) }"

definition lb_ipv6_hash :: "packet \<Rightarrow> nat \<Rightarrow> u32 option" where
  "lb_ipv6_hash data nhoff = do {
     src_hash \<leftarrow> ipv6_addr_hash data (nhoff + 8);
     dst_hash \<leftarrow> ipv6_addr_hash data (nhoff + 24);
     Some (src_hash + dst_hash) }"

text \<open>The offset of the IP header is passed in \<open>skb->cb[0]\<close>, which only the branch for tagged packets sets; \<open>cb0\<close> is what the
  kernel leaves there.\<close>

definition lb :: "u32 \<Rightarrow> packet \<Rightarrow> u16" where
  "lb cb0 data = (case do {
       proto \<leftarrow> load_half data 12;
       if proto = ETH_P_8021Q \<or> proto = ETH_P_8021AD then do {
         vproto \<leftarrow> load_half data (14 + 2);
         (proto', nhoff) \<leftarrow>
           (if vproto = ETH_P_8021AD \<or> vproto = ETH_P_8021Q then do {
              p \<leftarrow> load_half data (18 + 2);
              Some (p, 18 + 4) }
            else Some (vproto, 14 + 4));
         if proto' = ETH_P_IP then map_option ucast (lb_ipv4_hash data nhoff)
         else if proto' = ETH_P_IPV6 then map_option ucast (lb_ipv6_hash data nhoff)
         else Some proto }
       else if proto = ETH_P_IP then map_option ucast (lb_ipv4_hash data (unat cb0))
       else if proto = ETH_P_IPV6 then map_option ucast (lb_ipv6_hash data (unat cb0))
       else Some proto }
     of None \<Rightarrow> 0 | Some r \<Rightarrow> r)"

end
