(* ===== verification/Suricata_Props.thy ===== *)
theory Suricata_Props
  imports Suricata_Filters
begin

text \<open>
  What the filters of \<open>suricata-master/ebpf\<close> promise: a bypassed flow is dropped and counted, packet by packet and byte by byte; both
  directions of a connection go to the same CPU; a mirrored GRE frame is balanced like the frame inside; and three places where
  the code does not do what it means to.
\<close>

section \<open>What the filter does with a packet\<close>

text \<open>Where the IP header is, and the VLAN ids; \<open>None\<close> if the packet is not IP or cut off before the header.\<close>

definition hf_parse :: "suri_build \<Rightarrow> packet \<Rightarrow> (bool \<times> nat \<times> u16 \<times> u16) option" where
  "hf_parse cfg data = (if length data < 14 then None else
     (case the (vlan_step data (u16_at data 12) 14) of None \<Rightarrow> None
      | Some (pr, nh, v0) \<Rightarrow>
         (case the (vlan_step data pr nh) of None \<Rightarrow> None
          | Some (pr, nh, v1) \<Rightarrow>
             (let t = VLAN_TRACKING cfg; v0 = (if t then v0 else 0); v1 = (if t then v1 else 0)
              in if pr = bswap16 ETH_P_IP then Some (True, nh, v0, v1)
                 else if pr = bswap16 ETH_P_IPV6 then Some (False, nh, v0, v1) else None))))"

definition has_ports :: "u8 \<Rightarrow> bool" where
  "has_ports proto \<longleftrightarrow> proto = IPPROTO_TCP \<or> proto = IPPROTO_UDP"

definition ports_ok :: "packet \<Rightarrow> nat \<Rightarrow> u8 \<Rightarrow> bool" where
  "ports_ok data off proto \<longleftrightarrow> (proto = IPPROTO_TCP \<longrightarrow> off + 20 \<le> length data) \<and> (proto = IPPROTO_UDP \<longrightarrow> off + 8 \<le> length data)"

definition port_at :: "packet \<Rightarrow> nat \<Rightarrow> u8 \<Rightarrow> u16" where
  "port_at data off proto = (if has_ports proto then u16_at data off else 0)"

definition key4 :: "packet \<Rightarrow> nat \<Rightarrow> u16 \<Rightarrow> u16 \<Rightarrow> flowv4_keys" where
  "key4 data nh v0 v1 = (let pr = data ! (nh + 9) in
     \<lparr>k4_src = u32_at data (nh + 12), k4_dst = u32_at data (nh + 16), k4_port16_0 = port_at data (nh + 20) pr,
      k4_port16_1 = port_at data (nh + 20 + 2) pr, k4_ip_proto = (if pr = IPPROTO_TCP then 1 else 0),
      k4_vlan0 = v0 AND 0x7fff, k4_vlan1 = v1\<rparr>)"

definition key6 :: "packet \<Rightarrow> nat \<Rightarrow> u16 \<Rightarrow> u16 \<Rightarrow> flowv6_keys" where
  "key6 data nh v0 v1 = (let pr = data ! (nh + 6) in
     \<lparr>k6_src = words6 (bytes_at data (nh + 8) 16), k6_dst = words6 (bytes_at data (nh + 24) 16),
      k6_port16_0 = port_at data (nh + 40) pr, k6_port16_1 = port_at data (nh + 40 + 2) pr,
      k6_ip_proto = (if pr = IPPROTO_TCP then 1 else 0), k6_vlan0 = v0 AND 0x7fff, k6_vlan1 = v1\<rparr>)"

lemma ports_eq:
  assumes "off \<le> length data"
  shows "get_sport data off pr = Some (if ports_ok data off pr then Some (port_at data off pr) else None)"
    "get_dport data off pr = Some (if ports_ok data off pr then Some (port_at data (off + 2) pr) else None)"
proof -
  have "wp (get_sport data off pr) (\<lambda>r. r = (if ports_ok data off pr then Some (port_at data off pr) else None))"
    "wp (get_dport data off pr) (\<lambda>r. r = (if ports_ok data off pr then Some (port_at data (off + 2) pr) else None))"
    using assms unfolding get_sport_def get_dport_def
    by (auto simp: wp_simps ports_ok_def port_at_def has_ports_def proto_defs)
  then show "get_sport data off pr = Some (if ports_ok data off pr then Some (port_at data off pr) else None)"
    "get_dport data off pr = Some (if ports_ok data off pr then Some (port_at data (off + 2) pr) else None)"
    by (auto simp: wp_def)
qed

lemma tls_total: "tls_record cfg data nh d sp \<noteq> None"
  unfolding tls_record_def wp_total Let_def by (simp add: wp_simps)

lemma wp_tls: "wp (tls_record cfg data nh d sp) Q = Q (the (tls_record cfg data nh d sp))"
proof -
  obtain t where "tls_record cfg data nh d sp = Some t" using tls_total by blast
  then show ?thesis by (simp add: wp_simps)
qed

definition is_tls :: "suri_build \<Rightarrow> packet \<Rightarrow> nat \<Rightarrow> bool" where
  "is_tls cfg data nh = (let pr = data ! (nh + 9) in
     the (tls_record cfg data nh (port_at data (nh + 20 + 2) pr) (port_at data (nh + 20) pr)))"

definition hash4 :: "packet \<Rightarrow> nat \<Rightarrow> u32" where
  "hash4 data nh = SuperFastHash (le_bytes 4 (u32_at data (nh + 12) + u32_at data (nh + 16))) (INITVAL + ucast (data ! (nh + 9)))"

definition hash6 :: "packet \<Rightarrow> nat \<Rightarrow> u32" where
  "hash6 data nh = SuperFastHash (le_bytes 4 (sum6 (words6 (bytes_at data (nh + 8) 16)) (words6 (bytes_at data (nh + 24) 16)))) INITVAL"

lemma hf4_eq:
  "hf_filter_ipv4 cfg data nh v0 v1 s = Some (
     if nh + 20 \<le> length data \<and> ports_ok data (nh + 20) (data ! (nh + 9)) then
       (case flow_table_v4 s (key4 data nh v0 v1) of
          Some v \<Rightarrow> (bypassed cfg s, s\<lparr>flow_table_v4 := (flow_table_v4 s)(key4 data nh v0 v1 \<mapsto> count_pair (length data) v)\<rparr>)
        | None \<Rightarrow> (if is_tls cfg data nh then bypassed cfg s else spread cfg s (hash4 data nh), s))
     else (Act XDP_PASS, s))" (is "_ = Some ?r")
proof -
  have "wp (hf_filter_ipv4 cfg data nh v0 v1 s) (\<lambda>r. r = ?r)"
    unfolding hf_filter_ipv4_def
    by (auto simp: wp_simps ports_eq wp_tls is_tls_def key4_def hash4_def Let_def split: option.split)
  then show ?thesis by (auto simp: wp_def)
qed

lemma hf6_eq:
  "hf_filter_ipv6 cfg data nh v0 v1 s = Some (
     if nh + 40 \<le> length data then
       (if has_ports (data ! (nh + 6)) \<and> ports_ok data (nh + 40) (data ! (nh + 6)) then
         (case flow_table_v6 s (key6 data nh v0 v1) of
            Some v \<Rightarrow> (bypassed cfg s, s\<lparr>flow_table_v6 := (flow_table_v6 s)(key6 data nh v0 v1 \<mapsto> count_pair (length data) v)\<rparr>)
          | None \<Rightarrow> (spread cfg s (hash6 data nh), s))
       else (Act XDP_PASS, s))
     else (Act 0, s))" (is "_ = Some ?r")
proof -
  have "wp (hf_filter_ipv6 cfg data nh v0 v1 s) (\<lambda>r. r = ?r)"
    unfolding hf_filter_ipv6_def
    by (auto simp: wp_simps ports_eq key6_def hash6_def Let_def has_ports_def split: option.split)
  then show ?thesis by (auto simp: wp_def)
qed

lemma vlan_total: "vlan_step data pr nh \<noteq> None"
  unfolding vlan_step_def wp_total by (simp add: wp_simps)

lemma hashfilter_eq:
  "xdp_hashfilter cfg data s = (case hf_parse cfg data of None \<Rightarrow> Some (Act XDP_PASS, s)
     | Some (v4, nh, v0, v1) \<Rightarrow> if v4 then hf_filter_ipv4 cfg data nh v0 v1 s else hf_filter_ipv6 cfg data nh v0 v1 s)"
proof (cases "length data < 14")
  case True
  then show ?thesis by (simp add: xdp_hashfilter_def hf_parse_def)
next
  case False
  have l: "ld16 data 12 = Some (u16_at data 12)" using False wp_ld16 [of data 12 "\<lambda>r. r = u16_at data 12"] by (auto simp: wp_def)
  obtain r where r: "vlan_step data (u16_at data 12) 14 = Some r" using vlan_total by blast
  show ?thesis
  proof (cases r)
    case None
    then show ?thesis using False l r by (simp add: xdp_hashfilter_def hf_parse_def)
  next
    case (Some x)
    obtain pr nh v0 where x: "x = (pr, nh, v0)" by (cases x)
    obtain r' where r': "vlan_step data pr nh = Some r'" using vlan_total by blast
    show ?thesis using False l r r' Some x
      by (cases r') (auto simp: xdp_hashfilter_def hf_parse_def Let_def)
  qed
qed


section \<open>Bypassed flows\<close>

text \<open>The flow tables of both versions of IP as one, and the flow a packet belongs to.\<close>

type_synonym flow_keys = "flowv4_keys + flowv6_keys"

definition bypass_table :: "suri_maps \<Rightarrow> flow_keys \<rightharpoonup> pair" where
  "bypass_table s k = (case k of Inl k4 \<Rightarrow> flow_table_v4 s k4 | Inr k6 \<Rightarrow> flow_table_v6 s k6)"

definition set_bypass_table :: "(flow_keys \<rightharpoonup> pair) \<Rightarrow> suri_maps \<Rightarrow> suri_maps" where
  "set_bypass_table t s = s\<lparr>flow_table_v4 := (\<lambda>k. t (Inl k)), flow_table_v6 := (\<lambda>k. t (Inr k))\<rparr>"

lemma flow_table_simps [simp]:
  "bypass_table (set_bypass_table t s) = t" "set_bypass_table (bypass_table s) s = s"
  "set_bypass_table t (set_bypass_table u s) = set_bypass_table t s"
  by (auto simp: bypass_table_def set_bypass_table_def fun_eq_iff split: sum.split)

definition bypass_key :: "suri_build \<Rightarrow> packet \<Rightarrow> flow_keys option" where
  "bypass_key cfg data = (case hf_parse cfg data of None \<Rightarrow> None
     | Some (v4, nh, v0, v1) \<Rightarrow>
         if v4 then (if nh + 20 \<le> length data \<and> ports_ok data (nh + 20) (data ! (nh + 9)) then Some (Inl (key4 data nh v0 v1)) else None)
         else (if nh + 40 \<le> length data \<and> has_ports (data ! (nh + 6)) \<and> ports_ok data (nh + 40) (data ! (nh + 6))
               then Some (Inr (key6 data nh v0 v1)) else None))"

definition is_bypassed :: "suri_build \<Rightarrow> suri_maps \<Rightarrow> packet \<Rightarrow> bool" where
  "is_bypassed cfg s p \<longleftrightarrow> (case bypass_key cfg p of None \<Rightarrow> False | Some k \<Rightarrow> bypass_table s k \<noteq> None)"

text \<open>What happens to the other packets; it does not depend on the flow tables.\<close>

definition inspected :: "suri_build \<Rightarrow> suri_maps \<Rightarrow> packet \<Rightarrow> xres" where
  "inspected cfg s data = (case hf_parse cfg data of None \<Rightarrow> Act XDP_PASS
     | Some (v4, nh, v0, v1) \<Rightarrow>
         if bypass_key cfg data = None then Act (if \<not> v4 \<and> length data < nh + 40 then XDP_ABORTED else XDP_PASS)
         else if v4 then (if is_tls cfg data nh then bypassed cfg s else spread cfg s (hash4 data nh))
         else spread cfg s (hash6 data nh))"

lemma same_config [simp]:
  "bypassed cfg (set_bypass_table t s) = bypassed cfg s" "inspected cfg (set_bypass_table t s) = inspected cfg s"
proof -
  show b: "bypassed cfg (set_bypass_table t s) = bypassed cfg s"
    by (simp add: bypassed_def redirect_dev_def set_bypass_table_def)
  have c: "cpus_count (set_bypass_table t s) = cpus_count s" "cpus_available (set_bypass_table t s) = cpus_available s"
    "redirect_cpu (set_bypass_table t s) = redirect_cpu s"
    by (simp_all add: redirect_cpu_def set_bypass_table_def fun_eq_iff)
  have sp: "spread cfg (set_bypass_table t s) = spread cfg s" by (intro ext) (simp only: spread_def to_cpu_def c)
  show "inspected cfg (set_bypass_table t s) = inspected cfg s" by (intro ext) (simp only: inspected_def b sp)
qed

lemma hashfilter_step:
  "xdp_hashfilter cfg p s = Some (if is_bypassed cfg s p then bypassed cfg s else inspected cfg s p,
     set_bypass_table (\<lambda>k. if bypass_key cfg p = Some k then map_option (count_pair (length p)) (bypass_table s k) else bypass_table s k) s)"
proof (cases "hf_parse cfg p")
  case None
  then show ?thesis by (simp add: hashfilter_eq bypass_key_def is_bypassed_def inspected_def)
next
  case (Some x)
  obtain v4 nh v0 v1 where x: "x = (v4, nh, v0, v1)" by (cases x)
  have u4: "set_bypass_table (\<lambda>k. if Inl k4 = k then map_option f (bypass_table s k) else bypass_table s k) s =
      s\<lparr>flow_table_v4 := (flow_table_v4 s)(k4 := map_option f (flow_table_v4 s k4))\<rparr>" for k4 f
    by (auto simp: set_bypass_table_def bypass_table_def fun_eq_iff)
  have u6: "set_bypass_table (\<lambda>k. if Inr k6 = k then map_option f (bypass_table s k) else bypass_table s k) s =
      s\<lparr>flow_table_v6 := (flow_table_v6 s)(k6 := map_option f (flow_table_v6 s k6))\<rparr>" for k6 f
    by (auto simp: set_bypass_table_def bypass_table_def fun_eq_iff)
  have id4: "(flow_table_v4 s)(k := None) = flow_table_v4 s" if "flow_table_v4 s k = None" for k using that by auto
  have id6: "(flow_table_v6 s)(k := None) = flow_table_v6 s" if "flow_table_v6 s k = None" for k using that by auto
  have fs: "bypass_table s (Inl k4) = flow_table_v4 s k4" "bypass_table s (Inr k6) = flow_table_v6 s k6" for k4 k6
    by (simp_all add: bypass_table_def)
  show ?thesis
  proof (cases v4)
    case True
    show ?thesis
    proof (cases "nh + 20 \<le> length p \<and> ports_ok p (nh + 20) (p ! (nh + 9))")
      case ok: True
      then have k: "bypass_key cfg p = Some (Inl (key4 p nh v0 v1))" using Some True x by (simp add: bypass_key_def)
      show ?thesis using Some True x ok k
        by (cases "flow_table_v4 s (key4 p nh v0 v1)")
          (simp_all add: hashfilter_eq hf4_eq is_bypassed_def inspected_def fs u4 id4)
    next
      case False
      then have k: "bypass_key cfg p = None" using Some True x by (auto simp: bypass_key_def)
      show ?thesis using Some True x False k by (auto simp: hashfilter_eq hf4_eq is_bypassed_def inspected_def)
    qed
  next
    case v6: False
    show ?thesis
    proof (cases "nh + 40 \<le> length p \<and> has_ports (p ! (nh + 6)) \<and> ports_ok p (nh + 40) (p ! (nh + 6))")
      case ok: True
      then have k: "bypass_key cfg p = Some (Inr (key6 p nh v0 v1))" using Some v6 x by (simp add: bypass_key_def)
      show ?thesis using Some v6 x ok k
        by (cases "flow_table_v6 s (key6 p nh v0 v1)")
          (simp_all add: hashfilter_eq hf6_eq is_bypassed_def inspected_def fs u6 id6)
    next
      case False
      then have k: "bypass_key cfg p = None" using Some v6 x by (auto simp: bypass_key_def)
      show ?thesis using Some v6 x False k
        by (auto simp: hashfilter_eq hf6_eq is_bypassed_def inspected_def XDP_ABORTED_def)
    qed
  qed
qed

fun hf_run :: "suri_build \<Rightarrow> packet list \<Rightarrow> suri_maps \<Rightarrow> (xres list \<times> suri_maps) option" where
  "hf_run cfg [] s = Some ([], s)"
| "hf_run cfg (p # ps) s = do {
     (r, s) \<leftarrow> xdp_hashfilter cfg p s;
     (rs, s) \<leftarrow> hf_run cfg ps s;
     Some (r # rs, s) }"

definition counted :: "suri_build \<Rightarrow> packet list \<Rightarrow> (flow_keys \<rightharpoonup> pair) \<Rightarrow> flow_keys \<rightharpoonup> pair" where
  "counted cfg ps t k = (let mine = filter (\<lambda>p. bypass_key cfg p = Some k) ps in
     map_option (\<lambda>v. v\<lparr>pr_packets := pr_packets v + of_nat (length mine),
                       pr_bytes := pr_bytes v + of_nat (sum_list (map length mine))\<rparr>) (t k))"

lemma counted_Cons:
  "counted cfg ps (\<lambda>k. if bypass_key cfg p = Some k then map_option (count_pair (length p)) (t k) else t k) = counted cfg (p # ps) t"
  by (rule ext) (auto simp: counted_def count_pair_def Let_def option.map_comp comp_def algebra_simps intro!: option.map_cong)

lemma is_bypassed_step:
  "is_bypassed cfg (set_bypass_table (\<lambda>k. if bypass_key cfg p = Some k then map_option (count_pair (length p)) (bypass_table s k)
     else bypass_table s k) s) = is_bypassed cfg s"
  by (auto simp: is_bypassed_def fun_eq_iff split: option.split)



section \<open>Both directions of a connection\<close>

text \<open>\<open>q\<close> goes the way back of \<open>p\<close>: addresses exchanged, the same protocol.\<close>

definition way_back :: "bool \<Rightarrow> packet \<Rightarrow> nat \<Rightarrow> packet \<Rightarrow> nat \<Rightarrow> bool" where
  "way_back v4 p nh q nh' \<longleftrightarrow> (if v4
     then p ! (nh + 9) = q ! (nh' + 9) \<and> bytes_at p (nh + 12) 4 = bytes_at q (nh' + 16) 4 \<and> bytes_at p (nh + 16) 4 = bytes_at q (nh' + 12) 4
     else bytes_at p (nh + 8) 16 = bytes_at q (nh' + 24) 16 \<and> bytes_at p (nh + 24) 16 = bytes_at q (nh' + 8) 16)"

lemma sum6_sym: "sum6 a b = sum6 b a"
  by (simp add: sum6_def algebra_simps)

lemma way_back_hash:
  "way_back True p nh q nh' \<Longrightarrow> hash4 p nh = hash4 q nh'" "way_back False p nh q nh' \<Longrightarrow> hash6 p nh = hash6 q nh'"
  by (simp_all add: way_back_def hash4_def hash6_def add.commute sum6_sym)

text \<open>C29: Both directions of a connection reach the same place: two packets with exchanged addresses and the same protocol, with or without
  VLAN tags, that belong to no bypassed flow (and, if that option is set, are not encrypted TLS) are sent to the same CPU, or to
  the same receive queue; the tables stay as they are.\<close>

theorem both_directions_same_cpu:
  assumes "hf_parse cfg p = Some (v4, nh, a, b)" and "hf_parse cfg q = Some (v4, nh', c, d)" and "way_back v4 p nh q nh'"
    and "bypass_key cfg p = Some k" and "bypass_key cfg q = Some k'" and "bypass_table s k = None" and "bypass_table s k' = None"
    and "v4 \<longrightarrow> \<not> is_tls cfg p nh \<and> \<not> is_tls cfg q nh'"
  shows "\<exists>r. xdp_hashfilter cfg p s = Some (r, s) \<and> xdp_hashfilter cfg q s = Some (r, s)"
proof -
  have id: "set_bypass_table (\<lambda>k'. if bypass_key cfg x = Some k' then map_option (count_pair (length x)) (bypass_table s k') else bypass_table s k') s = s"
    if "bypass_key cfg x = Some y" and "bypass_table s y = None" for x y
  proof -
    have "(\<lambda>k'. if bypass_key cfg x = Some k' then map_option (count_pair (length x)) (bypass_table s k') else bypass_table s k') = bypass_table s"
      using that by (auto simp: fun_eq_iff)
    then show ?thesis by simp
  qed
  have "\<not> is_bypassed cfg s p" "\<not> is_bypassed cfg s q" using assms(4-7) by (simp_all add: is_bypassed_def)
  moreover have "inspected cfg s p = inspected cfg s q"
    using assms(1,2,4,5,8) way_back_hash [of p nh q nh'] assms(3) by (cases v4) (simp_all add: inspected_def)
  ultimately show ?thesis using id [OF assms(4,6)] id [OF assms(5,7)] by (simp add: hashfilter_step)
qed

section \<open>VLAN ids\<close>

lemma upd_reads:
  assumes "15 < i"
  shows "bytes_at (p[15 := x]) i n = bytes_at p i n" "ld8 (p[15 := x]) i = ld8 p i" "ld16 (p[15 := x]) i = ld16 p i"
    "p[15 := x] ! i = p ! i"
  using assms by (simp_all add: ld8_def ld16_def rd_def)

lemma tls_upd: "18 \<le> nh \<Longrightarrow> tls_record cfg (p[15 := x]) nh d sp = tls_record cfg p nh d sp"
  by (auto simp: tls_record_def Let_def upd_reads)

lemma fields_upd:
  assumes "18 \<le> nh"
  shows "key4 (p[15 := x]) nh v0 v1 = key4 p nh v0 v1" "key6 (p[15 := x]) nh v0 v1 = key6 p nh v0 v1"
    "hash4 (p[15 := x]) nh = hash4 p nh" "hash6 (p[15 := x]) nh = hash6 p nh" "is_tls cfg (p[15 := x]) nh = is_tls cfg p nh"
    "ports_ok (p[15 := x]) off = ports_ok p off"
  using assms by (simp_all add: key4_def key6_def hash4_def hash6_def is_tls_def tls_upd upd_reads port_at_def Let_def ports_ok_def fun_eq_iff)

lemma tci_upd:
  assumes "16 \<le> length p" and "p ! 15 AND 0x0f = x AND 0x0f"
  shows "u16_at (p[15 := x]) 14 AND 0x0fff = u16_at p 14 AND 0x0fff"
proof -
  have m: "(0x0fff :: u16) = mask 12" "(0x0f :: u8) = mask 4" by (simp_all add: mask_eq_exp_minus_1)
  have "unat (p ! 15 AND mask 4) = unat (x AND mask 4)" using assms(2) by (simp add: m)
  then have x: "unat (p ! 15) mod 16 = unat x mod 16" by (simp add: unat_and_mask)
  have r: "(a + 256 * b) mod 4096 = a + 256 * (b mod 16)" if "a < 256" for a b :: nat
  proof -
    have "a + 256 * b = (a + 256 * (b mod 16)) + 4096 * (b div 16)" using div_mult_mod_eq [of b 16] by linarith
    moreover have "a + 256 * (b mod 16) < 4096" using that mod_less_divisor [of 16 b] by linarith
    ultimately show ?thesis by (metis mod_less mod_mult_self2)
  qed
  have "unat (u16_at (p[15 := x]) 14 AND mask 12) = unat (u16_at p 14 AND mask 12)"
    using assms(1) x by (simp add: unat_and_mask unat_u16_at r)
  then show ?thesis unfolding m by (simp add: word_unat_eq_iff)
qed

lemma hf_parse_upd:
  assumes "18 \<le> length p" and "p ! 15 AND 0x0f = x AND 0x0f" and "u16_at p 12 = bswap16 ETH_P_8021Q"
  shows "hf_parse cfg (p[15 := x]) = hf_parse cfg p" "hf_parse cfg p = Some (v4, nh, v0, v1) \<Longrightarrow> 18 \<le> nh"
proof -
  have l: "ld16 q 14 = Some (u16_at q 14)" "ld16 q 16 = Some (u16_at q 16)" if "18 \<le> length q" for q
    using that wp_ld16 [of q 14 "\<lambda>r. r = u16_at q 14"] wp_ld16 [of q 16 "\<lambda>r. r = u16_at q 16"] by (auto simp: wp_def)
  have t: "bytes_at (p[15 := x]) 12 2 = bytes_at p 12 2"
    by (simp add: drop_update_swap)
  have 1: "vlan_step q (u16_at p 12) 14 = Some (Some (u16_at q 16, 18, u16_at q 14 AND 0x0fff))" if "18 \<le> length q" for q
    using that assms(3) by (simp add: vlan_step_def l)
  have 2: "vlan_step (p[15 := x]) pr 18 = vlan_step p pr 18" for pr by (simp add: vlan_step_def upd_reads)
  have n: "18 \<le> nh'" if "vlan_step p pr 18 = Some (Some (pr', nh', v))" for pr pr' nh' v
    using that by (auto simp: vlan_step_def bind_eq_Some_conv split: if_splits)
  show "hf_parse cfg (p[15 := x]) = hf_parse cfg p"
    using assms(1) tci_upd [OF _ assms(2)] by (simp add: hf_parse_def t 1 2 upd_reads)
  show "18 \<le> nh" if "hf_parse cfg p = Some (v4, nh, v0, v1)"
  proof -
    obtain r where r: "vlan_step p (u16_at p 16) 18 = Some r" using vlan_total by blast
    show ?thesis using that assms(1) 1 [of p] r
      by (cases r) (auto simp: hf_parse_def Let_def dest: n split: if_splits)
  qed
qed

text \<open>VLAN ids are confused: the tag is masked before its bytes are put into host order, so four of the twelve bits
  of the id are lost.  Two tagged packets whose VLAN ids differ only there (such as 16 and 32) are treated as one: if the
  flow of one is bypassed, so is the other's.\<close>

theorem vlan_ids_confused:
  assumes "18 \<le> length p" and "u16_at p 12 = bswap16 ETH_P_8021Q" and "p ! 15 AND 0x0f = x AND 0x0f"
  shows "bypass_key cfg (p[15 := x]) = bypass_key cfg p \<and> xdp_hashfilter cfg (p[15 := x]) s = xdp_hashfilter cfg p s"
proof -
  note h = hf_parse_upd [OF assms(1,3,2)]
  have k: "bypass_key cfg (p[15 := x]) = bypass_key cfg p \<and> inspected cfg s (p[15 := x]) = inspected cfg s p"
  proof (cases "hf_parse cfg p")
    case None
    then show ?thesis by (simp add: bypass_key_def inspected_def h(1))
  next
    case (Some y)
    obtain v4 nh v0 v1 where y: "y = (v4, nh, v0, v1)" by (cases y)
    have "18 \<le> nh" by (rule h(2) [OF Some [unfolded y]])
    then show ?thesis using Some y by (simp add: bypass_key_def inspected_def h(1) fields_upd upd_reads)
  qed
  moreover have "length (p[15 := x]) = length p" by simp
  ultimately show ?thesis by (simp only: hashfilter_step is_bypassed_def)
qed


definition suri0 :: suri_maps where
  "suri0 = \<lparr>flow_table_v4 = Map.empty, flow_table_v6 = Map.empty, cpu_map = Some, cpus_available = Some,
     cpus_count = [0 \<mapsto> 8], tx_peer = [0 \<mapsto> 1], tx_peer_int = [0 \<mapsto> 1]\<rparr>"

definition ping :: "u8 \<Rightarrow> u8 \<Rightarrow> packet" where
  "ping a b = replicate 12 0 @ [8, 0] @ replicate 9 0 @ [1] @ [0, 0] @ [a, 0, 0, 10, b, 0, 0, 10]"

lemma ping_simps:
  "hf_parse suri_default (ping a b) = Some (True, 14, 0, 0)"
  "bypass_key suri_default (ping a b) = Some (Inl (key4 (ping a b) 14 0 0))" "is_tls suri_default (ping a b) 14 = False"
proof -
  show h: "hf_parse suri_default (ping a b) = Some (True, 14, 0, 0)"
    by (simp add: ping_def hf_parse_def vlan_step_def le_word_def bswap16_def ETH_P_IP_def ETH_P_8021Q_def ETH_P_8021AD_def Let_def)
  show "bypass_key suri_default (ping a b) = Some (Inl (key4 (ping a b) 14 0 0))"
    by (simp add: bypass_key_def h) (simp add: ping_def ports_ok_def nth_append proto_defs)
  show "is_tls suri_default (ping a b) 14 = False" by (simp add: is_tls_def tls_record_def suri_default_def Let_def)
qed

theorem both_directions_same_cpu_witness:
  "\<exists>r. xdp_hashfilter suri_default (ping 1 2) suri0 = Some (r, suri0) \<and> xdp_hashfilter suri_default (ping 2 1) suri0 = Some (r, suri0)"
proof (rule both_directions_same_cpu [OF ping_simps(1) ping_simps(1) _ ping_simps(2) ping_simps(2)])
  show "way_back True (ping 1 2) 14 (ping 2 1) 14" by (simp add: way_back_def ping_def nth_append)
  show "bypass_table suri0 (Inl (key4 (ping 1 2) 14 0 0)) = None" "bypass_table suri0 (Inl (key4 (ping 2 1) 14 0 0)) = None"
    by (simp_all add: bypass_table_def suri0_def)
  show "True \<longrightarrow> \<not> is_tls suri_default (ping 1 2) 14 \<and> \<not> is_tls suri_default (ping 2 1) 14" by (simp add: ping_simps)
qed

theorem vlan_ids_confused_witness:
  "xdp_hashfilter suri_default (replicate 12 0 @ [0x81, 0, 0, 32, 8, 0] @ replicate 20 0) suri0 =
   xdp_hashfilter suri_default (replicate 12 0 @ [0x81, 0, 0, 16, 8, 0] @ replicate 20 0) suri0"
  using vlan_ids_confused [of "replicate 12 0 @ [0x81, 0, 0, 16, 8, 0] @ replicate 20 0" 32 suri_default suri0]
  by (simp add: nth_append list_update_append le_word_def bswap16_def ETH_P_8021Q_def)


section \<open>Tunnelled frames\<close>

definition gre_len :: "u16 \<Rightarrow> u16 \<Rightarrow> nat" where
  "gre_len flags proto = 4 + (if flags AND GRE_CSUM \<noteq> 0 then 4 else 0) + (if flags AND GRE_KEY \<noteq> 0 then 4 else 0)
     + (if flags AND GRE_SEQ \<noteq> 0 then 4 else 0) + (if proto = bswap16 ETH_P_ERSPAN then 8 else 0)"

text \<open>A GRE packet the program can look into: IPv4 without options, version 0, no routing.\<close>

definition is_gre :: "packet \<Rightarrow> bool" where
  "is_gre p \<longleftrightarrow> 38 \<le> length p \<and> u16_at p 12 = bswap16 ETH_P_IP \<and> p ! 23 = IPPROTO_GRE \<and>
     u16_at p 34 AND (GRE_VERSION OR GRE_ROUTING) = 0 \<and> 34 + gre_len (u16_at p 34) (u16_at p 36) \<le> length p"

lemma types_differ: "bswap16 ETH_P_IP \<noteq> bswap16 ETH_P_8021Q" "bswap16 ETH_P_IP \<noteq> bswap16 ETH_P_8021AD"
  "bswap16 ETH_P_IPV6 \<noteq> bswap16 ETH_P_8021Q" "bswap16 ETH_P_IPV6 \<noteq> bswap16 ETH_P_8021AD" "bswap16 ETH_P_IPV6 \<noteq> bswap16 ETH_P_IP"
  by (simp_all add: bswap16_def ETH_P_IP_def ETH_P_IPV6_def ETH_P_8021Q_def ETH_P_8021AD_def)

lemma loadfilter_plain:
  assumes "14 \<le> length p"
  shows "u16_at p 12 = bswap16 ETH_P_IP \<Longrightarrow> xdp_loadfilter env p s = lb_filter_ipv4 env p 14 s"
    "u16_at p 12 = bswap16 ETH_P_IPV6 \<Longrightarrow> xdp_loadfilter env p s = lb_filter_ipv6 p 14 s"
  using assms types_differ by (simp_all add: xdp_loadfilter_def ld16_at ld8_at vlan_step_def)

text \<open>A mirrored frame in a GRE tunnel is balanced like the frame itself: when the kernel grants the cut, the program sends the
  packet to the CPU it would send the inner frame to, and what is left of the packet is the inner frame.  (The inner frame is
  untagged IPv4 or IPv6, and no tunnel itself.)\<close>

theorem gre_like_inner:
  assumes "env_ok env" and "is_gre p" and "bpf_xdp_adjust_head env p (34 + int (gre_len (u16_at p 34) (u16_at p 36))) = Some f"
    and "14 \<le> length f" and "u16_at f 12 = bswap16 ETH_P_IP \<and> (34 \<le> length f \<longrightarrow> f ! 23 \<noteq> IPPROTO_GRE) \<or> u16_at f 12 = bswap16 ETH_P_IPV6"
  shows "f = drop (34 + gre_len (u16_at p 34) (u16_at p 36)) p \<and> xdp_loadfilter env p s = xdp_loadfilter env f s"
proof
  let ?n = "34 + gre_len (u16_at p 34) (u16_at p 36)"
  have l: "38 \<le> length p" "?n \<le> length p" "u16_at p 12 = bswap16 ETH_P_IP" "p ! 23 = IPPROTO_GRE"
    "u16_at p 34 AND (GRE_VERSION OR GRE_ROUTING) = 0" using assms(2) by (simp_all add: is_gre_def)
  show "f = drop ?n p" using adjust_head_shrink(2) [OF assms(1,3)] by (simp add: nat_add_distrib)
  have "xdp_loadfilter env p s = filter_gre env p 14 s"
    using l loadfilter_plain(1) [of p env s] by (simp add: lb_filter_ipv4_def ld16_at ld8_at)
  also have "\<dots> = (if u16_at f 12 = bswap16 ETH_P_IP then map_option (\<lambda>r. (r, f)) (hash_ipv4 f 14 s)
      else map_option (\<lambda>r. (r, f)) (hash_ipv6 f 14 s))"
    using l assms(3-5) types_differ by (auto simp: filter_gre_def Let_def ld16_at ld8_at gre_len_def add.assoc)
  also have "\<dots> = xdp_loadfilter env f s"
    using assms(4,5) loadfilter_plain [of f env s] types_differ
    by (auto simp: lb_filter_ipv4_def lb_filter_ipv6_def ld16_at ld8_at hash_ipv4_def)
  finally show "xdp_loadfilter env p s = xdp_loadfilter env f s" .
qed

definition mirrored :: packet where
  "mirrored = (replicate 12 0 @ [8, 0] @ replicate 9 0 @ [47] @ replicate 10 0 @ [0, 0, 0x65, 0x58]) @ ping 1 2"

theorem gre_like_inner_witness: "xdp_loadfilter kernel_env mirrored suri0 = xdp_loadfilter kernel_env (ping 1 2) suri0"
proof -
  have g: "is_gre mirrored" "gre_len (u16_at mirrored 34) (u16_at mirrored 36) = 4" "drop 38 mirrored = ping 1 2"
    "length mirrored = 72" "14 \<le> length (ping 1 2)" "u16_at (ping 1 2) 12 = bswap16 ETH_P_IP" "ping 1 2 ! 23 \<noteq> IPPROTO_GRE"
    by (simp_all add: is_gre_def mirrored_def ping_def gre_len_def le_word_def bswap16_def nth_append ETH_P_IP_def IPPROTO_GRE_def
        GRE_CSUM_def GRE_KEY_def GRE_SEQ_def GRE_VERSION_def GRE_ROUTING_def ETH_P_ERSPAN_def)
  have "bpf_xdp_adjust_head kernel_env mirrored 38 = Some (ping 1 2)"
    using g by (simp add: kernel_env_def kernel_adjust_head_def)
  then show ?thesis using gre_like_inner [OF kernel_env_ok g(1), of "ping 1 2" suri0] g(2-7) by simp
qed


section \<open>The socket load balancer\<close>

lemma low_half_bswap32:
  assumes "i + 4 \<le> length p"
  shows "ucast (bswap32 (u32_at p i)) = bswap16 (u16_at p (i + 2))"
proof -
  have m: "(0xff00 :: u32) = push_bit 8 (mask 8)" "(0xff0000 :: u32) = push_bit 16 (mask 8)"
    by (simp_all add: mask_eq_exp_minus_1 push_bit_eq_mult)
  have "ucast (bswap32 w) = bswap16 (ucast (drop_bit 16 w))" for w
    unfolding bswap32_def m by (rule bit_word_eqI) (auto simp: bit_simps bswap16_bit add.commute dest: bit_imp_le_length)
  moreover have "(ucast (drop_bit 16 (u32_at p i)) :: u16) = u16_at p (i + 2)"
  proof -
    have "bytes_at p i 4 = bytes_at p i 2 @ bytes_at p (i + 2) 2" using take_add [of 2 2 "drop i p"] by (simp add: add.commute)
    moreover have "le_val (xs @ ys) = le_val xs + 256 ^ length xs * le_val ys" for xs ys
      by (induction xs) (simp_all add: algebra_simps)
    ultimately have v: "le_val (bytes_at p i 4) = le_val (bytes_at p i 2) + 65536 * le_val (bytes_at p (i + 2) 2)"
      using assms by simp
    have b: "le_val (bytes_at p i 2) < 65536" "le_val (bytes_at p (i + 2) 2) < 65536" "le_val (bytes_at p i 4) < 4294967296"
      using le_val_less [of "bytes_at p i 2"] le_val_less [of "bytes_at p (i + 2) 2"] le_val_less [of "bytes_at p i 4"] assms by simp_all
    have "unat (ucast (drop_bit 16 (u32_at p i)) :: u16) = unat (u16_at p (i + 2))"
      using b v by (simp add: unat_ucast_mod unat_drop le_word_def unat_of_nat del: of_nat_add of_nat_mult)
    then show ?thesis by (simp only: word_unat_eq_iff)
  qed
  ultimately show ?thesis by simp
qed

lemma lb_untagged:
  assumes "20 \<le> length p" and "u16_at p 12 = bswap16 ETH_P_IP"
  shows "lb 0 p = bswap16 (u16_at p 14) + bswap16 (u16_at p 18)"
proof -
  have w: "load_word p i = Some (bswap32 (u32_at p i))" if "i + 4 \<le> length p" for i
    using that wp_ld32 [of p i "\<lambda>r. r = u32_at p i"] by (auto simp: wp_def load_word_def)
  have "ucast (a + b :: u32) = (ucast a + ucast b :: u16)" for a b
    by (rule word_unat_eq_iff [THEN iffD2]) (simp add: unat_ucast_mod unat_word_ariths mod_simps mod_mod_cancel)
  then show ?thesis
    using assms w [of 12] w [of 16] low_half_bswap32 [of 12 p] low_half_bswap32 [of 16 p] types_differ
    by (simp add: lb_def load_half_def ld16_at ld8_at lb_ipv4_hash_def ETH_P_IP_def ETH_P_8021Q_def ETH_P_8021AD_def)
qed

text \<open>The socket load balancer tears untagged flows apart: it hashes from the beginning of the frame, as \<open>cb[0]\<close> is not set, so two packets
  of one flow that differ in nothing but the IP identification, which changes from packet to packet, never have the same hash.\<close>

theorem lb_splits_flows:
  assumes "20 \<le> length p" and "u16_at p 12 = bswap16 ETH_P_IP" and "length ident = 2" and "ident \<noteq> bytes_at p 18 2"
  shows "lb 0 (patch p 18 ident) \<noteq> lb 0 p"
proof -
  have l: "length (patch p 18 ident) = length p" using assms(1,3) by simp
  have o: "bytes_at (patch p 18 ident) 12 2 = bytes_at p 12 2" "bytes_at (patch p 18 ident) 14 2 = bytes_at p 14 2"
    "bytes_at (patch p 18 ident) 18 2 = ident"
    using assms(1,3) bytes_at_patch_same [of 18 ident p] by (simp_all add: bytes_at_patch_other)
  have "le_bytes 2 (le_word ident :: u16) = ident" "le_bytes 2 (u16_at p 18) = bytes_at p 18 2"
    using assms(1,3) by (simp_all add: le_bytes_word)
  then have "(le_word ident :: u16) \<noteq> u16_at p 18" using assms(4) by metis
  then have "bswap16 (le_word ident) \<noteq> bswap16 (u16_at p 18)" by (metis bswap16_bswap16)
  then show ?thesis using assms(1,2) l o lb_untagged [of p] lb_untagged [of "patch p 18 ident"] by simp
qed

theorem lb_splits_flows_witness: "lb 0 (patch (ping 1 2) 18 [0, 1]) \<noteq> lb 0 (ping 1 2)"
proof -
  have "[0, 1 :: u8] \<noteq> replicate 2 0" by (simp add: numeral_2_eq_2)
  then show ?thesis by (intro lb_splits_flows) (simp_all add: ping_def le_word_def bswap16_def ETH_P_IP_def)
qed

end
