(* ===== verification/Mptm.thy ===== *)
theory Mptm
  imports Katran_Tunnel
begin

text \<open>
  \<open>xdp-mptm-main\<close>: the tunnels \<open>mptm_encap\<close> and \<open>mptm_decap\<close> with the headers \<open>pkt-parse.h\<close>, \<open>pkt-encap.h\<close>,
  \<open>geneve.h\<close> and \<open>map-defs.h\<close>.  The checksum helpers of \<open>pkt-encap.h\<close> are katran's (\<open>ipv4_csum_inline\<close>), and so is the
  order of the stores in the outer header.  The theorems: the exact datagram on the wire, the round trip through two nodes, and
  what happens when the headers do not fit.
\<close>

section \<open>Data\<close>

definition BE_ETH_P_ARP :: u16 where "BE_ETH_P_ARP = 0x0608"
definition BE_GENEVE_DSTPORT :: u16 where "BE_GENEVE_DSTPORT = 0xc117"
definition ETH_P_TEB :: u16 where "ETH_P_TEB = 0x6558"
definition VLAN :: u8 where "VLAN = 1"
definition GENEVE :: u8 where "GENEVE = 3"

record geneve_info =
  gn_vlan_id :: u64
  gn_source_port :: u16
  gn_dest_addr :: u32
  gn_source_addr :: u32
  gn_inner_dest_mac :: "u8 list"
  gn_source_mac :: "u8 list"
  gn_dest_mac :: "u8 list"

text \<open>The union of the tunnel kinds is read through its largest member: the VLAN id is the low half word of
  the first field.\<close>

record tunnel_info =
  tunnel_type :: u8
  tn_redirect :: u8
  eth0_iface :: u32
  veth_iface :: u32
  tnl_info :: geneve_info

definition tnl_vlan :: "tunnel_info \<Rightarrow> u16" where
  "tnl_vlan tn = ucast (gn_vlan_id (tnl_info tn))"

record mptm_map_key =
  s_addr :: u32
  d_addr :: u32

record mptm_maps =
  mptm_tnl_info_map :: "mptm_map_key \<rightharpoonup> tunnel_info"
  mptm_tnl_redirect_devmap :: "u32 \<rightharpoonup> u32"

text \<open>The parsers, the VLAN helper and the statistics of the XDP tutorial are not part of the repository.  A parser gives the
  offset of the header and of what follows it (and the next protocol), \<open>None\<close> being the result -1.\<close>

record mptm_env = bpf_env +
  parse_ethhdr :: "packet \<Rightarrow> nat \<Rightarrow> (nat \<times> nat) option"
  parse_iphdr :: "packet \<Rightarrow> nat \<Rightarrow> (nat \<times> nat \<times> u8) option"
  parse_udphdr :: "packet \<Rightarrow> nat \<Rightarrow> (nat \<times> nat) option"
  vlan_tag_push :: "packet \<Rightarrow> nat \<Rightarrow> u16 \<Rightarrow> packet option"
  xdp_stats_record_action :: "packet \<Rightarrow> int \<Rightarrow> int"

section \<open>Parsing\<close>

text \<open>Which headers are asked for; the result is \<open>None\<close> inside for a non-zero return, else the offsets of the headers found.\<close>

datatype wanted = Want_ip | Want_udp

definition parse_pkt_headers :: "mptm_env \<Rightarrow> packet \<Rightarrow> wanted \<Rightarrow> (nat \<times> nat \<times> nat) option option" where
  "parse_pkt_headers env data w =
     (case parse_ethhdr env data 0 of
        None \<Rightarrow> Some None
      | Some (eth, nh) \<Rightarrow> do {
          h_proto \<leftarrow> ld16 data (eth + 12);
          if h_proto = BE_ETH_P_ARP then Some None
          else if h_proto \<noteq> BE_ETH_P_IP then Some None
          else (case parse_iphdr env data nh of
                  None \<Rightarrow> Some None
                | Some (ip, nh, nh_type) \<Rightarrow>
                    (case w of
                       Want_ip \<Rightarrow> Some (Some (eth, ip, 0))
                     | Want_udp \<Rightarrow>
                         if nh_type = IPPROTO_TCP then Some None
                         else (case parse_udphdr env data nh of
                                 None \<Rightarrow> Some None
                               | Some (udp, _) \<Rightarrow> Some (Some (eth, ip, udp))))) })"

section \<open>Encapsulation\<close>

definition set_dst_mac :: "packet \<Rightarrow> u8 list \<Rightarrow> packet option" where
  "set_dst_mac data mac = wr data 0 (take 6 mac)"

definition set_src_mac :: "packet \<Rightarrow> u8 list \<Rightarrow> packet option" where
  "set_src_mac data mac = wr data 6 (take 6 mac)"

text \<open>The outer IP header; the identification stays what it was.\<close>

definition outer_ip :: "packet \<Rightarrow> nat \<Rightarrow> u16 \<Rightarrow> geneve_info \<Rightarrow> packet option" where
  "outer_ip p ip payload tn = do {
     p \<leftarrow> st_hi p ip 4;
     p \<leftarrow> st_lo p ip 5;
     p \<leftarrow> st16 p (ip + 6) 0;
     p \<leftarrow> st8 p (ip + 9) IPPROTO_UDP;
     p \<leftarrow> st16 p (ip + 10) 0;
     p \<leftarrow> st8 p (ip + 1) 0;
     p \<leftarrow> st16 p (ip + 2) (bswap16 payload);
     p \<leftarrow> st32 p (ip + 16) (gn_dest_addr tn);
     p \<leftarrow> st32 p (ip + 12) (gn_source_addr tn);
     p \<leftarrow> st8 p (ip + 8) DEFAULT_TTL;
     c \<leftarrow> ipv4_csum_inline p ip 0;
     st16 p (ip + 10) (ucast c)
   }"

definition outer_udp :: "packet \<Rightarrow> nat \<Rightarrow> u16 \<Rightarrow> geneve_info \<Rightarrow> packet option" where
  "outer_udp p udp payload tn = do {
     p \<leftarrow> st16 p (udp + 6) 0;
     p \<leftarrow> st16 p udp (gn_source_port tn);
     p \<leftarrow> st16 p (udp + 2) BE_GENEVE_DSTPORT;
     st16 p (udp + 4) (bswap16 payload)
   }"

text \<open>All fields but the protocol and the network id are zero.\<close>

definition outer_geneve :: "packet \<Rightarrow> nat \<Rightarrow> geneve_info \<Rightarrow> packet option" where
  "outer_geneve p gnv tn = do {
     p \<leftarrow> wr p gnv (replicate 8 0);
     p \<leftarrow> st16 p (gnv + 2) (bswap16 ETH_P_TEB);
     p \<leftarrow> st8 p (gnv + 4) (ucast (drop_bit 16 (gn_vlan_id tn)));
     p \<leftarrow> st8 p (gnv + 5) (ucast (drop_bit 8 (gn_vlan_id tn)));
     st8 p (gnv + 6) (ucast (gn_vlan_id tn))
   }"

definition encap_geneve :: "mptm_env \<Rightarrow> packet \<Rightarrow> geneve_info \<Rightarrow> (int \<times> packet) option" where
  "encap_geneve env data tn = (
     let old_size = length data
     in if 14 > length data then Some (XDP_ABORTED, data)
        else do {
          data \<leftarrow> set_dst_mac data (gn_inner_dest_mac tn);
          case bpf_xdp_adjust_head env data (- (8 + 8 + 20 + 14)) of
            None \<Rightarrow> Some (XDP_DROP, data)
          | Some data \<Rightarrow>
              if 14 > length data then Some (XDP_ABORTED, data)
              else if 14 + 20 > length data then Some (XDP_ABORTED, data)
              else if 34 + 8 > length data then Some (XDP_ABORTED, data)
              else if 42 + 8 > length data then Some (XDP_ABORTED, data)
              else do {
                data \<leftarrow> st16 data 12 BE_ETH_P_IP;
                data \<leftarrow> set_dst_mac data (gn_dest_mac tn);
                data \<leftarrow> set_src_mac data (gn_source_mac tn);
                data \<leftarrow> outer_ip data 14 (of_nat (8 + 8 + 20 + old_size)) tn;
                data \<leftarrow> outer_udp data 34 (of_nat (8 + 8 + old_size)) tn;
                data \<leftarrow> outer_geneve data 42 tn;
                Some (XDP_PASS, data) } })"

definition encap_vlan :: "mptm_env \<Rightarrow> packet \<Rightarrow> nat \<Rightarrow> tunnel_info \<Rightarrow> (int \<times> packet) option" where
  "encap_vlan env data eth tn = (case vlan_tag_push env data eth (tnl_vlan tn) of
     None \<Rightarrow> Some (XDP_ABORTED, data) | Some data \<Rightarrow> Some (XDP_PASS, data))"

section \<open>The programs\<close>

text \<open>The result: the action, the interface a redirection goes to, and the packet.\<close>

type_synonym mptm_res = "int \<times> u32 option \<times> packet"

definition redirect_map :: "mptm_maps \<Rightarrow> u32 \<Rightarrow> int \<times> u32 option" where
  "redirect_map s key = (case mptm_tnl_redirect_devmap s key of None \<Rightarrow> (XDP_ABORTED, None) | Some i \<Rightarrow> (XDP_REDIRECT, Some i))"

definition record_action :: "mptm_env \<Rightarrow> packet \<Rightarrow> int \<times> u32 option \<Rightarrow> mptm_res" where
  "record_action env data r = (xdp_stats_record_action env data (fst r), snd r, data)"

definition mptm_encap :: "mptm_env \<Rightarrow> packet \<Rightarrow> mptm_maps \<Rightarrow> mptm_res option" where
  "mptm_encap env data s = do {
     h \<leftarrow> parse_pkt_headers env data Want_ip;
     case h of None \<Rightarrow> Some (record_action env data (XDP_PASS, None))
     | Some (eth, ip, _) \<Rightarrow> do {
         saddr \<leftarrow> ld32 data (ip + 12);
         daddr \<leftarrow> ld32 data (ip + 16);
         case mptm_tnl_info_map s \<lparr>s_addr = saddr, d_addr = daddr\<rparr> of
           None \<Rightarrow> Some (record_action env data (XDP_PASS, None))
         | Some tn \<Rightarrow>
             if tunnel_type tn = VLAN \<or> tunnel_type tn = GENEVE then do {
               (action, data) \<leftarrow> (if tunnel_type tn = VLAN then encap_vlan env data eth tn
                                  else encap_geneve env data (tnl_info tn));
               Some (record_action env data
                 (if tn_redirect tn \<noteq> 0 then redirect_map s (veth_iface tn) else (action, None))) }
             else Some (record_action env data (XDP_PASS, None)) } }"

definition mptm_decap :: "mptm_env \<Rightarrow> packet \<Rightarrow> mptm_maps \<Rightarrow> mptm_res option" where
  "mptm_decap env data s = do {
     h \<leftarrow> parse_pkt_headers env data Want_udp;
     case h of None \<Rightarrow> Some (record_action env data (XDP_PASS, None))
     | Some (_, _, udp) \<Rightarrow> do {
         dest \<leftarrow> ld16 data (udp + 2);
         if dest = BE_GENEVE_DSTPORT then
           (case bpf_xdp_adjust_head env data (8 + 8 + 20 + 14) of
              None \<Rightarrow> Some (XDP_DROP, None, data)
            | Some data \<Rightarrow> do {
                h \<leftarrow> parse_pkt_headers env data Want_ip;
                case h of None \<Rightarrow> Some (record_action env data (XDP_PASS, None))
                | Some (_, ip, _) \<Rightarrow> do {
                    saddr \<leftarrow> ld32 data (ip + 12);
                    daddr \<leftarrow> ld32 data (ip + 16);
                    case mptm_tnl_info_map s \<lparr>s_addr = daddr, d_addr = saddr\<rparr> of
                      None \<Rightarrow> Some (record_action env data (XDP_PASS, None))
                    | Some tn \<Rightarrow>
                        if tunnel_type tn \<noteq> GENEVE then Some (XDP_DROP, None, data)
                        else Some (record_action env data (redirect_map s (eth0_iface tn))) } })
         else Some (record_action env data (XDP_PASS, None)) } }"


text \<open>The two programs of \<open>mptm_extras.c\<close> that stand at the other end of a veth pair.\<close>

definition mptm_redirect :: "(u32 \<rightharpoonup> u32) \<Rightarrow> u32 \<Rightarrow> int \<times> u32 option" where
  "mptm_redirect devmap ingress_ifindex =
     (case devmap ingress_ifindex of None \<Rightarrow> (XDP_ABORTED, None) | Some i \<Rightarrow> (XDP_REDIRECT, Some i))"

definition mptm_pass :: int where
  "mptm_pass = XDP_PASS"

section \<open>What the parsers promise\<close>

text \<open>A successful parse gives a header that lies inside the packet, at the position asked for.\<close>

definition parsers_safe :: "mptm_env \<Rightarrow> bool" where
  "parsers_safe env \<longleftrightarrow>
     (\<forall>p i h j. parse_ethhdr env p i = Some (h, j) \<longrightarrow> h = i \<and> i + 14 \<le> j \<and> j \<le> length p) \<and>
     (\<forall>p i h j t. parse_iphdr env p i = Some (h, j, t) \<longrightarrow> h = i \<and> i + 20 \<le> j \<and> j \<le> length p) \<and>
     (\<forall>p i h j. parse_udphdr env p i = Some (h, j) \<longrightarrow> h = i \<and> j = i + 8 \<and> j \<le> length p)"

text \<open>Frames without a VLAN tag and IP headers without options are accepted, and so is a datagram whose length
  covers its header.\<close>

definition parsers_accept :: "mptm_env \<Rightarrow> bool" where
  "parsers_accept env \<longleftrightarrow>
     (\<forall>p. 14 \<le> length p \<longrightarrow> u16_at p 12 = BE_ETH_P_IP \<longrightarrow> parse_ethhdr env p 0 = Some (0, 14)) \<and>
     (\<forall>p i. i + 20 \<le> length p \<longrightarrow> p ! i = 0x45 \<longrightarrow> parse_iphdr env p i = Some (i, i + 20, p ! (i + 9))) \<and>
     (\<forall>p i. i + 8 \<le> length p \<longrightarrow> 8 \<le> unat (bswap16 (u16_at p (i + 4))) \<longrightarrow> parse_udphdr env p i = Some (i, i + 8))"

definition macs_ok :: "geneve_info \<Rightarrow> bool" where
  "macs_ok tn \<longleftrightarrow> length (gn_inner_dest_mac tn) = 6 \<and> length (gn_source_mac tn) = 6 \<and> length (gn_dest_mac tn) = 6"

section \<open>The outer headers\<close>

lemma outer_ip_eq:
  "outer_ip p ip n tn = create_v4_hdr p ip 0 (gn_source_addr tn) (gn_dest_addr tn) (n - 20) IPPROTO_UDP"
  by (simp add: outer_ip_def create_v4_hdr_def)

definition geneve_vni :: "u64 \<Rightarrow> u8 list" where
  "geneve_vni v = [ucast (drop_bit 16 v), ucast (drop_bit 8 v), ucast v]"

definition geneve_front :: "geneve_info \<Rightarrow> u8 list \<Rightarrow> u16 \<Rightarrow> nat \<Rightarrow> u8 list" where
  "geneve_front tn ident c n =
     gn_dest_mac tn @ gn_source_mac tn @ le_bytes 2 BE_ETH_P_IP
     @ ipv4_hdr 0 (of_nat (36 + n)) ident IPPROTO_UDP c (gn_source_addr tn) (gn_dest_addr tn)
     @ le_bytes 2 (gn_source_port tn) @ le_bytes 2 BE_GENEVE_DSTPORT @ le_bytes 2 (bswap16 (of_nat (16 + n))) @ [0, 0]
     @ [0, 0, 0x65, 0x58] @ geneve_vni (gn_vlan_id tn) @ [0]"

definition geneve_sent :: "packet \<Rightarrow> geneve_info \<Rightarrow> packet \<Rightarrow> bool" where
  "geneve_sent p tn p' \<longleftrightarrow> (\<exists>ident c. length ident = 2 \<and>
     ip_csum_ok (ipv4_hdr 0 (of_nat (36 + length p)) ident IPPROTO_UDP c (gn_source_addr tn) (gn_dest_addr tn)) \<and>
     p' = geneve_front tn ident c (length p) @ gn_inner_dest_mac tn @ drop 6 p)"

lemma outer_udp_wp:
  assumes "length A = 34" and "length u = 8"
    and "Q (A @ le_bytes 2 (gn_source_port tn) @ le_bytes 2 BE_GENEVE_DSTPORT @ le_bytes 2 (bswap16 n) @ [0, 0] @ R)"
  shows "wp (outer_udp (A @ u @ R) 34 n tn) Q"
  using assms unfolding outer_udp_def by (simp add: wp_simps patch_def le_bytes2_zero)

lemma teb_bytes: "le_bytes 2 (bswap16 ETH_P_TEB) = [0x65, 0x58]"
proof -
  have "unat (bswap16 ETH_P_TEB) = 22629" by (simp add: ETH_P_TEB_def unat_bswap16)
  then show ?thesis by (simp add: le_bytes_def numeral_2_eq_2)
qed

lemma replicate8: "replicate 8 (0 :: u8) = [0, 0, 0, 0, 0, 0, 0, 0]"
  by (simp add: numeral_eq_Suc)

lemma outer_geneve_wp:
  assumes "length A = 42" and "length g = 8"
    and "Q (A @ [0, 0, 0x65, 0x58] @ geneve_vni (gn_vlan_id tn) @ [0] @ R)"
  shows "wp (outer_geneve (A @ g @ R) 42 tn) Q"
  using assms unfolding outer_geneve_def by (simp add: wp_simps patch_def teb_bytes geneve_vni_def replicate8)


lemma outer_eth_wp:
  assumes "length e = 14" and "macs_ok tn" and "wp (f (gn_dest_mac tn @ gn_source_mac tn @ le_bytes 2 BE_ETH_P_IP @ R)) Q"
  shows "wp (do { data \<leftarrow> st16 (e @ R) 12 BE_ETH_P_IP; data \<leftarrow> set_dst_mac data (gn_dest_mac tn);
      data \<leftarrow> set_src_mac data (gn_source_mac tn); f data }) Q"
  using assms unfolding set_dst_mac_def set_src_mac_def macs_ok_def by (simp add: wp_simps patch_def)

lemma outer_ip_wp:
  assumes "length A = 14" and "length h = 20"
    and "\<And>c. ip_csum_ok (ipv4_hdr 0 n (bytes_at h 4 2) IPPROTO_UDP c (gn_source_addr tn) (gn_dest_addr tn)) \<Longrightarrow>
      Q (A @ ipv4_hdr 0 n (bytes_at h 4 2) IPPROTO_UDP c (gn_source_addr tn) (gn_dest_addr tn) @ R)"
  shows "wp (outer_ip (A @ h @ R) 14 n tn) Q"
  unfolding outer_ip_eq using assms by (intro create_v4_hdr_bytes) simp_all

lemma split50:
  fixes g :: packet
  assumes "length g = 50"
  obtains e h u v where "g = e @ h @ u @ v" "length e = 14" "length h = 20" "length u = 8" "length v = 8"
proof
  show "g = take 14 g @ bytes_at g 14 20 @ bytes_at g 34 8 @ drop 42 g"
    using take_drop_parts [of 14 20 g] take_drop_parts [of 0 8 "drop 34 g"] assms by simp
qed (use assms in simp_all)

lemma outer_headers_wp:
  assumes l: "length e = 14" "length h = 20" "length u = 8" "length v = 8" and m: "macs_ok tn"
    and n: "a = of_nat (36 + n)" "b = of_nat (16 + n)"
    and q: "\<And>c. ip_csum_ok (ipv4_hdr 0 (of_nat (36 + n)) (bytes_at h 4 2) IPPROTO_UDP c (gn_source_addr tn) (gn_dest_addr tn)) \<Longrightarrow>
      Q (XDP_PASS, geneve_front tn (bytes_at h 4 2) c n @ P)"
  shows "wp (do {
      data \<leftarrow> st16 (e @ h @ u @ v @ P) 12 BE_ETH_P_IP;
      data \<leftarrow> set_dst_mac data (gn_dest_mac tn);
      data \<leftarrow> set_src_mac data (gn_source_mac tn);
      data \<leftarrow> outer_ip data 14 a tn;
      data \<leftarrow> outer_udp data 34 b tn;
      data \<leftarrow> outer_geneve data 42 tn;
      Some (XDP_PASS, data) }) Q"
proof (rule outer_eth_wp [OF l(1) m], rule wp_bindI)
  let ?E = "gn_dest_mac tn @ gn_source_mac tn @ le_bytes 2 BE_ETH_P_IP"
  let ?I = "\<lambda>c. ipv4_hdr 0 (of_nat (36 + n)) (bytes_at h 4 2) IPPROTO_UDP c (gn_source_addr tn) (gn_dest_addr tn)"
  let ?U = "le_bytes 2 (gn_source_port tn) @ le_bytes 2 BE_GENEVE_DSTPORT @ le_bytes 2 (bswap16 b) @ [0, 0]"
  have e: "length ?E = 14" using m by (simp add: macs_ok_def)
  have i: "length (?I c) = 20" for c using l(2) by (simp add: ipv4_hdr_def)
  have gnv: "wp (outer_geneve ((?E @ ?I c @ ?U) @ v @ P) 42 tn) (\<lambda>data. wp (Some (XDP_PASS, data)) Q)"
    if "ip_csum_ok (?I c)" for c
    using q [OF that] e i [of c] l(4) n by (intro outer_geneve_wp) (simp_all add: wp_Some geneve_front_def)
  have udp: "wp (outer_udp ((?E @ ?I c) @ u @ v @ P) 34 b tn) (\<lambda>data. wp (do {
      data \<leftarrow> outer_geneve data 42 tn; Some (XDP_PASS, data) }) Q)" if "ip_csum_ok (?I c)" for c
    using gnv [OF that] e i [of c] l(3) by (intro outer_udp_wp wp_bindI) simp_all
  have "wp (outer_ip (?E @ h @ u @ v @ P) 14 a tn) (\<lambda>data. wp (do {
      data \<leftarrow> outer_udp data 34 b tn; data \<leftarrow> outer_geneve data 42 tn; Some (XDP_PASS, data) }) Q)"
    using udp unfolding n(1) by (intro outer_ip_wp [OF e l(2)] wp_bindI) simp_all
  then show "wp (outer_ip (gn_dest_mac tn @ gn_source_mac tn @ le_bytes 2 BE_ETH_P_IP @ h @ u @ v @ P) 14 a tn)
      (\<lambda>data. wp (do { data \<leftarrow> outer_udp data 34 b tn; data \<leftarrow> outer_geneve data 42 tn; Some (XDP_PASS, data) }) Q)"
    by simp
qed

lemma encap_geneve_sent:
  assumes "env_ok env" and "macs_ok tn" and "14 \<le> length p"
    and "bpf_xdp_adjust_head env (gn_inner_dest_mac tn @ drop 6 p) (- 50) = Some q"
  shows "wp (encap_geneve env p tn) (\<lambda>(action, p'). action = XDP_PASS \<and> geneve_sent p tn p')"
proof -
  let ?p1 = "gn_inner_dest_mac tn @ drop 6 p"
  have s: "set_dst_mac p (gn_inner_dest_mac tn) = Some ?p1"
    using assms(2,3) by (simp add: set_dst_mac_def wr_def patch_def macs_ok_def)
  obtain g where g: "length g = 50" "q = g @ ?p1"
    using grow_shape [OF assms(1), of ?p1 50 q] assms(4) by auto
  obtain e h u v where l: "length e = 14" "length h = 20" "length u = 8" "length v = 8"
      and q: "q = e @ h @ u @ v @ ?p1"
    by (rule split50 [OF g(1)]) (simp add: g(2))
  have n: "8 + 8 + 20 + length p = 36 + length p" "8 + 8 + length p = 16 + length p" "- (8 + 8 + 20 + 14) = (- 50 :: int)" by simp_all
  show ?thesis
    unfolding encap_geneve_def Let_def s Option.bind.simps n assms(4) option.case
    using assms(2,3) l
    by (simp add: q macs_ok_def) (rule outer_headers_wp; auto simp: geneve_sent_def macs_ok_def intro!: exI [of _ "bytes_at h 4 2"])
qed


section \<open>Plain packets\<close>

definition plain_ip :: "packet \<Rightarrow> bool" where
  "plain_ip p \<longleftrightarrow> 34 \<le> length p \<and> u16_at p 12 = BE_ETH_P_IP \<and> p ! 14 = 0x45"

definition pkt_key :: "packet \<Rightarrow> mptm_map_key" where
  "pkt_key p = \<lparr>s_addr = u32_at p 26, d_addr = u32_at p 30\<rparr>"

definition rev_key :: "mptm_map_key \<Rightarrow> mptm_map_key" where
  "rev_key k = \<lparr>s_addr = d_addr k, d_addr = s_addr k\<rparr>"

lemma be_ip_arp: "BE_ETH_P_IP \<noteq> BE_ETH_P_ARP"
  by (simp add: BE_ETH_P_ARP_def BE_ETH_P_IP_def)

lemma parse_plain_ip:
  assumes "parsers_accept env" and "plain_ip p"
  shows "parse_pkt_headers env p Want_ip = Some (Some (0, 14, 0))"
  using assms be_ip_arp by (simp add: parse_pkt_headers_def parsers_accept_def plain_ip_def ld16_at)

lemma parse_plain_udp:
  assumes "parsers_accept env" and "plain_ip p" and "p ! 23 \<noteq> IPPROTO_TCP" and "42 \<le> length p"
    and "8 \<le> unat (bswap16 (u16_at p 38))"
  shows "parse_pkt_headers env p Want_udp = Some (Some (0, 14, 34))"
proof -
  have "\<forall>i. i + 8 \<le> length p \<longrightarrow> 8 \<le> unat (bswap16 (u16_at p (i + 4))) \<longrightarrow> parse_udphdr env p i = Some (i, i + 8)"
    using assms(1) by (simp add: parsers_accept_def)
  from spec [OF this, of 34] have "parse_udphdr env p 34 = Some (34, 42)" using assms(4,5) by simp
  then show ?thesis
    using assms be_ip_arp by (simp add: parse_pkt_headers_def parsers_accept_def plain_ip_def ld16_at)
qed

lemma mptm_encap_plain:
  assumes "parsers_accept env" and "plain_ip p" and "mptm_tnl_info_map s (pkt_key p) = Some tn"
    and "tunnel_type tn = GENEVE"
  shows "mptm_encap env p s = do {
     (action, data) \<leftarrow> encap_geneve env p (tnl_info tn);
     Some (record_action env data (if tn_redirect tn \<noteq> 0 then redirect_map s (veth_iface tn) else (action, None))) }"
proof -
  have "ld32 p 26 = Some (u32_at p 26)" "ld32 p 30 = Some (u32_at p 30)"
    using assms(2) by (simp_all add: plain_ip_def ld32_at)
  then show ?thesis
    using assms(3,4) by (simp add: mptm_encap_def parse_plain_ip [OF assms(1,2)] pkt_key_def VLAN_def GENEVE_def)
qed

lemma length_geneve_front:
  "macs_ok tn \<Longrightarrow> length ident = 2 \<Longrightarrow> length (geneve_front tn ident c n) = 50"
  by (simp add: geneve_front_def macs_ok_def ipv4_hdr_def geneve_vni_def)

lemma geneve_front_facts:
  assumes "macs_ok tn" and "length ident = 2" and "n < 65520"
  shows "u16_at (geneve_front tn ident c n @ r) 12 = BE_ETH_P_IP"
    "(geneve_front tn ident c n @ r) ! 14 = 0x45" "(geneve_front tn ident c n @ r) ! 23 = IPPROTO_UDP"
    "u16_at (geneve_front tn ident c n @ r) 36 = BE_GENEVE_DSTPORT"
    "unat (bswap16 (u16_at (geneve_front tn ident c n @ r) 38)) = 16 + n"
proof -
  have "unat (16 + of_nat n :: u16) = 16 + n"
    using assms(3) unat_of_nat [of "16 + n", where 'a = 16] by (simp add: take_bit_eq_mod)
  then show "unat (bswap16 (u16_at (geneve_front tn ident c n @ r) 38)) = 16 + n"
    using assms(1,2) by (simp add: geneve_front_def macs_ok_def ipv4_hdr_def geneve_vni_def le_word_bytes)
qed (use assms in \<open>simp_all add: geneve_front_def macs_ok_def ipv4_hdr_def geneve_vni_def nth_append le_word_bytes\<close>)

text \<open>The other node: the packet a tunnel sends is unpacked, and the entry for the way back decides where it goes.\<close>

lemma mptm_decap_geneve:
  assumes "env_ok env" and "parsers_accept env" and "bpf_xdp_adjust_head env q 50 \<noteq> None"
    and "macs_ok tn" and "geneve_sent p tn q" and "plain_ip p" and "length p < 65520"
    and "mptm_tnl_info_map s (rev_key (pkt_key p)) = Some tn'" and "tunnel_type tn' = GENEVE"
  shows "mptm_decap env q s =
    Some (record_action env (gn_inner_dest_mac tn @ drop 6 p) (redirect_map s (eth0_iface tn')))"
proof -
  let ?p1 = "gn_inner_dest_mac tn @ drop 6 p"
  obtain ident c where i: "length ident = 2" and q: "q = geneve_front tn ident c (length p) @ ?p1"
    using assms(5) by (auto simp: geneve_sent_def)
  note f = geneve_front_facts [OF assms(4) i assms(7), of c ?p1, folded q]
  note n = length_geneve_front [OF assms(4) i, of c "length p"]
  have l: "84 \<le> length q" using assms(4,6) n by (simp add: q macs_ok_def plain_ip_def)
  have "plain_ip q" using l f by (simp add: plain_ip_def)
  then have u: "parse_pkt_headers env q Want_udp = Some (Some (0, 14, 34))"
    using assms(2) l f by (intro parse_plain_udp) (simp_all add: IPPROTO_TCP_def IPPROTO_UDP_def)
  obtain p2 where p2: "bpf_xdp_adjust_head env q 50 = Some p2" using assms(3) by auto
  then have h: "bpf_xdp_adjust_head env q 50 = Some ?p1"
    using adjust_head_shrink(2) [OF assms(1) p2] n by (simp add: q)
  have m: "length (gn_inner_dest_mac tn) = 6" using assms(4) by (simp add: macs_ok_def)
  have "plain_ip ?p1" using assms(6) m by (auto simp: plain_ip_def nth_append)
  then have w: "parse_pkt_headers env ?p1 Want_ip = Some (Some (0, 14, 0))" by (rule parse_plain_ip [OF assms(2)])
  have a: "ld32 ?p1 26 = Some (u32_at p 26)" "ld32 ?p1 30 = Some (u32_at p 30)" "ld16 q 36 = Some BE_GENEVE_DSTPORT"
    using assms(6) l m f(4) by (simp_all add: ld32_at ld16_at plain_ip_def)
  show ?thesis
    using assms(8,9) by (simp add: mptm_decap_def u h w a pkt_key_def rev_key_def)
qed


section \<open>Memory safety\<close>

lemma parsers_safeD:
  assumes "parsers_safe env"
  shows "parse_ethhdr env p i = Some (h, j) \<Longrightarrow> h = i \<and> i + 14 \<le> length p"
    and "parse_iphdr env p i = Some (h', j', t) \<Longrightarrow> h' + 20 \<le> length p"
    and "parse_udphdr env p i = Some (h, j) \<Longrightarrow> h + 8 \<le> length p"
  using assms unfolding parsers_safe_def by (fastforce dest: spec)+

lemma parse_pkt_headers_wp:
  assumes "parsers_safe env"
  shows "wp (parse_pkt_headers env p w) (\<lambda>h. case h of None \<Rightarrow> True | Some (eth, ip, udp) \<Rightarrow>
    ip + 20 \<le> length p \<and> (w = Want_udp \<longrightarrow> udp + 8 \<le> length p))"
proof (cases "parse_ethhdr env p 0")
  case (Some x)
  then obtain eth nh where e: "parse_ethhdr env p 0 = Some (eth, nh)" by (cases x) auto
  then have "eth = 0" "14 \<le> length p" using parsers_safeD(1) [OF assms] by fastforce+
  then show ?thesis using e
    by (auto simp: parse_pkt_headers_def wp_simps split: option.split wanted.split
        dest: parsers_safeD(2,3) [OF assms])
qed (simp add: parse_pkt_headers_def wp_Some)

lemma fr_outer_ip [fr_elim]:
  "fr K N D p \<Longrightarrow> ip + 20 \<le> K \<Longrightarrow> ip + 20 \<le> N \<Longrightarrow> (\<And>p'. fr K N D p' \<Longrightarrow> Q p') \<Longrightarrow> wp (outer_ip p ip n tn) Q"
  unfolding outer_ip_eq by (rule fr_create_v4_hdr)

lemma fr_outer_udp [fr_elim]:
  "fr K N D p \<Longrightarrow> udp + 8 \<le> K \<Longrightarrow> udp + 8 \<le> N \<Longrightarrow> (\<And>p'. fr K N D p' \<Longrightarrow> Q p') \<Longrightarrow> wp (outer_udp p udp n tn) Q"
  unfolding outer_udp_def by (rule wp_bindI | erule fr_elim | (simp; fail))+

lemma fr_outer_geneve [fr_elim]:
  "fr K N D p \<Longrightarrow> gnv + 8 \<le> K \<Longrightarrow> gnv + 8 \<le> N \<Longrightarrow> (\<And>p'. fr K N D p' \<Longrightarrow> Q p') \<Longrightarrow> wp (outer_geneve p gnv tn) Q"
  unfolding outer_geneve_def by (rule wp_bindI | erule fr_elim | (simp; fail))+

lemma fr_set_mac [fr_elim]:
  "fr K N D p \<Longrightarrow> 6 \<le> K \<Longrightarrow> 6 \<le> N \<Longrightarrow> (\<And>p'. fr K N D p' \<Longrightarrow> Q p') \<Longrightarrow> wp (set_dst_mac p m) Q"
  "fr K N D p \<Longrightarrow> 12 \<le> K \<Longrightarrow> 12 \<le> N \<Longrightarrow> (\<And>p'. fr K N D p' \<Longrightarrow> Q p') \<Longrightarrow> wp (set_src_mac p m) Q"
  unfolding set_dst_mac_def set_src_mac_def by (erule fr_elim; simp)+

lemma fr_self: "fr 50 (length p) (drop 50 p) p"
  by (simp add: fr_def)

lemma encap_geneve_wp: "wp (encap_geneve env p tn) (\<lambda>_. True)"
proof -
  have "wp (do {
      data \<leftarrow> st16 q 12 BE_ETH_P_IP;
      data \<leftarrow> set_dst_mac data (gn_dest_mac tn);
      data \<leftarrow> set_src_mac data (gn_source_mac tn);
      data \<leftarrow> outer_ip data 14 a tn;
      data \<leftarrow> outer_udp data 34 b tn;
      data \<leftarrow> outer_geneve data 42 tn;
      Some (XDP_PASS, data) }) (\<lambda>_. True)" if "50 \<le> length q" for q a b
    using fr_self [of q] that by - (rule wp_bindI | erule fr_elim | (simp add: wp_Some; fail))+
  moreover have "wp (set_dst_mac p m) (\<lambda>_. True)" if "14 \<le> length p" for m
    using that by (simp add: set_dst_mac_def wp_wr)
  ultimately show ?thesis
    unfolding encap_geneve_def Let_def
    by (auto simp: wp_if wp_bind wp_Some wp_case_option intro: wp_mono)
qed


lemma mptm_programs_total:
  assumes "parsers_safe env"
  shows "mptm_encap env p s \<noteq> None" and "mptm_decap env p s \<noteq> None"
proof -
  have g: "wp (encap_geneve env p tn) (\<lambda>x. wp (case x of (a, d) \<Rightarrow> Some (f a d)) (\<lambda>_. True))" for f tn p
    by (rule wp_mono [OF encap_geneve_wp]) (simp add: wp_simps)
  have "wp (mptm_encap env p s) (\<lambda>_. True)"
    unfolding mptm_encap_def wp_bind
    by (rule wp_mono [OF parse_pkt_headers_wp [OF assms]])
      (auto simp: wp_simps encap_vlan_def g [simplified wp_case_prod] wp_mono [OF encap_geneve_wp] split: option.split)
  then show "mptm_encap env p s \<noteq> None" by (simp only: wp_total)
  have i: "wp (parse_pkt_headers env q Want_ip) (\<lambda>h. wp (case h of None \<Rightarrow> Some (record_action env q (XDP_PASS, None))
      | Some (_, ip, _) \<Rightarrow> do {
          saddr \<leftarrow> ld32 q (ip + 12); daddr \<leftarrow> ld32 q (ip + 16);
          case mptm_tnl_info_map s \<lparr>s_addr = daddr, d_addr = saddr\<rparr> of
            None \<Rightarrow> Some (record_action env q (XDP_PASS, None))
          | Some tn \<Rightarrow> if tunnel_type tn \<noteq> GENEVE then Some (XDP_DROP, None, q)
                        else Some (record_action env q (redirect_map s (eth0_iface tn))) }) (\<lambda>_. True))" for q
    by (rule wp_mono [OF parse_pkt_headers_wp [OF assms]]) (auto simp: wp_simps split: option.split)
  have "wp (mptm_decap env p s) (\<lambda>_. True)"
    unfolding mptm_decap_def wp_bind
    by (rule wp_mono [OF parse_pkt_headers_wp [OF assms]])
      (auto simp: wp_if wp_Some wp_bind [of "ld16 _ _"] wp_ld16 wp_case_option wp_case_prod intro: i [unfolded wp_bind [symmetric]])
  then show "mptm_decap env p s \<noteq> None" by (simp only: wp_total)
qed

section \<open>Properties\<close>

text \<open>C23: A packet from one pod to another, with tunnels configured on both nodes, arrives: the first node sends it inside a
  Geneve datagram out of the tunnel's device, and the second node, which looks the pair up the other way round, recovers
  the packet byte for byte, under the destination address the tunnel gives the inner frame, and sends it to the device of
  its own entry.\<close>

theorem geneve_roundtrip:
  assumes "env_ok env1" and "parsers_accept env1" and "env_ok env2" and "parsers_accept env2"
    and "plain_ip p" and "length p < 65520"
    and "mptm_tnl_info_map s1 (pkt_key p) = Some tn1" and "tunnel_type tn1 = GENEVE" and "macs_ok (tnl_info tn1)"
    and "tn_redirect tn1 \<noteq> 0" and "mptm_tnl_redirect_devmap s1 (veth_iface tn1) = Some dev1"
    and "bpf_xdp_adjust_head env1 (gn_inner_dest_mac (tnl_info tn1) @ drop 6 p) (- 50) \<noteq> None"
    and "mptm_tnl_info_map s2 (rev_key (pkt_key p)) = Some tn2" and "tunnel_type tn2 = GENEVE"
    and "mptm_tnl_redirect_devmap s2 (eth0_iface tn2) = Some dev2"
    and "\<And>q. 64 \<le> length q \<Longrightarrow> bpf_xdp_adjust_head env2 q 50 \<noteq> None"
  shows "\<exists>q. mptm_encap env1 p s1 = Some (xdp_stats_record_action env1 q XDP_REDIRECT, Some dev1, q) \<and>
    mptm_decap env2 q s2 =
      (let p' = gn_inner_dest_mac (tnl_info tn1) @ drop 6 p
       in Some (xdp_stats_record_action env2 p' XDP_REDIRECT, Some dev2, p'))"
proof -
  have "14 \<le> length p" using assms(5) by (simp add: plain_ip_def)
  with assms(1,9,12) obtain q where q: "encap_geneve env1 p (tnl_info tn1) = Some (XDP_PASS, q)"
    and sent: "geneve_sent p (tnl_info tn1) q"
    using encap_geneve_sent by (fastforce simp: wp_def)
  have "64 \<le> length q"
    using sent assms(5,9) length_geneve_front [OF assms(9)]
    by (auto simp: geneve_sent_def plain_ip_def macs_ok_def)
  then have "mptm_decap env2 q s2 = Some (record_action env2 (gn_inner_dest_mac (tnl_info tn1) @ drop 6 p)
      (redirect_map s2 (eth0_iface tn2)))"
    using assms(3,4,5,6,9,13,14,16) sent by (intro mptm_decap_geneve) simp_all
  then show ?thesis
    using q mptm_encap_plain [OF assms(2,5,7,8)] assms(10,11,15)
    by (auto simp: record_action_def redirect_map_def Let_def)
qed

text \<open>What the first node puts on the wire: the packet behind 50 bytes of Ethernet, IPv4, UDP and Geneve headers, the
  IPv4 header with the lengths of what follows and a valid checksum, the network identifier in network byte order.\<close>

theorem geneve_datagram:
  assumes "env_ok env" and "parsers_accept env" and "plain_ip p"
    and "mptm_tnl_info_map s (pkt_key p) = Some tn" and "tunnel_type tn = GENEVE" and "macs_ok (tnl_info tn)"
    and "bpf_xdp_adjust_head env (gn_inner_dest_mac (tnl_info tn) @ drop 6 p) (- 50) \<noteq> None"
  shows "\<exists>a i q. mptm_encap env p s = Some (a, i, q) \<and> geneve_sent p (tnl_info tn) q \<and> length q = length p + 50"
proof -
  have l: "14 \<le> length p" using assms(3) by (simp add: plain_ip_def)
  with assms(1,6,7) obtain q where q: "encap_geneve env p (tnl_info tn) = Some (XDP_PASS, q)"
    and sent: "geneve_sent p (tnl_info tn) q"
    using encap_geneve_sent by (fastforce simp: wp_def)
  then show ?thesis
    using mptm_encap_plain [OF assms(2-5)] length_geneve_front [OF assms(6)] l assms(6)
    by (auto simp: record_action_def geneve_sent_def macs_ok_def)
qed

text \<open>When the kernel has no headroom for the outer headers, \<open>encap_geneve\<close> answers with a drop, but a tunnel that redirects
  overwrites that answer: the bare inner packet, already under its rewritten destination address, leaves by the device
  of the tunnel.\<close>

theorem encap_failure_redirects:
  assumes "parsers_accept env" and "plain_ip p"
    and "mptm_tnl_info_map s (pkt_key p) = Some tn" and "tunnel_type tn = GENEVE" and "macs_ok (tnl_info tn)"
    and "bpf_xdp_adjust_head env (gn_inner_dest_mac (tnl_info tn) @ drop 6 p) (- 50) = None"
    and "tn_redirect tn \<noteq> 0" and "mptm_tnl_redirect_devmap s (veth_iface tn) = Some dev"
  shows "encap_geneve env p (tnl_info tn) = Some (XDP_DROP, gn_inner_dest_mac (tnl_info tn) @ drop 6 p) \<and>
    mptm_encap env p s = (let q = gn_inner_dest_mac (tnl_info tn) @ drop 6 p
      in Some (xdp_stats_record_action env q XDP_REDIRECT, Some dev, q))"
proof -
  have l: "14 \<le> length p" using assms(2) by (simp add: plain_ip_def)
  then have "set_dst_mac p (gn_inner_dest_mac (tnl_info tn)) = Some (gn_inner_dest_mac (tnl_info tn) @ drop 6 p)"
    using assms(5) by (simp add: set_dst_mac_def wr_def patch_def macs_ok_def)
  then have "encap_geneve env p (tnl_info tn) = Some (XDP_DROP, gn_inner_dest_mac (tnl_info tn) @ drop 6 p)"
    using l assms(6) by (simp add: encap_geneve_def)
  then show ?thesis
    using mptm_encap_plain [OF assms(1-4)] assms(7,8) by (simp add: record_action_def redirect_map_def Let_def)
qed


section \<open>Two nodes\<close>

text \<open>The tutorial's parsers for packets without VLAN tags, on the concrete kernel; a packet from 10.0.0.1 to 10.0.0.2.\<close>

definition tutorial_env :: mptm_env where
  "tutorial_env = bpf_env.extend kernel_env
     \<lparr>parse_ethhdr = (\<lambda>p i. if i + 14 \<le> length p then Some (i, i + 14) else None),
      parse_iphdr = (\<lambda>p i. if i + 20 \<le> length p \<and> p ! i AND 0xF = 5 then Some (i, i + 20, p ! (i + 9)) else None),
      parse_udphdr = (\<lambda>p i. if i + 8 \<le> length p \<and> 8 \<le> unat (bswap16 (u16_at p (i + 4))) then Some (i, i + 8) else None),
      vlan_tag_push = (\<lambda>p i v. if 14 \<le> length p then Some (take 12 p @ [0x81, 0] @ le_bytes 2 (bswap16 v) @ drop 12 p) else None),
      xdp_stats_record_action = (\<lambda>p a. a)\<rparr>"

lemma tutorial_env_sel [simp]:
  "bpf_xdp_adjust_head tutorial_env = kernel_adjust_head" "bpf_xdp_adjust_tail tutorial_env = kernel_adjust_tail"
  "xdp_stats_record_action tutorial_env p a = a"
  by (simp_all add: tutorial_env_def bpf_env.extend_def kernel_env_def)

lemma tutorial_env_ok: "env_ok tutorial_env" "parsers_accept tutorial_env" "parsers_safe tutorial_env"
  by (auto simp: env_ok_def kernel_adjust_head_ok kernel_adjust_tail_ok parsers_accept_def parsers_safe_def
      tutorial_env_def bpf_env.extend_def kernel_env_def split: if_splits)

definition gnv_A :: geneve_info where
  "gnv_A = \<lparr>gn_vlan_id = 7, gn_source_port = 0x3930, gn_dest_addr = 0x0200A8C0, gn_source_addr = 0x0100A8C0,
     gn_inner_dest_mac = [2, 0, 0, 0, 0, 2], gn_source_mac = [2, 0, 0, 0, 1, 1], gn_dest_mac = [2, 0, 0, 0, 1, 2]\<rparr>"

definition tun_A :: tunnel_info where
  "tun_A = \<lparr>tunnel_type = GENEVE, tn_redirect = 1, eth0_iface = 3, veth_iface = 4, tnl_info = gnv_A\<rparr>"

definition pod_pkt :: packet where
  "pod_pkt = [2, 0, 0, 0, 0, 9, 2, 0, 0, 0, 0, 1, 8, 0,
     0x45, 0, 0, 20, 0, 1, 0, 0, 64, 17, 0, 0, 10, 0, 0, 1, 10, 0, 0, 2]"

definition node_A :: mptm_maps where
  "node_A = \<lparr>mptm_tnl_info_map = [pkt_key pod_pkt \<mapsto> tun_A], mptm_tnl_redirect_devmap = [4 \<mapsto> 11]\<rparr>"

definition node_B :: mptm_maps where
  "node_B = \<lparr>mptm_tnl_info_map = [rev_key (pkt_key pod_pkt) \<mapsto> tun_A], mptm_tnl_redirect_devmap = [3 \<mapsto> 12]\<rparr>"

definition full_env :: mptm_env where
  "full_env = tutorial_env\<lparr>bpf_xdp_adjust_head := (\<lambda>p d. None)\<rparr>"

lemma pod_pkt_facts: "plain_ip pod_pkt" "length pod_pkt = 34" "macs_ok gnv_A"
  by (simp_all add: plain_ip_def pod_pkt_def macs_ok_def gnv_A_def BE_ETH_P_IP_def le_word_def)

lemma full_env_accepts: "parsers_accept full_env"
  using tutorial_env_ok(2) by (simp add: parsers_accept_def full_env_def)

theorem geneve_roundtrip_witness:
  "\<exists>q. mptm_encap tutorial_env pod_pkt node_A = Some (XDP_REDIRECT, Some 11, q) \<and>
    mptm_decap tutorial_env q node_B = Some (XDP_REDIRECT, Some 12, [2, 0, 0, 0, 0, 2] @ drop 6 pod_pkt)"
proof -
  have k: "\<And>q. 64 \<le> length q \<Longrightarrow> bpf_xdp_adjust_head tutorial_env q 50 \<noteq> None"
    by (simp add: kernel_adjust_head_def)
  show ?thesis
    using geneve_roundtrip [OF tutorial_env_ok(1,2) tutorial_env_ok(1,2) pod_pkt_facts(1) _ _ _ _ _ _ _ _ _ _ k,
        of node_A tun_A 11 node_B tun_A 12] pod_pkt_facts
    by (simp add: node_A_def node_B_def tun_A_def kernel_adjust_head_def gnv_A_def Let_def)
qed

theorem geneve_datagram_witness:
  "\<exists>a i q. mptm_encap tutorial_env pod_pkt node_A = Some (a, i, q) \<and> geneve_sent pod_pkt gnv_A q \<and> length q = 84"
  using geneve_datagram [OF tutorial_env_ok(1,2) pod_pkt_facts(1), of node_A tun_A] pod_pkt_facts
  by (simp add: node_A_def tun_A_def kernel_adjust_head_def)

theorem encap_failure_redirects_witness:
  "mptm_encap full_env pod_pkt node_A = Some (XDP_REDIRECT, Some 11, [2, 0, 0, 0, 0, 2] @ drop 6 pod_pkt)"
  using encap_failure_redirects [OF full_env_accepts pod_pkt_facts(1), of node_A tun_A 11] pod_pkt_facts
  by (simp add: node_A_def tun_A_def full_env_def gnv_A_def Let_def)

end
